(* ===== verification/Prelude.thy ===== *)
theory Prelude
  imports Main "HOL-Library.Char_ord"
begin

text \<open>
  Shared vocabulary of the development: identifiers and instants, the exceptions the
  services raise, the result of an operation that reads and writes the database, the Python
  string operations the services call, and the queryset operations on a table.

  Strings are lists of \<^typ>\<open>char\<close>, read as the code points U+0000 to U+00FF; every string
  function below is Python's on that range. An operation returns its result together with
  the state it leaves: a Python exception does not undo the writes made before it, except
  inside \<open>transaction.atomic()\<close>, which is \<open>atomic\<close> below.
\<close>

named_theorems db_simps "equations of table operations and of the state they leave"
named_theorems op_defs "definitions of the operations, unfolded together in branch analyses"

type_synonym instant = int
type_synonym uuid = string
type_synonym pk = nat

subsection \<open>Exceptions and results\<close>

datatype exn =
    ValidationServiceError string
  | ConflictServiceError string
  | PlanLimitExceededError string
  | NotFoundServiceError string
  | DoesNotExist
  | MultipleObjectsReturned
  | IntegrityError
  | DjangoValidationError "string list"
  | PyValueError string
  | UndefinedValueError string
  | ImproperlyConfigured string
  | DatabaseError
  | PyKeyError string
  | StopIteration
  | BrokerError
  | MailError

text \<open>\<open>str(exc)\<close> and \<open>exc.user_message\<close> of the service-layer exceptions.\<close>

fun user_message :: "exn \<Rightarrow> string" where
  "user_message (ValidationServiceError m) = m"
| "user_message (ConflictServiceError m) = m"
| "user_message (PlanLimitExceededError m) = m"
| "user_message (NotFoundServiceError m) = m"
| "user_message _ = []"

type_synonym ('s, 'a) op = "'s \<Rightarrow> (exn + 'a) \<times> 's"

definition returns :: "'a \<Rightarrow> ('s, 'a) op" where
  "returns x s = (Inr x, s)"

definition raises :: "exn \<Rightarrow> ('s, 'a) op" where
  "raises e s = (Inl e, s)"

definition atomic :: "('s, 'a) op \<Rightarrow> ('s, 'a) op" where
  "atomic f s = (case f s of (Inl e, _) \<Rightarrow> (Inl e, s) | (Inr x, s') \<Rightarrow> (Inr x, s'))"

lemma atomic_error_rolls_back: "atomic f s = (Inl e, s') \<Longrightarrow> s' = s"
  by (auto simp: atomic_def split: prod.splits sum.splits)

lemma atomic_returns: "f s = (Inr x, s') \<Longrightarrow> atomic f s = (Inr x, s')"
  by (simp add: atomic_def)

text \<open>
  A Celery task with \<open>max_retries = n\<close>: a failed execution is repeated on the state it left,
  \<open>n\<close> times at most; the last failure is the outcome.
\<close>

fun with_retries :: "nat \<Rightarrow> ('s, 'a) op \<Rightarrow> ('s, 'a) op" where
  "with_retries 0 f s = f s"
| "with_retries (Suc n) f s =
     (case f s of (Inl _, s') \<Rightarrow> with_retries n f s' | (Inr x, s') \<Rightarrow> (Inr x, s'))"

lemma with_retries_inv:
  assumes "\<And>s. I s \<Longrightarrow> I (snd (f s))" and "I s"
  shows "I (snd (with_retries n f s))"
  using assms(2)
proof (induction n arbitrary: s)
  case (Suc n)
  then show ?case
    using assms(1) [of s] by (auto split: prod.splits sum.splits)
qed (simp add: assms(1))

lemma with_retries_ok: "f s = (Inr x, s') \<Longrightarrow> with_retries n f s = (Inr x, s')"
  by (cases n) simp_all

text \<open>A text in single quotes.\<close>

definition quoted :: "string \<Rightarrow> string" where
  "quoted x = [CHR 0x27] @ x @ [CHR 0x27]"

text \<open>A message handed to the mail backend.\<close>

record mail =
  ml_to :: "string list"
  ml_subject :: string
  ml_body :: string

text \<open>\<open>send_mail(..., fail_silently=False)\<close>: the outcome and what was handed over.\<close>

definition send_mail :: "(mail \<Rightarrow> bool) \<Rightarrow> mail \<Rightarrow> 'r \<Rightarrow> (exn + 'r) \<times> mail list" where
  "send_mail accepts m r = (if accepts m then (Inr r, [m]) else (Inl MailError, []))"

text \<open>\<open>sep.join(parts)\<close>.\<close>

fun join :: "string \<Rightarrow> string list \<Rightarrow> string" where
  "join sep [] = []"
| "join sep [p] = p"
| "join sep (p # q # ps) = p @ sep @ join sep (q # ps)"

lemma isl_cases [case_names Error Ok]:
  "(\<And>e. r = Inl e \<Longrightarrow> P) \<Longrightarrow> (\<And>x. r = Inr x \<Longrightarrow> P) \<Longrightarrow> P"
  by (cases r) auto

subsection \<open>Python strings\<close>

definition py_isspace :: "char \<Rightarrow> bool" where
  "py_isspace c =
     (let n = (of_char c :: nat)
      in (9 \<le> n \<and> n \<le> 13) \<or> (28 \<le> n \<and> n \<le> 32) \<or> n = 133 \<or> n = 160)"

definition py_lower_char :: "char \<Rightarrow> char" where
  "py_lower_char c =
     (let n = (of_char c :: nat)
      in if (65 \<le> n \<and> n \<le> 90) \<or> (192 \<le> n \<and> n \<le> 222 \<and> n \<noteq> 215) then char_of (n + 32) else c)"

definition py_lower :: "string \<Rightarrow> string" where
  "py_lower s = map py_lower_char s"

definition lstrip_by :: "('a \<Rightarrow> bool) \<Rightarrow> 'a list \<Rightarrow> 'a list" where
  "lstrip_by P s = dropWhile P s"

definition rstrip_by :: "('a \<Rightarrow> bool) \<Rightarrow> 'a list \<Rightarrow> 'a list" where
  "rstrip_by P s = rev (dropWhile P (rev s))"

definition strip_by :: "('a \<Rightarrow> bool) \<Rightarrow> 'a list \<Rightarrow> 'a list" where
  "strip_by P s = rstrip_by P (lstrip_by P s)"

definition py_strip :: "string \<Rightarrow> string" where
  "py_strip s = strip_by py_isspace s"

text \<open>\<open>s.replace(a, b)\<close> for one-character \<open>a\<close> and \<open>b\<close>; \<open>s.split(c)[0]\<close>; \<open>s.startswith(p)\<close>.\<close>

definition replace_char :: "char \<Rightarrow> char \<Rightarrow> string \<Rightarrow> string" where
  "replace_char a b s = map (\<lambda>c. if c = a then b else c) s"

definition split_head :: "char \<Rightarrow> string \<Rightarrow> string" where
  "split_head c s = takeWhile (\<lambda>x. x \<noteq> c) s"

fun starts_with :: "string \<Rightarrow> string \<Rightarrow> bool" where
  "starts_with s [] = True"
| "starts_with [] (p # ps) = False"
| "starts_with (c # cs) (p # ps) = (c = p \<and> starts_with cs ps)"

lemma starts_with_prefix: "starts_with s p \<longleftrightarrow> (\<exists>t. s = p @ t)"
  by (induction s p rule: starts_with.induct) auto

text \<open>Python's \<open>a or b\<close> on strings: the empty string is false.\<close>

definition str_or :: "string \<Rightarrow> string \<Rightarrow> string" where
  "str_or a b = (if a = [] then b else a)"

lemma strip_by_ends:
  "strip_by P s \<noteq> [] \<Longrightarrow> \<not> P (hd (strip_by P s)) \<and> \<not> P (last (strip_by P s))"
proof -
  assume ne: "strip_by P s \<noteq> []"
  define t where "t = dropWhile P s"
  have s: "strip_by P s = rev (dropWhile P (rev t))"
    by (simp add: strip_by_def rstrip_by_def lstrip_by_def t_def)
  have last: "\<not> P (last (strip_by P s))"
    using ne hd_dropWhile [of P "rev t"] unfolding s by (simp add: last_rev)
  have "t \<noteq> []" using ne s by auto
  then have hdt: "\<not> P (hd t)" unfolding t_def by (metis hd_dropWhile)
  obtain u where u: "rev t = takeWhile P (rev t) @ dropWhile P (rev t)"
    by (metis takeWhile_dropWhile_id)
  then have "t = rev (dropWhile P (rev t)) @ rev (takeWhile P (rev t))"
    by (metis rev_append rev_rev_ident)
  then have "hd t = hd (rev (dropWhile P (rev t)))"
    using ne s by (metis hd_append2)
  with hdt last s show ?thesis by simp
qed

lemma strip_by_fixed:
  assumes "s \<noteq> [] \<Longrightarrow> \<not> P (hd s) \<and> \<not> P (last s)"
  shows "strip_by P s = s"
proof (cases s)
  case Nil
  then show ?thesis by (simp add: strip_by_def rstrip_by_def lstrip_by_def)
next
  case (Cons c cs)
  with assms have "\<not> P c" "\<not> P (last s)" by auto
  moreover have "dropWhile P (rev s) = rev s"
    using \<open>\<not> P (last s)\<close> Cons by (metis dropWhile_eq_self_iff hd_rev)
  ultimately show ?thesis using Cons by (simp add: strip_by_def rstrip_by_def lstrip_by_def)
qed

lemma strip_by_idem [simp]: "strip_by P (strip_by P s) = strip_by P s"
  by (rule strip_by_fixed) (rule strip_by_ends)

lemma strip_by_map:
  assumes "\<And>c. P (f c) = P c"
  shows "strip_by P (map f s) = map f (strip_by P s)"
proof -
  have "P \<circ> f = P" using assms by auto
  then show ?thesis
    by (simp add: strip_by_def rstrip_by_def lstrip_by_def dropWhile_map rev_map)
qed

lemma set_strip_by: "set (strip_by P s) \<subseteq> set s"
  unfolding strip_by_def rstrip_by_def lstrip_by_def
  by (auto dest!: set_dropWhileD)

lemma py_strip_idem [simp]: "py_strip (py_strip s) = py_strip s"
  by (simp add: py_strip_def)

lemma of_char_bound: "(of_char c :: nat) < 256"
  using nat_of_char_less_256 by simp

lemma py_lower_char_code:
  "(of_char (py_lower_char c) :: nat) =
     (let n = of_char c in if (65 \<le> n \<and> n \<le> 90) \<or> (192 \<le> n \<and> n \<le> 222 \<and> n \<noteq> 215) then n + 32 else n)"
  using of_char_bound [of c] by (auto simp: py_lower_char_def Let_def)

lemma py_lower_char_idem [simp]: "py_lower_char (py_lower_char c) = py_lower_char c"
  unfolding py_lower_char_def [of "py_lower_char c"] Let_def py_lower_char_code
  using of_char_bound [of c] by (auto simp: Let_def)

lemma py_isspace_lower [simp]: "py_isspace (py_lower_char c) = py_isspace c"
  unfolding py_isspace_def py_lower_char_code Let_def by auto

lemma py_lower_idem [simp]: "py_lower (py_lower s) = py_lower s"
  by (simp add: py_lower_def)

lemma py_strip_lower: "py_strip (py_lower s) = py_lower (py_strip s)"
  by (simp add: py_strip_def py_lower_def strip_by_map)

text \<open>\<open>s.strip().lower()\<close>, the normal form of the e-mail addresses and host names.\<close>

definition strip_lower :: "string \<Rightarrow> string" where
  "strip_lower s = py_lower (py_strip s)"

lemma strip_lower_idem [simp]: "strip_lower (strip_lower s) = strip_lower s"
  by (simp add: strip_lower_def py_strip_lower)

text \<open>\<open>str(n)\<close> of a non-negative integer.\<close>

definition digit_char :: "nat \<Rightarrow> char" where
  "digit_char n = char_of (48 + n)"

fun str_nat :: "nat \<Rightarrow> string" where
  "str_nat n = (if n < 10 then [digit_char n] else str_nat (n div 10) @ [digit_char (n mod 10)])"

declare str_nat.simps [simp del]

fun nat_of_digits :: "string \<Rightarrow> nat" where
  "nat_of_digits ds = foldl (\<lambda>acc c. 10 * acc + (of_char c - 48)) 0 ds"

lemma digit_char_code: "n < 10 \<Longrightarrow> (of_char (digit_char n) :: nat) = 48 + n"
  by (simp add: digit_char_def)

lemma nat_of_digits_str_nat: "nat_of_digits (str_nat n) = n"
proof (induction n rule: str_nat.induct)
  case (1 n)
  show ?case
  proof (cases "n < 10")
    case True
    then show ?thesis by (simp add: str_nat.simps [of n] digit_char_code)
  next
    case False
    then have "nat_of_digits (str_nat n) = 10 * nat_of_digits (str_nat (n div 10)) + n mod 10"
      by (simp add: str_nat.simps [of n] digit_char_code)
    with 1 [OF False] show ?thesis by simp
  qed
qed

lemma str_nat_inject [simp]: "str_nat m = str_nat n \<longleftrightarrow> m = n"
  by (metis nat_of_digits_str_nat)

lemma str_nat_digits: "c \<in> set (str_nat n) \<Longrightarrow> 48 \<le> (of_char c :: nat) \<and> (of_char c :: nat) \<le> 57"
proof (induction n rule: str_nat.induct)
  case (1 n)
  show ?case
  proof (cases "n < 10")
    case True
    with 1(2) show ?thesis by (simp add: str_nat.simps [of n] digit_char_code)
  next
    case False
    with 1(2) have "c \<in> set (str_nat (n div 10)) \<or> c = digit_char (n mod 10)"
      by (auto simp: str_nat.simps [of n])
    with 1(1) [OF False] digit_char_code [of "n mod 10"] show ?thesis by auto
  qed
qed

text \<open>A number, a colon and a text are read back from their concatenation.\<close>

lemma str_nat_colon_inject:
  "str_nat m @ CHR '':'' # a = str_nat n @ CHR '':'' # b \<longleftrightarrow> m = n \<and> a = b"
proof
  assume eq: "str_nat m @ CHR '':'' # a = str_nat n @ CHR '':'' # b"
  have digits: "takeWhile (\<lambda>c. c \<noteq> CHR '':'') (str_nat k @ CHR '':'' # r) = str_nat k" for k r
  proof -
    have "(of_char (CHR '':'') :: nat) = 58" by code_simp
    then have "c \<noteq> CHR '':''" if "c \<in> set (str_nat k)" for c using str_nat_digits [OF that] by auto
    then show ?thesis by simp
  qed
  from eq have "str_nat m = str_nat n" by (metis digits)
  with eq show "m = n \<and> a = b" by simp
qed simp

lemma str_nat_not_Nil [simp]: "str_nat n \<noteq> []"
  by (subst str_nat.simps) simp

text \<open>\<open>repr(s)\<close>.\<close>

definition hex_digit :: "nat \<Rightarrow> char" where
  "hex_digit n = (if n < 10 then char_of (48 + n) else char_of (87 + n))"

definition repr_char :: "char \<Rightarrow> char \<Rightarrow> string" where
  "repr_char quote c =
     (let n = (of_char c :: nat)
      in if c = quote \<or> n = 92 then [CHR 0x5C, c]
         else if n = 9 then [CHR 0x5C, CHR ''t'']
         else if n = 10 then [CHR 0x5C, CHR ''n'']
         else if n = 13 then [CHR 0x5C, CHR ''r'']
         else if n < 32 \<or> (127 \<le> n \<and> n \<le> 160) \<or> n = 173
         then [CHR 0x5C, CHR ''x'', hex_digit (n div 16), hex_digit (n mod 16)] else [c])"

definition py_repr :: "string \<Rightarrow> string" where
  "py_repr s =
     (let quote = (if CHR 0x27 \<in> set s \<and> CHR 0x22 \<notin> set s then CHR 0x22 else CHR 0x27)
      in [quote] @ concat (map (repr_char quote) s) @ [quote])"

end
