(* ===== verification/Store.thy ===== *)
theory Store
  imports Prelude
begin

text \<open>
  The storage the services rely on, as interfaces and their list or map models.

  A table is the list of its rows in insertion order. \<open>qs_get\<close>, \<open>qs_exists\<close>, \<open>qs_count\<close>,
  \<open>qs_first\<close>, \<open>qs_update\<close>, \<open>qs_delete\<close>, \<open>get_or_create\<close> and \<open>update_or_create\<close> are the
  documented queryset operations on it: \<open>get\<close> raises when no row or several rows match.
  The cache maps a key to a value and the instant it expires.

  Three locales state what the components rely on: \<open>keyed_table\<close> (a table whose rows are
  unique per key), \<open>timed_cache\<close> and \<open>preserved\<close> (an invariant kept by every step of a
  machine, hence by its runs). Each component interprets them on its own definitions.
\<close>

subsection \<open>Querysets\<close>

definition qs_get :: "('r \<Rightarrow> bool) \<Rightarrow> 'r list \<Rightarrow> exn + 'r" where
  "qs_get P t =
     (case filter P t of
        [] \<Rightarrow> Inl DoesNotExist
      | [r] \<Rightarrow> Inr r
      | _ \<Rightarrow> Inl MultipleObjectsReturned)"

definition qs_exists :: "('r \<Rightarrow> bool) \<Rightarrow> 'r list \<Rightarrow> bool" where
  "qs_exists P t = list_ex P t"

definition qs_count :: "('r \<Rightarrow> bool) \<Rightarrow> 'r list \<Rightarrow> nat" where
  "qs_count P t = length (filter P t)"

text \<open>\<open>order_by(key).filter(P).first()\<close>.\<close>

definition qs_first :: "('r \<Rightarrow> int) \<Rightarrow> ('r \<Rightarrow> bool) \<Rightarrow> 'r list \<Rightarrow> 'r option" where
  "qs_first ord P t = (case sort_key ord (filter P t) of [] \<Rightarrow> None | r # _ \<Rightarrow> Some r)"

definition qs_update :: "('r \<Rightarrow> bool) \<Rightarrow> ('r \<Rightarrow> 'r) \<Rightarrow> 'r list \<Rightarrow> 'r list" where
  "qs_update P f t = map (\<lambda>r. if P r then f r else r) t"

definition qs_delete :: "('r \<Rightarrow> bool) \<Rightarrow> 'r list \<Rightarrow> 'r list" where
  "qs_delete P t = filter (\<lambda>r. \<not> P r) t"

definition get_or_create :: "('r \<Rightarrow> bool) \<Rightarrow> 'r \<Rightarrow> ('r list, 'r \<times> bool) op" where
  "get_or_create P new t =
     (case qs_get P t of
        Inr r \<Rightarrow> (Inr (r, False), t)
      | Inl e \<Rightarrow> if e = DoesNotExist then (Inr (new, True), t @ [new]) else (Inl e, t))"

definition update_or_create :: "('r \<Rightarrow> bool) \<Rightarrow> ('r \<Rightarrow> 'r) \<Rightarrow> 'r \<Rightarrow> ('r list, 'r \<times> bool) op" where
  "update_or_create P upd new t =
     (case qs_get P t of
        Inr r \<Rightarrow> (Inr (upd r, False), qs_update P upd t)
      | Inl e \<Rightarrow> if e = DoesNotExist then (Inr (new, True), t @ [new]) else (Inl e, t))"

lemma qs_get_cases [case_names None One Many]:
  assumes "qs_get P t = Inl DoesNotExist \<Longrightarrow> filter P t = [] \<Longrightarrow> Q"
    and "\<And>r. qs_get P t = Inr r \<Longrightarrow> filter P t = [r] \<Longrightarrow> r \<in> set t \<Longrightarrow> P r \<Longrightarrow> Q"
    and "qs_get P t = Inl MultipleObjectsReturned \<Longrightarrow> 2 \<le> length (filter P t) \<Longrightarrow> Q"
  shows Q
proof (cases "filter P t")
  case Nil
  with assms(1) show ?thesis by (simp add: qs_get_def)
next
  case (Cons r rs)
  then have "r \<in> set (filter P t)" by simp
  then have r: "r \<in> set t" "P r" by simp_all
  with Cons assms(2,3) show ?thesis by (cases rs) (auto simp: qs_get_def)
qed

lemma qs_get_Inr: "qs_get P t = Inr r \<Longrightarrow> r \<in> set t \<and> P r \<and> filter P t = [r]"
  by (cases P t rule: qs_get_cases) auto

lemma qs_get_DoesNotExist: "qs_get P t = Inl DoesNotExist \<longleftrightarrow> (\<forall>r\<in>set t. \<not> P r)"
proof -
  have "qs_get P t = Inl DoesNotExist \<longleftrightarrow> filter P t = []"
    by (simp add: qs_get_def split: list.splits)
  then show ?thesis by (simp add: filter_empty_conv)
qed

lemma qs_get_error: "qs_get P t = Inl e \<Longrightarrow> e = DoesNotExist \<or> e = MultipleObjectsReturned"
  by (cases P t rule: qs_get_cases) auto

lemma qs_exists_iff [simp]: "qs_exists P t \<longleftrightarrow> (\<exists>r\<in>set t. P r)"
  by (simp add: qs_exists_def list_ex_iff)

lemma qs_first_None [simp]: "qs_first ord P t = None \<longleftrightarrow> (\<forall>r\<in>set t. \<not> P r)"
proof -
  have "qs_first ord P t = None \<longleftrightarrow> sort_key ord (filter P t) = []"
    by (simp add: qs_first_def split: list.splits)
  also have "\<dots> \<longleftrightarrow> filter P t = []" by (metis length_0_conv length_sort)
  finally show ?thesis by (simp add: filter_empty_conv)
qed

lemma qs_first_Some: "qs_first ord P t = Some r \<Longrightarrow> r \<in> set t \<and> P r"
proof -
  assume "qs_first ord P t = Some r"
  then obtain rs where "sort_key ord (filter P t) = r # rs"
    by (auto simp: qs_first_def split: list.splits)
  then have "r \<in> set (sort_key ord (filter P t))" by (simp only: list.set_intros)
  then show ?thesis by simp
qed

lemma set_qs_update [simp]: "set (qs_update P f t) = (\<lambda>r. if P r then f r else r) ` set t"
  by (simp add: qs_update_def)

lemma set_qs_delete [simp]: "set (qs_delete P t) = {r \<in> set t. \<not> P r}"
  by (simp add: qs_delete_def)

lemma length_qs_update [simp]: "length (qs_update P f t) = length t"
  by (simp add: qs_update_def)

lemma qs_update_cong:
  "(\<And>r. r \<in> set t \<Longrightarrow> P r \<Longrightarrow> f r = g r) \<Longrightarrow> qs_update P f t = qs_update P g t"
  by (simp add: qs_update_def)

lemma map_qs_update:
  assumes "\<And>r. r \<in> set t \<Longrightarrow> P r \<Longrightarrow> g (f r) = g r"
  shows "map g (qs_update P f t) = map g t"
  using assms by (auto simp: qs_update_def)

lemma distinct_map_delete: "distinct (map g t) \<Longrightarrow> distinct (map g (qs_delete P t))"
  by (simp add: qs_delete_def distinct_map_filter)

lemma filter_qs_update_other:
  assumes "\<And>r. r \<in> set t \<Longrightarrow> P r \<Longrightarrow> \<not> Q r" and "\<And>r. r \<in> set t \<Longrightarrow> P r \<Longrightarrow> \<not> Q (f r)"
  shows "filter Q (qs_update P f t) = filter Q t"
  using assms by (induction t) (auto simp: qs_update_def)

lemma filter_qs_delete_other:
  assumes "\<And>r. r \<in> set t \<Longrightarrow> Q r \<Longrightarrow> \<not> P r"
  shows "filter Q (qs_delete P t) = filter Q t"
  using assms by (induction t) (auto simp: qs_delete_def)

lemma qs_count_zero [simp]: "qs_count P t = 0 \<longleftrightarrow> (\<forall>r\<in>set t. \<not> P r)"
  by (simp add: qs_count_def filter_empty_conv)

lemma length_qs_delete: "length (qs_delete P t) + qs_count P t = length t"
  by (induction t) (auto simp: qs_delete_def qs_count_def)

text \<open>A table that is unique on \<open>key\<close> has at most one row per key: \<open>get\<close> finds it.\<close>

lemma filter_key_unique:
  assumes "distinct (map key t)" and "r \<in> set t"
  shows "filter (\<lambda>x. key x = key r) t = [r]"
  using assms
proof (induction t)
  case (Cons x t)
  show ?case
  proof (cases "x = r")
    case True
    with Cons.prems have "filter (\<lambda>x. key x = key r) t = []"
      by (auto simp: filter_empty_conv image_iff)
    with True show ?thesis by simp
  next
    case False
    with Cons.prems have "key x \<noteq> key r" by (auto simp: image_iff)
    with False Cons show ?thesis by simp
  qed
qed simp

lemma qs_get_key:
  assumes "distinct (map key t)" and "r \<in> set t"
  shows "qs_get (\<lambda>x. key x = key r) t = Inr r"
  using filter_key_unique [OF assms] by (simp add: qs_get_def)

lemma qs_get_key_cases [consumes 1, case_names None One]:
  assumes "distinct (map key t)"
    and "qs_get (\<lambda>x. key x = k) t = Inl DoesNotExist \<Longrightarrow> k \<notin> key ` set t \<Longrightarrow> Q"
    and "\<And>r. qs_get (\<lambda>x. key x = k) t = Inr r \<Longrightarrow> r \<in> set t \<Longrightarrow> key r = k \<Longrightarrow> Q"
  shows Q
proof (cases "k \<in> key ` set t")
  case True
  then obtain r where "r \<in> set t" "key r = k" by auto
  with qs_get_key [OF assms(1), of r] assms(3) show ?thesis by auto
next
  case False
  then show ?thesis by (intro assms(2)) (auto simp: qs_get_DoesNotExist)
qed

text \<open>The same for a condition that rows with different keys do not share.\<close>

lemma qs_get_unique_cases [consumes 2, case_names None One]:
  assumes "distinct (map key t)"
    and "\<And>a b. a \<in> set t \<Longrightarrow> b \<in> set t \<Longrightarrow> P a \<Longrightarrow> P b \<Longrightarrow> key a = key b"
    and "qs_get P t = Inl DoesNotExist \<Longrightarrow> (\<forall>r\<in>set t. \<not> P r) \<Longrightarrow> Q"
    and "\<And>r. qs_get P t = Inr r \<Longrightarrow> r \<in> set t \<Longrightarrow> P r \<Longrightarrow> (\<forall>x\<in>set t. P x \<longleftrightarrow> key x = key r) \<Longrightarrow> Q"
  shows Q
proof (cases "\<exists>r\<in>set t. P r")
  case True
  then obtain r where r: "r \<in> set t" "P r" by blast
  have eq: "P x \<longleftrightarrow> key x = key r" if "x \<in> set t" for x
    using that r assms(1,2) by (metis inj_onD distinct_map)
  have "filter P t = filter (\<lambda>x. key x = key r) t" using eq by (intro filter_cong) auto
  with filter_key_unique [OF assms(1) r(1)] have "qs_get P t = Inr r" by (simp add: qs_get_def)
  with r eq assms(4) show ?thesis by blast
next
  case False
  then show ?thesis by (intro assms(3)) (auto simp: qs_get_DoesNotExist)
qed

subsection \<open>Tables unique on a key\<close>

definition tbl_lookup :: "('r \<Rightarrow> 'k) \<Rightarrow> 'r list \<Rightarrow> 'k \<Rightarrow> 'r option" where
  "tbl_lookup key t k = find (\<lambda>r. key r = k) t"

definition tbl_upsert :: "('r \<Rightarrow> 'k) \<Rightarrow> 'k \<Rightarrow> ('r \<Rightarrow> 'r) \<Rightarrow> 'r \<Rightarrow> 'r list \<Rightarrow> 'r list" where
  "tbl_upsert key k upd new t = snd (update_or_create (\<lambda>r. key r = k) upd new t)"

definition tbl_remove :: "('r \<Rightarrow> 'k) \<Rightarrow> 'k \<Rightarrow> 'r list \<Rightarrow> 'r list" where
  "tbl_remove key k t = qs_delete (\<lambda>r. key r = k) t"

definition tbl_ok :: "('r \<Rightarrow> 'k) \<Rightarrow> 'r list \<Rightarrow> bool" where
  "tbl_ok key t \<longleftrightarrow> distinct (map key t)"

locale keyed_table =
  fixes key :: "'r \<Rightarrow> 'k"
    and lookup :: "'t \<Rightarrow> 'k \<Rightarrow> 'r option"
    and upsert :: "'k \<Rightarrow> ('r \<Rightarrow> 'r) \<Rightarrow> 'r \<Rightarrow> 't \<Rightarrow> 't"
    and remove :: "'k \<Rightarrow> 't \<Rightarrow> 't"
    and invar :: "'t \<Rightarrow> bool"
  assumes lookup_upsert:
      "\<lbrakk>invar t; key new = k; \<And>r. key r = k \<Longrightarrow> key (upd r) = k\<rbrakk> \<Longrightarrow>
        lookup (upsert k upd new t) =
          (lookup t)(k \<mapsto> (case lookup t k of None \<Rightarrow> new | Some r \<Rightarrow> upd r))"
    and lookup_remove: "invar t \<Longrightarrow> lookup (remove k t) = (lookup t)(k := None)"
    and invar_upsert:
      "\<lbrakk>invar t; key new = k; \<And>r. key r = k \<Longrightarrow> key (upd r) = k\<rbrakk> \<Longrightarrow> invar (upsert k upd new t)"
    and invar_remove: "invar t \<Longrightarrow> invar (remove k t)"
    and lookup_key: "lookup t k = Some r \<Longrightarrow> key r = k"
begin

lemma upsert_other:
  "\<lbrakk>invar t; key new = k; \<And>r. key r = k \<Longrightarrow> key (upd r) = k; k' \<noteq> k\<rbrakk> \<Longrightarrow>
    lookup (upsert k upd new t) k' = lookup t k'"
  by (simp add: lookup_upsert)

lemma upsert_present:
  "\<lbrakk>invar t; key new = k; \<And>r. key r = k \<Longrightarrow> key (upd r) = k\<rbrakk> \<Longrightarrow>
    \<exists>r. lookup (upsert k upd new t) k = Some r \<and> key r = k \<and>
      (r = new \<or> (\<exists>r0. lookup t k = Some r0 \<and> r = upd r0))"
  by (auto simp: lookup_upsert split: option.splits dest: lookup_key)

lemma upsert_idem:
  assumes "invar t" "key new = k" "\<And>r. key r = k \<Longrightarrow> key (upd r) = k"
    and "\<And>r. upd (upd r) = upd r" and "upd new = new"
  shows "lookup (upsert k upd new (upsert k upd new t)) = lookup (upsert k upd new t)"
  using assms invar_upsert [OF assms(1-3)]
  by (auto simp: lookup_upsert fun_eq_iff split: option.splits)

lemma remove_upsert:
  "\<lbrakk>invar t; key new = k; \<And>r. key r = k \<Longrightarrow> key (upd r) = k\<rbrakk> \<Longrightarrow>
    lookup (remove k (upsert k upd new t)) = (lookup t)(k := None)"
  by (simp add: lookup_upsert lookup_remove invar_upsert)

lemma remove_other: "\<lbrakk>invar t; k' \<noteq> k\<rbrakk> \<Longrightarrow> lookup (remove k t) k' = lookup t k'"
  by (simp add: lookup_remove)

end

lemma tbl_lookup_Some:
  "tbl_ok key t \<Longrightarrow> tbl_lookup key t k = Some r \<longleftrightarrow> r \<in> set t \<and> key r = k"
proof (induction t)
  case (Cons x t)
  then show ?case by (auto simp: tbl_lookup_def tbl_ok_def image_iff)
qed (simp add: tbl_lookup_def)

lemma tbl_lookup_None: "tbl_lookup key t k = None \<longleftrightarrow> k \<notin> key ` set t"
  by (auto simp: tbl_lookup_def find_None_iff)

lemma find_snoc:
  "find P (xs @ [x]) =
     (case find P xs of None \<Rightarrow> if P x then Some x else None | Some y \<Rightarrow> Some y)"
  by (induction xs) auto

lemma tbl_lookup_count: "tbl_lookup key t k = None \<longleftrightarrow> (\<forall>r\<in>set t. key r \<noteq> k)"
  by (auto simp: tbl_lookup_def find_None_iff)

lemma qs_get_tbl_lookup:
  "tbl_ok key t \<Longrightarrow> qs_get (\<lambda>r. key r = k) t =
     (case tbl_lookup key t k of None \<Rightarrow> Inl DoesNotExist | Some r \<Rightarrow> Inr r)"
proof (cases "tbl_lookup key t k")
  case None
  then have "qs_get (\<lambda>r. key r = k) t = Inl DoesNotExist"
    by (auto simp: tbl_lookup_None qs_get_DoesNotExist)
  with None show ?thesis by simp
next
  case (Some r)
  assume ok: "tbl_ok key t"
  with Some have "r \<in> set t" "key r = k" by (auto simp: tbl_lookup_Some)
  with Some ok show ?thesis by (auto simp: tbl_ok_def dest: qs_get_key)
qed

lemma tbl_lookup_update:
  assumes "\<And>r. P r \<Longrightarrow> key (f r) = key r"
  shows "tbl_lookup key (qs_update P f t) k = map_option (\<lambda>r. if P r then f r else r) (tbl_lookup key t k)"
  using assms by (induction t) (auto simp: tbl_lookup_def qs_update_def)

lemma tbl_ok_update:
  "\<lbrakk>tbl_ok key t; \<And>r. r \<in> set t \<Longrightarrow> P r \<Longrightarrow> key (f r) = key r\<rbrakk> \<Longrightarrow> tbl_ok key (qs_update P f t)"
  by (simp add: tbl_ok_def map_qs_update)

text \<open>Replacing the row of one key keeps another column unique when its new value is free.\<close>

lemma tbl_ok_replace:
  assumes key: "tbl_ok key t" and col: "tbl_ok col t" and new: "key new = k"
    and free: "\<forall>x\<in>set t. key x \<noteq> k \<longrightarrow> col x \<noteq> col new"
  shows "tbl_ok col (qs_update (\<lambda>x. key x = k) (\<lambda>_. new) t)"
proof -
  let ?g = "\<lambda>x. if key x = k then new else x"
  have "inj_on (col \<circ> ?g) (set t)"
  proof (rule inj_onI)
    fix x y assume xy: "x \<in> set t" "y \<in> set t" and eq: "(col \<circ> ?g) x = (col \<circ> ?g) y"
    show "x = y"
    proof (cases "key x = k"; cases "key y = k")
      assume "key x = k" "key y = k"
      with xy key show ?thesis unfolding tbl_ok_def by (metis distinct_map inj_onD)
    next
      assume "key x \<noteq> k" "key y \<noteq> k"
      with eq have "col x = col y" by simp
      with xy col show ?thesis unfolding tbl_ok_def by (metis distinct_map inj_onD)
    next
      assume k: "key x = k" "key y \<noteq> k"
      with eq have "col y = col new" by simp
      with k xy(2) free show ?thesis by blast
    next
      assume k: "key x \<noteq> k" "key y = k"
      with eq have "col x = col new" by simp
      with k xy(1) free show ?thesis by blast
    qed
  qed
  moreover have "distinct t" using col by (simp add: tbl_ok_def distinct_map)
  ultimately show ?thesis by (simp add: tbl_ok_def qs_update_def distinct_map)
qed

lemma tbl_ok_upsert:
  assumes ok: "tbl_ok key t" and "key new = k" and "\<And>r. key r = k \<Longrightarrow> key (upd r) = k"
  shows "tbl_ok key (tbl_upsert key k upd new t)"
  using ok [unfolded tbl_ok_def]
proof (cases rule: qs_get_key_cases [where k = k])
  case None
  with assms show ?thesis by (simp add: tbl_upsert_def update_or_create_def tbl_ok_def)
next
  case (One r)
  have "map key (qs_update (\<lambda>r. key r = k) upd t) = map key t"
    by (rule map_qs_update) (simp add: assms(3))
  with One ok show ?thesis by (simp add: tbl_upsert_def update_or_create_def tbl_ok_def)
qed

lemma tbl_lookup_upsert:
  assumes ok: "tbl_ok key t" and new: "key new = k" and upd: "\<And>r. key r = k \<Longrightarrow> key (upd r) = k"
  shows "tbl_lookup key (tbl_upsert key k upd new t) =
    (tbl_lookup key t)(k \<mapsto> (case tbl_lookup key t k of None \<Rightarrow> new | Some r \<Rightarrow> upd r))"
proof
  fix k'
  note ok' = tbl_ok_upsert [of key t new k upd, OF assms]
  show "tbl_lookup key (tbl_upsert key k upd new t) k' =
    ((tbl_lookup key t)(k \<mapsto> (case tbl_lookup key t k of None \<Rightarrow> new | Some r \<Rightarrow> upd r))) k'"
  proof (cases "tbl_lookup key t k")
    case None
    then have t': "tbl_upsert key k upd new t = t @ [new]"
      using ok by (simp add: tbl_upsert_def update_or_create_def qs_get_tbl_lookup)
    have "tbl_lookup key (t @ [new]) k' =
        (case tbl_lookup key t k' of None \<Rightarrow> if k' = k then Some new else None | Some r \<Rightarrow> Some r)"
      by (induction t) (auto simp: tbl_lookup_def new)
    with None show ?thesis by (auto simp: t' split: option.splits)
  next
    case (Some r)
    then have t': "tbl_upsert key k upd new t = qs_update (\<lambda>r. key r = k) upd t"
      using ok by (simp add: tbl_upsert_def update_or_create_def qs_get_tbl_lookup)
    have "tbl_lookup key (qs_update (\<lambda>r. key r = k) upd t) k' =
        map_option (\<lambda>r. if key r = k then upd r else r) (tbl_lookup key t k')"
      by (induction t) (auto simp: tbl_lookup_def qs_update_def upd)
    moreover have "key a = k'" if "tbl_lookup key t k' = Some a" for a
      using that ok by (simp add: tbl_lookup_Some)
    ultimately show ?thesis
      using Some by (cases "tbl_lookup key t k'") (auto simp: t')
  qed
qed

lemma tbl_lookup_remove:
  "tbl_lookup key (tbl_remove key k t) = (tbl_lookup key t)(k := None)"
  by (induction t) (auto simp: tbl_lookup_def tbl_remove_def qs_delete_def fun_eq_iff)

text \<open>Every list table with a unique key provides the interface.\<close>

lemma list_keyed_table:
  "keyed_table key (tbl_lookup key) (tbl_upsert key) (tbl_remove key) (tbl_ok key)"
proof
  show "key r = k" if "tbl_lookup key t k = Some r" for t k r
    using that by (auto simp: tbl_lookup_def find_Some_iff)
next
  show "tbl_ok key (tbl_remove key k t)" if "tbl_ok key t" for t k
    using that by (simp add: tbl_ok_def tbl_remove_def distinct_map_delete)
qed (simp_all add: tbl_lookup_upsert tbl_ok_upsert tbl_lookup_remove)

subsection \<open>The cache\<close>

text \<open>\<open>cache.get\<close>, \<open>cache.set(key, value, timeout)\<close> and \<open>cache.delete\<close>.\<close>

type_synonym ('k, 'v) cache = "'k \<rightharpoonup> 'v \<times> instant"

definition cache_get :: "instant \<Rightarrow> ('k, 'v) cache \<Rightarrow> 'k \<Rightarrow> 'v option" where
  "cache_get now c k =
     (case c k of None \<Rightarrow> None | Some (v, expiry) \<Rightarrow> if now < expiry then Some v else None)"

definition cache_set :: "instant \<Rightarrow> int \<Rightarrow> 'k \<Rightarrow> 'v \<Rightarrow> ('k, 'v) cache \<Rightarrow> ('k, 'v) cache" where
  "cache_set now timeout k v c = c(k \<mapsto> (v, now + timeout))"

definition cache_delete :: "'k \<Rightarrow> ('k, 'v) cache \<Rightarrow> ('k, 'v) cache" where
  "cache_delete k c = c(k := None)"

locale timed_cache =
  fixes get :: "instant \<Rightarrow> 'c \<Rightarrow> 'k \<Rightarrow> 'v option"
    and set :: "instant \<Rightarrow> int \<Rightarrow> 'k \<Rightarrow> 'v \<Rightarrow> 'c \<Rightarrow> 'c"
    and delete :: "'k \<Rightarrow> 'c \<Rightarrow> 'c"
  assumes get_set:
      "get t' (set t ttl k v c) k' =
         (if k' = k then if t' < t + ttl then Some v else None else get t' c k')"
    and get_delete: "get t' (delete k c) k' = (if k' = k then None else get t' c k')"
    and get_expires: "\<lbrakk>t \<le> t'; get t' c k = Some v\<rbrakk> \<Longrightarrow> get t c k = Some v"
begin

lemma get_set_fresh: "t' < t + ttl \<Longrightarrow> get t' (set t ttl k v c) k = Some v"
  by (simp add: get_set)

lemma get_set_expired: "t + ttl \<le> t' \<Longrightarrow> get t' (set t ttl k v c) k = None"
  by (simp add: get_set)

lemma get_set_other: "k' \<noteq> k \<Longrightarrow> get t' (set t ttl k v c) k' = get t' c k'"
  by (simp add: get_set)

lemma miss_stays: "\<lbrakk>t \<le> t'; get t c k = None\<rbrakk> \<Longrightarrow> get t' c k = None"
  using get_expires by (metis not_None_eq)

lemma get_delete_same [simp]: "get t (delete k c) k = None"
  by (simp add: get_delete)

end

interpretation django_cache: timed_cache cache_get cache_set cache_delete
  by unfold_locales
    (auto simp: cache_get_def cache_set_def cache_delete_def split: option.splits if_splits)

subsection \<open>Invariants of machines\<close>

locale preserved =
  fixes step :: "'s \<Rightarrow> 'e \<Rightarrow> 's" and admits :: "'s \<Rightarrow> 'e \<Rightarrow> bool" and inv :: "'s \<Rightarrow> bool"
  assumes inv_step: "\<lbrakk>inv s; admits s e\<rbrakk> \<Longrightarrow> inv (step s e)"
begin

fun admitted :: "'s \<Rightarrow> 'e list \<Rightarrow> bool" where
  "admitted s [] = True"
| "admitted s (e # es) = (admits s e \<and> admitted (step s e) es)"

lemma inv_run: "\<lbrakk>inv s; admitted s es\<rbrakk> \<Longrightarrow> inv (foldl step s es)"
  by (induction es arbitrary: s) (auto intro: inv_step)

end

end
