(* ===== verification/Schema.thy ===== *)
theory Schema
  imports Store
begin

text \<open>
  The data of the program: one record per Django model, the messages put on the Celery
  queue, the HTTP request and response, and the database, a record with one table per
  model. Foreign keys hold the referenced primary key. Columns of
  \<open>django.contrib.auth.User\<close> are those the repository reads or writes.
\<close>

subsection \<open>Users and tenants\<close>

record user =
  us_pk :: pk
  us_username :: string
  us_email :: string
  us_first_name :: string
  us_last_name :: string
  us_password :: string
  us_is_active :: bool
  us_is_superuser :: bool

record user_profile =
  pf_user :: pk
  pf_avatar :: "string option"
  pf_bio :: string
  pf_phone :: string
  pf_timezone :: string
  pf_updated_at :: instant

record user_totp =
  tp_id :: uuid
  tp_user :: pk
  tp_secret :: string
  tp_is_enabled :: bool
  tp_backup_codes :: "string list"
  tp_created_at :: instant
  tp_updated_at :: instant

record tenant =
  tn_id :: uuid
  tn_name :: string
  tn_slug :: string
  tn_schema_name :: string
  tn_is_active :: bool
  tn_created_at :: instant
  tn_updated_at :: instant

record domain =
  dm_id :: uuid
  dm_tenant :: uuid
  dm_domain :: string
  dm_is_primary :: bool

subsection \<open>Roles\<close>

datatype role_choice = OWNER | ADMIN | MEMBER

fun role_value :: "role_choice \<Rightarrow> string" where
  "role_value OWNER = ''owner''"
| "role_value ADMIN = ''admin''"
| "role_value MEMBER = ''member''"

definition RoleChoices_values :: "string list" where
  "RoleChoices_values = map role_value [OWNER, ADMIN, MEMBER]"

fun ROLE_HIERARCHY :: "role_choice \<Rightarrow> nat" where
  "ROLE_HIERARCHY OWNER = 3"
| "ROLE_HIERARCHY ADMIN = 2"
| "ROLE_HIERARCHY MEMBER = 1"

text \<open>The hierarchy orders the roles: higher means more privileged.\<close>

instantiation role_choice :: linorder
begin

definition less_eq_role_choice :: "role_choice \<Rightarrow> role_choice \<Rightarrow> bool" where
  "less_eq_role_choice a b \<longleftrightarrow> ROLE_HIERARCHY a \<le> ROLE_HIERARCHY b"

definition less_role_choice :: "role_choice \<Rightarrow> role_choice \<Rightarrow> bool" where
  "less_role_choice a b \<longleftrightarrow> ROLE_HIERARCHY a < ROLE_HIERARCHY b"

instance
proof
  fix a b c :: role_choice
  show "(a < b) = (a \<le> b \<and> \<not> b \<le> a)"
    by (auto simp: less_eq_role_choice_def less_role_choice_def)
  show "a \<le> a" by (simp add: less_eq_role_choice_def)
  show "a \<le> b \<Longrightarrow> b \<le> c \<Longrightarrow> a \<le> c" by (simp add: less_eq_role_choice_def)
  show "a \<le> b \<Longrightarrow> b \<le> a \<Longrightarrow> a = b"
    by (cases a; cases b) (auto simp: less_eq_role_choice_def)
  show "a \<le> b \<or> b \<le> a" by (auto simp: less_eq_role_choice_def)
qed

end

record user_tenant_role =
  ur_id :: uuid
  ur_user :: pk
  ur_tenant :: uuid
  ur_role :: string
  ur_assigned_by :: "pk option"
  ur_created_at :: instant

subsection \<open>Invitations\<close>

datatype invitation_status = PENDING | ACCEPTED | REVOKED | EXPIRED

record tenant_invitation =
  iv_id :: uuid
  iv_tenant :: uuid
  iv_email :: string
  iv_role :: string
  iv_token :: string
  iv_status :: invitation_status
  iv_invited_by :: "pk option"
  iv_accepted_by :: "pk option"
  iv_expires_at :: instant
  iv_created_at :: instant

subsection \<open>Billing\<close>

record plan =
  pl_pk :: pk
  pl_slug :: string
  pl_name :: string
  pl_stripe_price_id :: string
  pl_max_members :: nat
  pl_max_storage_mb :: nat
  pl_is_active :: bool

record subscription =
  sb_id :: uuid
  sb_tenant :: uuid
  sb_plan :: "pk option"
  sb_stripe_customer_id :: string
  sb_stripe_subscription_id :: "string option"
  sb_stripe_price_id :: string
  sb_status :: string
  sb_current_period_start :: "instant option"
  sb_current_period_end :: "instant option"
  sb_grace_period_end :: "instant option"
  sb_cancel_at_period_end :: bool
  sb_trial_end :: "instant option"
  sb_created_at :: instant
  sb_updated_at :: instant

text \<open>
  The \<open>object\<close> of a Stripe event, with the types of Stripe's API; \<open>None\<close> is a key that
  is absent. An item of \<open>items.data\<close> is the \<open>id\<close> of its \<open>price\<close>, each optional.
\<close>

record stripe_object =
  so_id :: "string option"
  so_customer :: "string option"
  so_status :: "string option"
  so_subscription :: "string option"
  so_items_data :: "string option option list option"
  so_cancel_at_period_end :: "bool option"
  so_current_period_start :: "int option"
  so_current_period_end :: "int option"
  so_trial_end :: "int option"

record webhook_event =
  we_stripe_event_id :: string
  we_event_type :: string
  we_processed_at :: instant
  we_payload :: stripe_object

subsection \<open>Feature flags, notifications, audit log, tokens\<close>

record tenant_feature_flag =
  ff_tenant :: uuid
  ff_flag_name :: string
  ff_is_enabled :: bool
  ff_source :: string
  ff_note :: string
  ff_created_at :: instant
  ff_updated_at :: instant

record notification =
  nt_id :: uuid
  nt_user :: pk
  nt_title :: string
  nt_body :: string
  nt_is_read :: bool
  nt_created_at :: instant

record audit_log =
  al_tenant :: "uuid option"
  al_actor :: "pk option"
  al_actor_email :: string
  al_action :: string
  al_resource_type :: string
  al_resource_id :: string
  al_metadata :: "(string \<times> string) list"
  al_ip_address :: "string option"
  al_user_agent :: string
  al_timestamp :: instant

text \<open>A row of the JWT library's table of issued refresh tokens, and whether the blacklist table
  has a row for it (its foreign key cascades).\<close>

record outstanding_token =
  ot_jti :: string
  ot_user :: "pk option"
  ot_blacklisted :: bool

subsection \<open>Queue and database\<close>

datatype celery_task =
    Handle_stripe_event string string stripe_object
  | Send_dunning_email uuid
  | Send_welcome_email pk
  | Send_invitation_email string string string string string
  | Send_password_reset_email string string string string string int

text \<open>
  \<open>audit_up\<close> says whether an insert into the audit table succeeds, \<open>broker_up\<close> whether
  the Celery broker accepts a message (\<open>.delay\<close> raises otherwise), \<open>next_user_pk\<close> is
  the sequence behind the integer primary key of users.
\<close>

record db =
  users :: "user list"
  profiles :: "user_profile list"
  totps :: "user_totp list"
  tenants :: "tenant list"
  domains :: "domain list"
  roles :: "user_tenant_role list"
  invitations :: "tenant_invitation list"
  plans :: "plan list"
  subscriptions :: "subscription list"
  webhook_events :: "webhook_event list"
  feature_flags :: "tenant_feature_flag list"
  notifications :: "notification list"
  audit_logs :: "audit_log list"
  outstanding_tokens :: "outstanding_token list"
  queue :: "celery_task list"
  next_user_pk :: pk
  audit_up :: bool
  broker_up :: bool

definition empty_db :: db where
  "empty_db = \<lparr>users = [], profiles = [], totps = [], tenants = [], domains = [], roles = [],
     invitations = [], plans = [], subscriptions = [], webhook_events = [], feature_flags = [],
     notifications = [], audit_logs = [], outstanding_tokens = [], queue = [],
     next_user_pk = 1, audit_up = True, broker_up = True\<rparr>"

text \<open>\<open>task.delay(...)\<close>: the message is queued, or the broker raises.\<close>

definition delay :: "celery_task \<Rightarrow> (db, unit) op" where
  "delay t s = (if broker_up s then (Inr (), s\<lparr>queue := queue s @ [t]\<rparr>) else (Inl BrokerError, s))"

text \<open>
  The process around the database: the Django cache and the tenant of the current context.
  The three users of the cache store values of different types under keys with different
  prefixes (\<open>tenant:domain:\<close>, \<open>2fa_pre_auth:\<close>, \<open>celery:idempotent:\<close>), so each has a typed
  cache here; in the first, \<open>None\<close> is the "no such tenant" sentinel.
\<close>

record site =
  site_db :: db
  tenant_cache :: "(string, tenant option) cache"
  session_cache :: "(string, pk) cache"
  result_cache :: "(string, string) cache"
  tenant_ctx :: "uuid option"

subsection \<open>Requests and responses\<close>

text \<open>
  \<open>rq_headers\<close> is \<open>request.headers\<close>, \<open>rq_META\<close> is \<open>request.META\<close>; \<open>rq_user\<close> is
  \<open>None\<close> for an anonymous caller; \<open>rq_tenant\<close> is what \<open>TenantMiddleware\<close> attached.
\<close>

record request =
  rq_path :: string
  rq_host :: string
  rq_headers :: "string \<Rightarrow> string option"
  rq_META :: "string \<Rightarrow> string option"
  rq_user :: "user option"
  rq_tenant :: "tenant option"

text \<open>A response with a body, one with only an error text, or an uncaught exception.\<close>

datatype 'a response = Response nat 'a | Detail nat string | Uncaught exn

fun status_code :: "'a response \<Rightarrow> nat" where
  "status_code (Response n _) = n"
| "status_code (Detail n _) = n"
| "status_code (Uncaught _) = 500"

definition full_name :: "user \<Rightarrow> string" where
  "full_name u = py_strip (us_first_name u @ '' '' @ us_last_name u)"

text \<open>\<open>getattr(user, "totp", None)\<close>, \<open>tenant.subscription\<close> and \<open>sub.plan\<close>: one-to-one and
  foreign-key accessors.\<close>

definition user_of :: "db \<Rightarrow> pk \<Rightarrow> user option" where
  "user_of s p = find (\<lambda>u. us_pk u = p) (users s)"

definition totp_of :: "db \<Rightarrow> pk \<Rightarrow> user_totp option" where
  "totp_of s p = find (\<lambda>t. tp_user t = p) (totps s)"

definition tenant_of :: "db \<Rightarrow> uuid \<Rightarrow> tenant option" where
  "tenant_of s t = find (\<lambda>x. tn_id x = t) (tenants s)"

definition subscription_of :: "db \<Rightarrow> uuid \<Rightarrow> subscription option" where
  "subscription_of s t = find (\<lambda>x. sb_tenant x = t) (subscriptions s)"

definition plan_of :: "db \<Rightarrow> pk \<Rightarrow> plan option" where
  "plan_of s p = find (\<lambda>x. pl_pk x = p) (plans s)"

end
