(* ===== verification/Samples.thy ===== *)
theory Samples
  imports Schema
begin

text \<open>
  Concrete rows, databases and requests at which the witnesses evaluate the properties: two
  tenants with a domain each, and two users.
\<close>

definition alice :: user where
  "alice = \<lparr>us_pk = 1, us_username = ''alice'', us_email = ''alice@acme.test'',
     us_first_name = ''Alice'', us_last_name = ''Ames'', us_password = ''pw1'',
     us_is_active = True, us_is_superuser = False\<rparr>"

definition bob :: user where
  "bob = \<lparr>us_pk = 2, us_username = ''bob'', us_email = ''bob@acme.test'',
     us_first_name = ''Bob'', us_last_name = [], us_password = ''pw2'',
     us_is_active = True, us_is_superuser = False\<rparr>"

definition demo_tenant :: tenant where
  "demo_tenant = \<lparr>tn_id = ''t1'', tn_name = ''Acme'', tn_slug = ''acme'', tn_schema_name = ''acme'',
     tn_is_active = True, tn_created_at = 0, tn_updated_at = 0\<rparr>"

definition other_tenant :: tenant where
  "other_tenant = \<lparr>tn_id = ''t2'', tn_name = ''Beta'', tn_slug = ''beta'', tn_schema_name = ''beta'',
     tn_is_active = True, tn_created_at = 0, tn_updated_at = 0\<rparr>"

definition demo_domain :: domain where
  "demo_domain = \<lparr>dm_id = ''d1'', dm_tenant = ''t1'', dm_domain = ''acme.localhost'', dm_is_primary = True\<rparr>"

definition other_domain :: domain where
  "other_domain = \<lparr>dm_id = ''d2'', dm_tenant = ''t2'', dm_domain = ''beta.localhost'', dm_is_primary = True\<rparr>"

definition member_row :: "pk \<Rightarrow> uuid \<Rightarrow> string \<Rightarrow> user_tenant_role" where
  "member_row p t role = \<lparr>ur_id = ''r'' @ str_nat p, ur_user = p, ur_tenant = t, ur_role = role,
     ur_assigned_by = None, ur_created_at = 0\<rparr>"

definition sub_row :: "uuid \<Rightarrow> pk option \<Rightarrow> string \<Rightarrow> subscription" where
  "sub_row t p status = \<lparr>sb_id = ''s'' @ t, sb_tenant = t, sb_plan = p, sb_stripe_customer_id = ''cus_'' @ t,
     sb_stripe_subscription_id = Some (''sub_'' @ t), sb_stripe_price_id = [], sb_status = status,
     sb_current_period_start = None, sb_current_period_end = None, sb_grace_period_end = None,
     sb_cancel_at_period_end = False, sb_trial_end = None, sb_created_at = 0, sb_updated_at = 0\<rparr>"

definition pro_plan :: plan where
  "pro_plan = \<lparr>pl_pk = 1, pl_slug = ''pro'', pl_name = ''Pro'', pl_stripe_price_id = [],
     pl_max_members = 5, pl_max_storage_mb = 0, pl_is_active = True\<rparr>"

text \<open>Both tenants and both users, nobody has a role.\<close>

definition demo_db :: db where
  "demo_db = empty_db\<lparr>users := [alice, bob], tenants := [demo_tenant, other_tenant],
     domains := [demo_domain, other_domain], next_user_pk := 3\<rparr>"

definition demo_site :: "db \<Rightarrow> site" where
  "demo_site s = \<lparr>site_db = s, tenant_cache = Map.empty, session_cache = Map.empty,
     result_cache = Map.empty, tenant_ctx = None\<rparr>"

definition demo_request :: request where
  "demo_request = \<lparr>rq_path = ''/api/v1/users/'', rq_host = ''acme.localhost:8000'',
     rq_headers = Map.empty, rq_META = Map.empty, rq_user = None, rq_tenant = None\<rparr>"

lemma alice_simps [simp]:
  "us_pk alice = 1" "us_email alice = ''alice@acme.test''" "us_username alice = ''alice''"
  "us_is_superuser alice = False" "us_is_active alice = True" "us_password alice = ''pw1''"
  "us_first_name alice = ''Alice''" "us_last_name alice = ''Ames''"
  by (simp_all add: alice_def)

lemma bob_simps [simp]:
  "us_pk bob = 2" "us_email bob = ''bob@acme.test''" "us_username bob = ''bob''"
  "us_is_superuser bob = False" "us_is_active bob = True" "us_password bob = ''pw2''"
  "us_first_name bob = ''Bob''" "us_last_name bob = []"
  by (simp_all add: bob_def)

lemma tenant_simps [simp]:
  "tn_id demo_tenant = ''t1''" "tn_name demo_tenant = ''Acme''" "tn_slug demo_tenant = ''acme''"
  "tn_schema_name demo_tenant = ''acme''" "tn_is_active demo_tenant = True"
  "tn_id other_tenant = ''t2''" "tn_name other_tenant = ''Beta''" "tn_slug other_tenant = ''beta''"
  "tn_schema_name other_tenant = ''beta''" "tn_is_active other_tenant = True"
  by (simp_all add: demo_tenant_def other_tenant_def)

lemma domain_simps [simp]:
  "dm_id demo_domain = ''d1''" "dm_tenant demo_domain = ''t1''" "dm_domain demo_domain = ''acme.localhost''"
  "dm_id other_domain = ''d2''" "dm_tenant other_domain = ''t2''" "dm_domain other_domain = ''beta.localhost''"
  by (simp_all add: demo_domain_def other_domain_def)

lemma member_row_simps [simp]:
  "ur_user (member_row p t x) = p" "ur_tenant (member_row p t x) = t" "ur_role (member_row p t x) = x"
  "ur_id (member_row p t x) = ''r'' @ str_nat p" "ur_created_at (member_row p t x) = 0"
  by (simp_all add: member_row_def)

lemma sub_row_simps [simp]:
  "sb_id (sub_row t p st) = ''s'' @ t" "sb_tenant (sub_row t p st) = t" "sb_plan (sub_row t p st) = p"
  "sb_stripe_customer_id (sub_row t p st) = ''cus_'' @ t"
  "sb_stripe_subscription_id (sub_row t p st) = Some (''sub_'' @ t)"
  "sb_status (sub_row t p st) = st" "sb_grace_period_end (sub_row t p st) = None"
  by (simp_all add: sub_row_def)

lemma pro_plan_simps [simp]:
  "pl_pk pro_plan = 1" "pl_slug pro_plan = ''pro''" "pl_max_members pro_plan = 5" "pl_name pro_plan = ''Pro''"
  by (simp_all add: pro_plan_def)

lemma demo_db_simps [simp]:
  "users demo_db = [alice, bob]" "tenants demo_db = [demo_tenant, other_tenant]"
  "domains demo_db = [demo_domain, other_domain]" "roles demo_db = []" "invitations demo_db = []"
  "plans demo_db = []" "subscriptions demo_db = []" "webhook_events demo_db = []"
  "feature_flags demo_db = []" "notifications demo_db = []" "audit_logs demo_db = []"
  "outstanding_tokens demo_db = []" "queue demo_db = []" "next_user_pk demo_db = 3"
  "audit_up demo_db = True" "broker_up demo_db = True" "profiles demo_db = []" "totps demo_db = []"
  by (simp_all add: demo_db_def empty_db_def)

lemma demo_site_simps [simp]:
  "site_db (demo_site s) = s" "tenant_cache (demo_site s) = Map.empty"
  "session_cache (demo_site s) = Map.empty" "result_cache (demo_site s) = Map.empty"
  "tenant_ctx (demo_site s) = None"
  by (simp_all add: demo_site_def)

lemma demo_request_simps [simp]:
  "rq_path demo_request = ''/api/v1/users/''" "rq_host demo_request = ''acme.localhost:8000''"
  "rq_headers demo_request = Map.empty" "rq_META demo_request = Map.empty"
  "rq_user demo_request = None" "rq_tenant demo_request = None"
  by (simp_all add: demo_request_def)

end
