(* ===== verification/Tenancy.thy ===== *)
theory Tenancy
  imports Samples
begin

text \<open>
  \<open>services/tenant_context.py\<close>, \<open>services/tenants/tenant_service.py\<close> and
  \<open>apps/tenants/middleware.py\<close>: the tenant of the current context, the slug rules and the
  creation of a tenant with its domain, and the middleware that resolves the tenant of a
  request from its host name through the cache.
\<close>

subsection \<open>Tenant context\<close>

definition set_tenant_id :: "uuid option \<Rightarrow> site \<Rightarrow> site" where
  "set_tenant_id t st = st\<lparr>tenant_ctx := t\<rparr>"

definition get_tenant_id :: "site \<Rightarrow> uuid option" where
  "get_tenant_id st = tenant_ctx st"

definition clear_tenant :: "site \<Rightarrow> site" where
  "clear_tenant st = st\<lparr>tenant_ctx := None\<rparr>"

subsection \<open>Slugs\<close>

definition slug_char :: "char \<Rightarrow> bool" where
  "slug_char c =
     (let n = (of_char c :: nat) in (97 \<le> n \<and> n \<le> 122) \<or> (48 \<le> n \<and> n \<le> 57))"

text \<open>
  The automaton of \<open>[a-z0-9]+(?:-[a-z0-9]+)*\<close>; the flag says whether the current word has a
  character. \<open>$\<close> in Python also matches before a final newline.
\<close>

fun slug_from :: "bool \<Rightarrow> string \<Rightarrow> bool" where
  "slug_from in_word [] = in_word"
| "slug_from in_word (c # cs) =
     (if slug_char c then slug_from True cs
      else c = CHR ''-'' \<and> in_word \<and> slug_from False cs)"

definition SLUG_PATTERN :: "string \<Rightarrow> bool" where
  "SLUG_PATTERN s \<longleftrightarrow>
     slug_from False s \<or> (s \<noteq> [] \<and> last s = CHR 0x0A \<and> slug_from False (butlast s))"

definition normalize_slug :: "string \<Rightarrow> exn + string" where
  "normalize_slug slug =
     (let normalized = replace_char (CHR '' '') (CHR ''-'') (py_lower (py_strip slug))
      in if normalized = [] then Inl (ValidationServiceError ''Tenant slug cannot be empty.'')
         else Inr normalized)"

definition validate_slug :: "string \<Rightarrow> exn + string" where
  "validate_slug slug =
     (case normalize_slug slug of
        Inl e \<Rightarrow> Inl e
      | Inr n \<Rightarrow>
          if \<not> SLUG_PATTERN n
          then Inl (ValidationServiceError
                 ''Slug may only contain lowercase letters, numbers, and hyphens.'')
          else Inr n)"

subsection \<open>Tenant creation\<close>

text \<open>\<open>objects.create\<close> on tables with unique columns.\<close>

definition insert_tenant :: "tenant \<Rightarrow> (db, tenant) op" where
  "insert_tenant t s =
     (if qs_exists (\<lambda>x. tn_id x = tn_id t \<or> tn_slug x = tn_slug t \<or> tn_schema_name x = tn_schema_name t)
           (tenants s)
      then (Inl IntegrityError, s) else (Inr t, s\<lparr>tenants := tenants s @ [t]\<rparr>))"

definition insert_domain :: "domain \<Rightarrow> (db, domain) op" where
  "insert_domain d s =
     (if qs_exists (\<lambda>x. dm_id x = dm_id d \<or> dm_domain x = dm_domain d) (domains s)
      then (Inl IntegrityError, s) else (Inr d, s\<lparr>domains := domains s @ [d]\<rparr>))"

definition create_tenant ::
  "instant \<Rightarrow> uuid \<Rightarrow> uuid \<Rightarrow> string \<Rightarrow> string \<Rightarrow> string \<Rightarrow> bool \<Rightarrow> (db, tenant \<times> domain) op" where
  "create_tenant now tenant_id domain_id name schema_name domain is_primary s =
     (case validate_slug schema_name of
        Inl e \<Rightarrow> (Inl e, s)
      | Inr schema \<Rightarrow>
          let host = py_lower (py_strip domain)
          in if host = [] then (Inl (ValidationServiceError ''Domain cannot be empty.''), s)
             else if qs_exists (\<lambda>t. tn_schema_name t = schema) (tenants s)
             then (Inl (ConflictServiceError (''schema_name '' @ [CHR 0x27] @ schema @ [CHR 0x27]
                     @ '' is already taken.'')), s)
             else if qs_exists (\<lambda>d. dm_domain d = host) (domains s)
             then (Inl (ConflictServiceError (''Domain '' @ [CHR 0x27] @ host @ [CHR 0x27]
                     @ '' is already registered.'')), s)
             else atomic (\<lambda>s.
               case insert_tenant \<lparr>tn_id = tenant_id, tn_name = py_strip name, tn_slug = schema,
                      tn_schema_name = schema, tn_is_active = True, tn_created_at = now,
                      tn_updated_at = now\<rparr> s of
                 (Inl e, s1) \<Rightarrow> (Inl e, s1)
               | (Inr t, s1) \<Rightarrow>
                   (case insert_domain \<lparr>dm_id = domain_id, dm_tenant = tn_id t, dm_domain = host,
                           dm_is_primary = is_primary\<rparr> s1 of
                      (Inl e, s2) \<Rightarrow> (Inl e, s2)
                    | (Inr d, s2) \<Rightarrow> (Inr (t, d), s2))) s)"

subsection \<open>Middleware\<close>

definition EXEMPT_PREFIXES :: "string list" where
  "EXEMPT_PREFIXES = [''/admin/'', ''/health/'', ''/ready/'', ''/api/schema/'', ''/api/docs/'',
     ''/api/redoc/'', ''/static/'']"

definition TENANT_CACHE_TTL :: int where "TENANT_CACHE_TTL = 300"
definition NEGATIVE_CACHE_TTL :: int where "NEGATIVE_CACHE_TTL = 60"

definition tenant_cache_key :: "string \<Rightarrow> string" where
  "tenant_cache_key host = ''tenant:domain:'' @ host"

text \<open>\<open>Domain.objects.select_related("tenant").get(domain=host)\<close>, as the tenant it joins.\<close>

definition domain_tenant :: "string \<Rightarrow> db \<Rightarrow> exn + tenant" where
  "domain_tenant host s =
     (case qs_get (\<lambda>d. dm_domain d = host \<and> tenant_of s (dm_tenant d) \<noteq> None) (domains s) of
        Inl e \<Rightarrow> Inl e
      | Inr d \<Rightarrow> (case tenant_of s (dm_tenant d) of None \<Rightarrow> Inl DoesNotExist | Some t \<Rightarrow> Inr t))"

definition resolve_tenant :: "instant \<Rightarrow> string \<Rightarrow> (site, tenant option) op" where
  "resolve_tenant now host st =
     (let key = tenant_cache_key host
      in case cache_get now (tenant_cache st) key of
           Some None \<Rightarrow> (Inr None, st)
         | Some (Some t) \<Rightarrow> (Inr (Some t), st)
         | None \<Rightarrow>
             (case domain_tenant host (site_db st) of
                Inr t \<Rightarrow>
                  (Inr (Some t),
                   st\<lparr>tenant_cache := cache_set now TENANT_CACHE_TTL key (Some t) (tenant_cache st)\<rparr>)
              | Inl e \<Rightarrow>
                  if e = DoesNotExist
                  then (Inr None,
                        st\<lparr>tenant_cache := cache_set now NEGATIVE_CACHE_TTL key None (tenant_cache st)\<rparr>)
                  else (Inl e, st)))"

definition invalidate_cache :: "string \<Rightarrow> site \<Rightarrow> site" where
  "invalidate_cache host st =
     st\<lparr>tenant_cache := cache_delete (tenant_cache_key host) (tenant_cache st)\<rparr>"

text \<open>
  \<open>get_response\<close> is the rest of the middleware chain; \<open>Inl\<close> is an exception it lets
  through. \<open>clear_tenant()\<close> runs only when it returns.
\<close>

definition TenantMiddleware_call ::
  "instant \<Rightarrow> (request \<Rightarrow> (site, 'a response) op) \<Rightarrow> request \<Rightarrow> (site, 'a response) op" where
  "TenantMiddleware_call now get_response rq st =
     (if list_ex (starts_with (rq_path rq)) EXEMPT_PREFIXES
      then get_response (rq\<lparr>rq_tenant := None\<rparr>) (clear_tenant st)
      else
        case resolve_tenant now (split_head (CHR '':'') (rq_host rq)) st of
          (Inl e, st1) \<Rightarrow> (Inl e, st1)
        | (Inr None, st1) \<Rightarrow> (Inr (Detail 404 ''Tenant not found.''), st1)
        | (Inr (Some t), st1) \<Rightarrow>
            if \<not> tn_is_active t then (Inr (Detail 403 ''This tenant is inactive.''), st1)
            else
              (case get_response (rq\<lparr>rq_tenant := Some t\<rparr>) (set_tenant_id (Some (tn_id t)) st1) of
                 (Inl e, st2) \<Rightarrow> (Inl e, st2)
               | (Inr r, st2) \<Rightarrow> (Inr r, clear_tenant st2)))"

subsection \<open>The slug language\<close>

inductive slug_lang :: "string \<Rightarrow> bool" where
  word: "\<lbrakk>w \<noteq> []; list_all slug_char w\<rbrakk> \<Longrightarrow> slug_lang w"
| dash: "\<lbrakk>w \<noteq> []; list_all slug_char w; slug_lang v\<rbrakk> \<Longrightarrow> slug_lang (w @ CHR ''-'' # v)"

lemma slug_char_dash [simp]: "\<not> slug_char (CHR ''-'')"
  by (simp add: slug_char_def)

lemma slug_char_newline [simp]: "\<not> slug_char (CHR 0x0A)"
  by (simp add: slug_char_def)

lemma slug_char_blank [simp]: "\<not> slug_char (CHR '' '')"
  by (simp add: slug_char_def)

lemma slug_from_word:
  "list_all slug_char w \<Longrightarrow>
     slug_from b (w @ r) = (if w = [] then slug_from b r else slug_from True r)"
  by (induction w arbitrary: b) auto

lemma slug_lang_accepted: "slug_lang s \<Longrightarrow> slug_from False s"
proof (induction rule: slug_lang.induct)
  case (word w)
  then show ?case using slug_from_word [of w False "[]"] by simp
next
  case (dash w v)
  then show ?case by (simp add: slug_from_word)
qed

lemma slug_from_True_split:
  "slug_from True s \<Longrightarrow>
     \<exists>w v. list_all slug_char w \<and> (s = w \<or> (s = w @ CHR ''-'' # v \<and> slug_from False v))"
proof (induction s)
  case (Cons c cs)
  show ?case
  proof (cases "slug_char c")
    case True
    with Cons obtain w v where w: "list_all slug_char w"
      and "cs = w \<or> (cs = w @ CHR ''-'' # v \<and> slug_from False v)" by auto
    with True have "list_all slug_char (c # w)"
      and "c # cs = c # w \<or> (c # cs = (c # w) @ CHR ''-'' # v \<and> slug_from False v)" by auto
    then show ?thesis by blast
  next
    case False
    with Cons.prems have "c # cs = [] @ CHR ''-'' # cs \<and> slug_from False cs" by simp
    moreover have "list_all slug_char []" by simp
    ultimately show ?thesis by blast
  qed
qed simp

lemma accepted_slug_lang: "slug_from False s \<Longrightarrow> slug_lang s"
proof (induction s rule: length_induct)
  case (1 s)
  then obtain c cs where s: "s = c # cs" and c: "slug_char c" and cs: "slug_from True cs"
    by (cases s) (auto split: if_splits)
  from slug_from_True_split [OF cs] obtain w v where w: "list_all slug_char w"
    and "cs = w \<or> (cs = w @ CHR ''-'' # v \<and> slug_from False v)" by blast
  then consider "s = c # w" | "s = (c # w) @ CHR ''-'' # v" "slug_from False v" using s by auto
  then show ?case
  proof cases
    case 1
    with c w show ?thesis by (auto intro: slug_lang.word)
  next
    case 2
    with "1" have "slug_lang v" by auto
    with 2 c w show ?thesis by (simp only:) (rule slug_lang.dash, auto)
  qed
qed

lemma slug_from_iff: "slug_from False s \<longleftrightarrow> slug_lang s"
  using slug_lang_accepted accepted_slug_lang by blast

lemma slug_lang_chars: "slug_lang s \<Longrightarrow> s \<noteq> [] \<and> (\<forall>c\<in>set s. slug_char c \<or> c = CHR ''-'')"
  by (induction rule: slug_lang.induct) (auto simp: list_all_iff)

lemma slug_lang_ends: "slug_lang s \<Longrightarrow> slug_char (hd s) \<and> slug_char (last s)"
  by (induction rule: slug_lang.induct)
    (auto simp: list_all_iff hd_append dest: slug_lang_chars)

text \<open>Stripping, lower-casing and replacing spaces do nothing to a slug.\<close>

lemma slug_char_not_space: "slug_char c \<Longrightarrow> \<not> py_isspace c"
  by (auto simp: slug_char_def py_isspace_def Let_def)

lemma slug_char_lower: "slug_char c \<or> c = CHR ''-'' \<Longrightarrow> py_lower_char c = c"
  by (auto simp: slug_char_def py_lower_char_def Let_def)

lemma normalize_slug_lang:
  assumes "slug_lang s"
  shows "normalize_slug s = Inr s"
proof -
  note chars = slug_lang_chars [OF assms]
  have "py_strip s = s"
    unfolding py_strip_def
    by (rule strip_by_fixed) (use slug_lang_ends [OF assms] slug_char_not_space in blast)
  moreover have "py_lower s = s"
    using chars by (auto simp: py_lower_def slug_char_lower intro!: map_idI)
  moreover have "replace_char (CHR '' '') (CHR ''-'') s = s"
    using chars by (force simp: replace_char_def intro!: map_idI dest: bspec)
  ultimately show ?thesis using chars by (simp add: normalize_slug_def)
qed

lemma replace_char_last:
  "s \<noteq> [] \<Longrightarrow> last (replace_char a b s) = (if last s = a then b else last s)"
  by (simp add: replace_char_def last_map)

text \<open>A normalised slug has no final newline, so \<open>$\<close> means the end of the string.\<close>

lemma normalized_no_final_newline:
  assumes "normalize_slug x = Inr n"
  shows "last n \<noteq> CHR 0x0A"
proof -
  let ?t = "py_lower (py_strip x)"
  from assms have n: "n = replace_char (CHR '' '') (CHR ''-'') ?t" and "n \<noteq> []"
    by (auto simp: normalize_slug_def Let_def split: if_splits)
  then have t: "?t \<noteq> []" by (auto simp: replace_char_def)
  then have "py_strip (py_lower x) \<noteq> []" by (simp add: py_strip_lower)
  then have "\<not> py_isspace (last ?t)"
    using strip_by_ends [of py_isspace "py_lower x"]
    unfolding py_strip_lower [symmetric] by (simp add: py_strip_def)
  moreover have "py_isspace (CHR 0x0A)" by (simp add: py_isspace_def)
  ultimately have "last ?t \<noteq> CHR 0x0A" by metis
  with t n show ?thesis by (simp add: replace_char_last)
qed

lemma validate_slug_lang:
  "validate_slug x = Inr n \<longleftrightarrow> normalize_slug x = Inr n \<and> slug_lang n"
proof (cases "normalize_slug x")
  case (Inr m)
  with normalized_no_final_newline [OF Inr] show ?thesis
    by (auto simp: validate_slug_def SLUG_PATTERN_def slug_from_iff)
qed (simp add: validate_slug_def)

subsection \<open>Unique tenants and domains\<close>

definition tenancy_ok :: "db \<Rightarrow> bool" where
  "tenancy_ok s \<longleftrightarrow> tbl_ok tn_id (tenants s) \<and> tbl_ok tn_slug (tenants s) \<and>
     tbl_ok tn_schema_name (tenants s) \<and> tbl_ok dm_id (domains s) \<and> tbl_ok dm_domain (domains s) \<and>
     list_all (\<lambda>d. tenant_of s (dm_tenant d) \<noteq> None) (domains s)"

interpretation domain_tbl: keyed_table dm_domain "tbl_lookup dm_domain" "tbl_upsert dm_domain"
  "tbl_remove dm_domain" "tbl_ok dm_domain"
  by (rule list_keyed_table)

lemma tenancy_ok_eq:
  "tenants s' = tenants s \<Longrightarrow> domains s' = domains s \<Longrightarrow> tenancy_ok s' = tenancy_ok s"
  by (simp add: tenancy_ok_def tenant_of_def)

lemma tenant_of_lookup: "tenant_of s i = tbl_lookup tn_id (tenants s) i"
  by (simp add: tenant_of_def tbl_lookup_def)

lemma tenant_of_append:
  "tenant_of (s\<lparr>tenants := tenants s @ [t]\<rparr>) i =
     (case tenant_of s i of None \<Rightarrow> if tn_id t = i then Some t else None | Some x \<Rightarrow> Some x)"
  by (auto simp: tenant_of_def find_snoc split: option.splits)

lemma domain_tenant_lookup:
  assumes "tenancy_ok s"
  shows "domain_tenant host s =
    (case tbl_lookup dm_domain (domains s) host of
       None \<Rightarrow> Inl DoesNotExist
     | Some d \<Rightarrow> Inr (the (tenant_of s (dm_tenant d))))"
proof -
  have tn: "d \<in> set (domains s) \<Longrightarrow> tenant_of s (dm_tenant d) \<noteq> None" for d
    using assms by (auto simp: tenancy_ok_def list_all_iff)
  then have "filter (\<lambda>d. dm_domain d = host \<and> tenant_of s (dm_tenant d) \<noteq> None) (domains s) =
      filter (\<lambda>d. dm_domain d = host) (domains s)"
    by (intro filter_cong) auto
  then have get: "qs_get (\<lambda>d. dm_domain d = host \<and> tenant_of s (dm_tenant d) \<noteq> None) (domains s) =
      qs_get (\<lambda>d. dm_domain d = host) (domains s)"
    by (simp only: qs_get_def)
  have ok: "tbl_ok dm_domain (domains s)" using assms by (simp add: tenancy_ok_def)
  show ?thesis
  proof (cases "tbl_lookup dm_domain (domains s) host")
    case None
    then show ?thesis unfolding domain_tenant_def get by (simp add: qs_get_tbl_lookup [OF ok])
  next
    case (Some d)
    with ok have "tenant_of s (dm_tenant d) \<noteq> None" by (intro tn) (simp add: tbl_lookup_Some)
    with Some show ?thesis
      unfolding domain_tenant_def get by (auto simp: qs_get_tbl_lookup [OF ok])
  qed
qed

text \<open>Every outcome of \<open>create_tenant\<close>; on an error nothing is written.\<close>

lemma create_tenant_error:
  "create_tenant now ti di nm sc dn prim s = (Inl e, s') \<Longrightarrow> s' = s"
  by (auto simp: create_tenant_def Let_def split: sum.splits if_splits dest: atomic_error_rolls_back)

lemma create_tenant_Ok:
  assumes "create_tenant now ti di nm sc dn prim s = (Inr (t, d), s')"
  shows "\<exists>schema. validate_slug sc = Inr schema \<and> strip_lower dn \<noteq> [] \<and>
    t = \<lparr>tn_id = ti, tn_name = py_strip nm, tn_slug = schema, tn_schema_name = schema,
         tn_is_active = True, tn_created_at = now, tn_updated_at = now\<rparr> \<and>
    d = \<lparr>dm_id = di, dm_tenant = ti, dm_domain = strip_lower dn, dm_is_primary = prim\<rparr> \<and>
    (\<forall>x\<in>set (tenants s). tn_id x \<noteq> ti \<and> tn_slug x \<noteq> schema \<and> tn_schema_name x \<noteq> schema) \<and>
    (\<forall>x\<in>set (domains s). dm_id x \<noteq> di \<and> dm_domain x \<noteq> strip_lower dn) \<and>
    s' = s\<lparr>tenants := tenants s @ [t], domains := domains s @ [d]\<rparr>"
  using assms unfolding create_tenant_def Let_def strip_lower_def
  by (cases "validate_slug sc")
    (auto simp: atomic_def insert_tenant_def insert_domain_def split: if_splits)

lemma create_tenant_tenancy_ok:
  assumes ok: "tenancy_ok s" and run: "create_tenant now ti di nm sc dn prim s = (r, s')"
  shows "tenancy_ok s'"
proof (cases r)
  case (Inl e)
  with ok run show ?thesis using create_tenant_error by metis
next
  case (Inr td)
  obtain t d where td: "td = (t, d)" by (cases td)
  from create_tenant_Ok [OF run [unfolded Inr td]] obtain schema where
    t: "t = \<lparr>tn_id = ti, tn_name = py_strip nm, tn_slug = schema, tn_schema_name = schema,
         tn_is_active = True, tn_created_at = now, tn_updated_at = now\<rparr>"
    and d: "d = \<lparr>dm_id = di, dm_tenant = ti, dm_domain = strip_lower dn, dm_is_primary = prim\<rparr>"
    and new: "\<forall>x\<in>set (tenants s). tn_id x \<noteq> ti \<and> tn_slug x \<noteq> schema \<and> tn_schema_name x \<noteq> schema"
      "\<forall>x\<in>set (domains s). dm_id x \<noteq> di \<and> dm_domain x \<noteq> strip_lower dn"
    and s': "s' = s\<lparr>tenants := tenants s @ [t], domains := domains s @ [d]\<rparr>"
    by blast
  have rows: "tn_id t = ti" "tn_slug t = schema" "tn_schema_name t = schema"
      "dm_id d = di" "dm_tenant d = ti" "dm_domain d = strip_lower dn"
    by (simp_all add: t d)
  have "tenant_of s' i = tenant_of (s\<lparr>tenants := tenants s @ [t]\<rparr>) i" for i
    by (simp add: s' tenant_of_def)
  with ok new rows show ?thesis
    unfolding tenancy_ok_def tbl_ok_def s'
    by (auto simp: tenant_of_append s' list_all_iff split: option.splits)
qed

text \<open>A created tenant is what its host name resolves to.\<close>

lemma create_tenant_domain_tenant:
  assumes ok: "tenancy_ok s" and run: "create_tenant now ti di nm sc dn prim s = (Inr (t, d), s')"
  shows "domain_tenant (strip_lower dn) s' = Inr t"
proof -
  note ok' = create_tenant_tenancy_ok [OF ok run]
  from create_tenant_Ok [OF run] have
    new: "\<forall>x\<in>set (tenants s). tn_id x \<noteq> ti"
    and rows: "tn_id t = ti" "dm_tenant d = ti" "dm_domain d = strip_lower dn"
    and s': "s' = s\<lparr>tenants := tenants s @ [t], domains := domains s @ [d]\<rparr>"
    by auto
  have d: "tbl_lookup dm_domain (domains s') (strip_lower dn) = Some d"
    using ok' rows by (simp add: tenancy_ok_def tbl_lookup_Some s')
  have "tenant_of s ti = None" using new by (auto simp: tenant_of_def find_None_iff)
  then have "tenant_of s' ti = Some t"
    using tenant_of_append [of s t ti] rows by (simp add: s' tenant_of_def)
  with d rows show ?thesis by (simp add: domain_tenant_lookup [OF ok'])
qed

lemma create_tenant_domain_tenant_other:
  assumes ok: "tenancy_ok s" and run: "create_tenant now ti di nm sc dn prim s = (Inr (t, d), s')"
    and other: "host \<noteq> strip_lower dn"
  shows "domain_tenant host s' = domain_tenant host s"
proof -
  note ok' = create_tenant_tenancy_ok [OF ok run]
  from create_tenant_Ok [OF run] have
    rows: "tn_id t = ti" "dm_domain d = strip_lower dn"
    and s': "s' = s\<lparr>tenants := tenants s @ [t], domains := domains s @ [d]\<rparr>"
    by auto
  have "tbl_lookup dm_domain (domains s') host = tbl_lookup dm_domain (domains s) host"
    using other rows by (auto simp: s' tbl_lookup_def find_snoc split: option.splits)
  moreover have "tenant_of s' (dm_tenant x) = tenant_of s (dm_tenant x)"
    if "x \<in> set (domains s)" for x
    using ok that tenant_of_append [of s t "dm_tenant x"]
    by (auto simp: s' tenant_of_def tenancy_ok_def list_all_iff split: option.splits)
  moreover have "x \<in> set (domains s)" if "tbl_lookup dm_domain (domains s) host = Some x" for x
    using that ok by (simp add: tenancy_ok_def tbl_lookup_Some)
  ultimately show ?thesis
    by (auto simp: domain_tenant_lookup [OF ok] domain_tenant_lookup [OF ok'] split: option.splits)
qed

subsection \<open>Resolution through the cache\<close>

definition db_answer :: "string \<Rightarrow> db \<Rightarrow> tenant option" where
  "db_answer host s = (case domain_tenant host s of Inr t \<Rightarrow> Some t | Inl _ \<Rightarrow> None)"

lemma tenant_cache_key_inject [simp]: "tenant_cache_key a = tenant_cache_key b \<longleftrightarrow> a = b"
  by (simp add: tenant_cache_key_def)

lemma domain_tenant_error: "tenancy_ok s \<Longrightarrow> domain_tenant host s = Inl e \<Longrightarrow> e = DoesNotExist"
  by (simp add: domain_tenant_lookup split: option.splits)

lemma resolve_tenant_hit:
  "cache_get now (tenant_cache st) (tenant_cache_key host) = Some v \<Longrightarrow>
     resolve_tenant now host st = (Inr v, st)"
  by (cases v) (simp_all add: resolve_tenant_def)

lemma resolve_tenant_miss:
  assumes "tenancy_ok (site_db st)"
    and "cache_get now (tenant_cache st) (tenant_cache_key host) = None"
  shows "resolve_tenant now host st =
    (Inr (db_answer host (site_db st)),
     st\<lparr>tenant_cache := cache_set now
        (if db_answer host (site_db st) = None then NEGATIVE_CACHE_TTL else TENANT_CACHE_TTL)
        (tenant_cache_key host) (db_answer host (site_db st)) (tenant_cache st)\<rparr>)"
  using assms domain_tenant_error [OF assms(1)]
  by (auto simp: resolve_tenant_def db_answer_def split: sum.splits)

lemma resolve_tenant_frame:
  "resolve_tenant now host st = (r, st') \<Longrightarrow>
     site_db st' = site_db st \<and> tenant_ctx st' = tenant_ctx st \<and>
     session_cache st' = session_cache st \<and> result_cache st' = result_cache st"
  by (auto simp: resolve_tenant_def Let_def split: option.splits sum.splits if_splits)

definition lookup_step :: "site \<Rightarrow> instant \<times> string \<Rightarrow> site" where
  "lookup_step st e = snd (resolve_tenant (fst e) (snd e) st)"

text \<open>
  With the database fixed from instant \<open>d\<close> on: an entry either was written before and
  expires by \<open>d + 300\<close>, or agrees with the database.
\<close>

definition cache_settles :: "instant \<Rightarrow> db \<Rightarrow> site \<Rightarrow> bool" where
  "cache_settles d s st \<longleftrightarrow> site_db st = s \<and> tenancy_ok s \<and>
     (\<forall>host v expiry. tenant_cache st (tenant_cache_key host) = Some (v, expiry) \<longrightarrow>
        expiry \<le> d + TENANT_CACHE_TTL \<or> v = db_answer host s)"

interpretation lookups: preserved lookup_step "\<lambda>_ _. True" "cache_settles d s" for d s
proof
  fix st and e :: "instant \<times> string"
  assume inv: "cache_settles d s st"
  obtain now host where e: "e = (now, host)" by (cases e)
  show "cache_settles d s (lookup_step st e)"
  proof (cases "cache_get now (tenant_cache st) (tenant_cache_key host)")
    case None
    with inv have "resolve_tenant now host st = (Inr (db_answer host s),
       st\<lparr>tenant_cache := cache_set now
          (if db_answer host s = None then NEGATIVE_CACHE_TTL else TENANT_CACHE_TTL)
          (tenant_cache_key host) (db_answer host s) (tenant_cache st)\<rparr>)"
      by (simp add: resolve_tenant_miss cache_settles_def)
    with inv show ?thesis
      by (auto simp: e lookup_step_def cache_settles_def cache_set_def)
  next
    case (Some v)
    with inv show ?thesis by (simp add: e lookup_step_def resolve_tenant_hit)
  qed
qed

lemma lookups_admitted: "lookups.admitted st es"
  by (induction es arbitrary: st) simp_all

lemma settled_lookup:
  assumes "cache_settles d s st" and "d + TENANT_CACHE_TTL \<le> now"
  shows "fst (resolve_tenant now host st) = Inr (db_answer host s)"
proof (cases "cache_get now (tenant_cache st) (tenant_cache_key host)")
  case None
  with assms show ?thesis by (simp add: resolve_tenant_miss cache_settles_def)
next
  case (Some v)
  then obtain expiry where "tenant_cache st (tenant_cache_key host) = Some (v, expiry)"
    and "now < expiry" by (auto simp: cache_get_def split: option.splits if_splits)
  with assms have "v = db_answer host s" by (fastforce simp: cache_settles_def)
  with Some show ?thesis by (simp add: resolve_tenant_hit)
qed

subsection \<open>Properties\<close>

text \<open>A slug accepted by \<open>validate_slug\<close> is the normalised input and a word of the slug
  language (lower-case letters and digits, single hyphens inside, no newline), and
  validating it again returns it unchanged.\<close>

theorem validate_slug_sound:
  assumes "validate_slug x = Inr n"
  shows "slug_lang n \<and> n = replace_char (CHR '' '') (CHR ''-'') (strip_lower x) \<and> validate_slug n = Inr n"
proof -
  from assms have n: "normalize_slug x = Inr n" "slug_lang n" by (simp_all add: validate_slug_lang)
  then have "validate_slug n = Inr n" by (simp add: validate_slug_lang normalize_slug_lang)
  with n show ?thesis
    by (auto simp: normalize_slug_def strip_lower_def Let_def split: if_splits)
qed

theorem validate_slug_sound_witness:
  "validate_slug ''Acme Corp'' = Inr ''acme-corp'' \<and> slug_lang ''acme-corp'' \<and>
   validate_slug ''acme-corp'' = Inr ''acme-corp''"
proof -
  have "validate_slug ''Acme Corp'' = Inr ''acme-corp''" by code_simp
  with validate_slug_sound [OF this] show ?thesis by blast
qed

text \<open>C19. Creating a tenant keeps every uniqueness and reference constraint of the two tables
  on every outcome, writes nothing when it raises, and on success the given host name, and
  only it, resolves to the new active tenant.\<close>

theorem create_tenant_correct:
  assumes "tenancy_ok s" and "create_tenant now ti di nm sc dn prim s = (r, s')"
  shows "tenancy_ok s' \<and>
    (case r of
       Inl e \<Rightarrow> s' = s
     | Inr (t, d) \<Rightarrow> tn_is_active t \<and> db_answer (strip_lower dn) s' = Some t \<and>
         (\<forall>host. host \<noteq> strip_lower dn \<longrightarrow> db_answer host s' = db_answer host s))"
proof (cases r)
  case (Inl e)
  with assms create_tenant_tenancy_ok create_tenant_error show ?thesis by fastforce
next
  case (Inr td)
  obtain t d where td: "td = (t, d)" by (cases td)
  note run = assms(2) [unfolded Inr td]
  show ?thesis
    using create_tenant_tenancy_ok [OF assms] create_tenant_Ok [OF run]
      create_tenant_domain_tenant [OF assms(1) run] create_tenant_domain_tenant_other [OF assms(1) run]
    by (auto simp: Inr td db_answer_def)
qed

theorem create_tenant_correct_witness:
  "\<exists>t s'. db_answer ''acme.localhost'' s' = Some t \<and> tn_slug t = ''acme'' \<and> tenancy_ok s'"
proof -
  have ok: "tenancy_ok empty_db" by (simp add: tenancy_ok_def tbl_ok_def empty_db_def)
  obtain t d s' where run: "create_tenant 0 ''t1'' ''d1'' ''Acme'' '' ACME'' ''Acme.localhost '' True
      empty_db = (Inr (t, d), s')" and slug: "tn_slug t = ''acme''"
    by (rule that; code_simp?) (auto simp: create_tenant_def)
  from create_tenant_correct [OF ok run] have "db_answer (strip_lower ''Acme.localhost '') s' = Some t"
    and "tenancy_ok s'" by simp_all
  moreover have "strip_lower ''Acme.localhost '' = ''acme.localhost''" by code_simp
  ultimately show ?thesis using slug by auto
qed

text \<open>Whatever the cache held when the tenant and domain tables reached their present
  contents at instant \<open>d\<close>, and whatever lookups ran since, a lookup 300 seconds later answers
  with the contents of the database: deactivating or moving a tenant takes effect within the
  cache's time to live.\<close>

theorem lookup_settles:
  assumes ok: "tenancy_ok (site_db st)"
    and ttl: "\<forall>k v expiry. tenant_cache st k = Some (v, expiry) \<longrightarrow> expiry \<le> d + 300"
    and late: "d + 300 \<le> now"
  shows "fst (resolve_tenant now host (foldl lookup_step st es)) = Inr (db_answer host (site_db st))"
proof -
  have "cache_settles d (site_db st) st"
    using ok ttl by (simp add: cache_settles_def TENANT_CACHE_TTL_def)
  then have "cache_settles d (site_db st) (foldl lookup_step st es)"
    using lookups_admitted by (rule lookups.inv_run)
  then show ?thesis using late by (rule settled_lookup [rotated 1, unfolded TENANT_CACHE_TTL_def, rotated 1])
qed

definition stale_site :: site where
  "stale_site = (demo_site (demo_db\<lparr>tenants := [demo_tenant\<lparr>tn_is_active := False\<rparr>, other_tenant]\<rparr>))
     \<lparr>tenant_cache := [''tenant:domain:acme.localhost'' \<mapsto> (Some demo_tenant, 300)]\<rparr>"

lemma demo_tenancy_ok: "tenancy_ok demo_db"
  by (simp add: tenancy_ok_def tbl_ok_def tenant_of_def)

lemma stale_tenancy_ok: "tenancy_ok (site_db stale_site)"
  by (simp add: tenancy_ok_def tbl_ok_def stale_site_def tenant_of_def)

lemma stale_db_answer:
  "db_answer ''acme.localhost'' (site_db stale_site) = Some (demo_tenant\<lparr>tn_is_active := False\<rparr>)"
  by (simp add: db_answer_def domain_tenant_def stale_site_def qs_get_def tenant_of_def)

theorem lookup_settles_witness:
  "fst (resolve_tenant 300 ''acme.localhost'' (foldl lookup_step stale_site [(10, ''acme.localhost'')]))
     = Inr (Some (demo_tenant\<lparr>tn_is_active := False\<rparr>))"
proof -
  note stale_db_answer
  moreover have "\<forall>k v expiry. tenant_cache stale_site k = Some (v, expiry) \<longrightarrow> expiry \<le> 0 + 300"
    by (simp add: stale_site_def)
  ultimately show ?thesis
    using lookup_settles [OF stale_tenancy_ok, of 0 300 "''acme.localhost''" "[(10, ''acme.localhost'')]"]
    by simp
qed

text \<open>Until the entry expires, a tenant that was deactivated after it was cached is still
  served: the request reaches the view with the tenant of the cached, active copy.\<close>

theorem stale_tenant_served:
  assumes "\<not> list_ex (starts_with (rq_path rq)) EXEMPT_PREFIXES"
    and "tenant_cache st (tenant_cache_key (split_head (CHR '':'') (rq_host rq))) = Some (Some t, expiry)"
    and "now < expiry" and "tn_is_active t"
    and "get_response (rq\<lparr>rq_tenant := Some t\<rparr>) (set_tenant_id (Some (tn_id t)) st) = (Inr r, st')"
  shows "TenantMiddleware_call now get_response rq st = (Inr r, clear_tenant st')"
  using assms by (simp add: TenantMiddleware_call_def resolve_tenant_def cache_get_def)

theorem stale_tenant_served_witness:
  "fst (TenantMiddleware_call 299 (\<lambda>rq st. (Inr (Response 200 (rq_tenant rq)), st)) demo_request stale_site)
     = Inr (Response 200 (Some demo_tenant)) \<and>
   db_answer ''acme.localhost'' (site_db stale_site) = Some (demo_tenant\<lparr>tn_is_active := False\<rparr>)"
proof -
  have "TenantMiddleware_call 299 (\<lambda>rq st. (Inr (Response 200 (rq_tenant rq)), st)) demo_request stale_site
    = (Inr (Response 200 (Some demo_tenant)), clear_tenant (set_tenant_id (Some (tn_id demo_tenant)) stale_site))"
    by (rule stale_tenant_served [where expiry = 300 and t = demo_tenant])
      (simp_all add: EXEMPT_PREFIXES_def split_head_def tenant_cache_key_def stale_site_def)
  moreover note stale_db_answer
  ultimately show ?thesis by simp
qed

text \<open>C11. The rest of the middleware chain only ever runs either without a tenant and with a
  cleared context, or with an active tenant whose id is the context: two chains that agree
  on such calls make the middleware behave the same.\<close>

theorem downstream_sees_active_tenant:
  assumes "\<And>rq' st'. (case rq_tenant rq' of
              None \<Rightarrow> get_tenant_id st' = None
            | Some t \<Rightarrow> tn_is_active t \<and> get_tenant_id st' = Some (tn_id t)) \<Longrightarrow> f rq' st' = g rq' st'"
  shows "TenantMiddleware_call now f rq st = TenantMiddleware_call now g rq st"
proof (cases "list_ex (starts_with (rq_path rq)) EXEMPT_PREFIXES")
  case True
  have "f (rq\<lparr>rq_tenant := None\<rparr>) (clear_tenant st) = g (rq\<lparr>rq_tenant := None\<rparr>) (clear_tenant st)"
    by (rule assms) (simp add: get_tenant_id_def clear_tenant_def)
  with True show ?thesis by (simp add: TenantMiddleware_call_def)
next
  case False
  have "f (rq\<lparr>rq_tenant := Some t\<rparr>) (set_tenant_id (Some (tn_id t)) st1) =
      g (rq\<lparr>rq_tenant := Some t\<rparr>) (set_tenant_id (Some (tn_id t)) st1)" if "tn_is_active t" for t st1
    by (rule assms) (simp add: that get_tenant_id_def set_tenant_id_def)
  with False show ?thesis
    unfolding TenantMiddleware_call_def
    by (auto split: prod.splits sum.splits option.splits)
qed

theorem downstream_sees_active_tenant_witness:
  "TenantMiddleware_call 0 (\<lambda>rq st. (Inr (Response 200 (case rq_tenant rq of
       None \<Rightarrow> True | Some t \<Rightarrow> tn_is_active t)), st)) demo_request (demo_site demo_db) =
   TenantMiddleware_call 0 (\<lambda>rq st. (Inr (Response 200 True), st)) demo_request (demo_site demo_db)"
  by (rule downstream_sees_active_tenant) (simp split: option.splits)

text \<open>The context is empty again after every request that returns a response, provided the
  chain itself leaves the context alone; but an exception the chain lets through leaves the
  tenant of this request in the context, since \<open>clear_tenant()\<close> is not in a \<open>finally\<close>.\<close>

theorem context_after_request:
  assumes start: "get_tenant_id st = None"
    and chain: "\<And>rq' st'. get_tenant_id (snd (get_response rq' st')) = get_tenant_id st'"
    and run: "TenantMiddleware_call now get_response rq st = (res, st')"
  shows "(\<forall>r. res = Inr r \<longrightarrow> get_tenant_id st' = None) \<and>
    (\<forall>t e. resolve_tenant now (split_head (CHR '':'') (rq_host rq)) st = (Inr (Some t), st1) \<longrightarrow>
      \<not> list_ex (starts_with (rq_path rq)) EXEMPT_PREFIXES \<longrightarrow> tn_is_active t \<longrightarrow> res = Inl e \<longrightarrow>
      get_tenant_id st' = Some (tn_id t))"
proof -
  have ctx: "tenant_ctx st2 = tenant_ctx st1" if "get_response rq' st1 = (x, st2)" for rq' st1 x st2
    using chain [of rq' st1] that by (simp add: get_tenant_id_def)
  note frame = resolve_tenant_frame [of now "split_head (CHR '':'') (rq_host rq)" st]
  show ?thesis
    using run start unfolding TenantMiddleware_call_def get_tenant_id_def
    by (auto simp: clear_tenant_def set_tenant_id_def dest!: ctx frame
        split: if_splits prod.splits sum.splits option.splits)
qed

theorem context_after_request_witness:
  "get_tenant_id (snd (TenantMiddleware_call 0
      (\<lambda>rq st. (Inl MailError, st) :: (exn + unit response) \<times> site) demo_request
      (demo_site demo_db))) = Some ''t1''"
proof -
  let ?chain = "\<lambda>rq st. (Inl MailError, st) :: (exn + unit response) \<times> site"
  let ?st = "demo_site demo_db"
  define st1 where "st1 = snd (resolve_tenant 0 ''acme.localhost'' ?st)"
  have res: "resolve_tenant 0 (split_head (CHR '':'') (rq_host demo_request)) ?st = (Inr (Some demo_tenant), st1)"
    by (simp add: st1_def split_head_def resolve_tenant_def cache_get_def domain_tenant_def qs_get_def
        tenant_of_def)
  have path: "\<not> list_ex (starts_with (rq_path demo_request)) EXEMPT_PREFIXES"
    by (simp add: EXEMPT_PREFIXES_def)
  obtain st' where run: "TenantMiddleware_call 0 ?chain demo_request ?st = (Inl MailError, st')"
    using res path by (simp add: TenantMiddleware_call_def)
  have start: "get_tenant_id ?st = None" by (simp add: get_tenant_id_def)
  have chain: "get_tenant_id (snd (?chain rq' st')) = get_tenant_id st'" for rq' st' by simp
  from context_after_request [OF start chain run, of st1] res path run show ?thesis by simp
qed

end
