(* ===== verification/Features.thy ===== *)
theory Features
  imports Samples
begin

text \<open>
  \<open>services/features/feature_service.py\<close> and \<open>apps/features/views.py\<close>: the state of a
  feature flag for a tenant, resolved from the tenant's override, django-waffle and the
  settings. Waffle is a parameter: its two entry points, each of which may raise
  (\<open>None\<close>); the whole parameter is \<open>None\<close> when the package is not installed. A settings
  dict is the list of its items in order.
\<close>

record waffle_api =
  flag_is_active :: "request \<Rightarrow> string \<Rightarrow> bool option"
  switch_is_active :: "string \<Rightarrow> bool option"

definition get_waffle_flag :: "waffle_api option \<Rightarrow> string \<Rightarrow> request option \<Rightarrow> bool option" where
  "get_waffle_flag waffle flag_name rq =
     (case waffle of
        None \<Rightarrow> None
      | Some w \<Rightarrow>
          (case rq of
             None \<Rightarrow> switch_is_active w flag_name
           | Some r \<Rightarrow>
               (case flag_is_active w r flag_name of
                  Some b \<Rightarrow> Some b
                | None \<Rightarrow> switch_is_active w flag_name)))"

definition get_default :: "(string \<times> bool) list \<Rightarrow> string \<Rightarrow> bool" where
  "get_default defaults flag_name =
     (case map_of defaults flag_name of Some b \<Rightarrow> b | None \<Rightarrow> False)"

definition flag_key :: "tenant_feature_flag \<Rightarrow> uuid \<times> string" where
  "flag_key r = (ff_tenant r, ff_flag_name r)"

definition is_enabled ::
  "waffle_api option \<Rightarrow> (string \<times> bool) list \<Rightarrow> string \<Rightarrow> request option \<Rightarrow> tenant option \<Rightarrow> db \<Rightarrow> bool" where
  "is_enabled waffle defaults flag_name rq tn s =
     (let resolved_tenant =
            (case tn of Some t \<Rightarrow> Some t
             | None \<Rightarrow> (case rq of Some r \<Rightarrow> rq_tenant r | None \<Rightarrow> None));
          override =
            (case resolved_tenant of
               None \<Rightarrow> None
             | Some t \<Rightarrow>
                 (case qs_get (\<lambda>r. flag_key r = (tn_id t, flag_name)) (feature_flags s) of
                    Inr r \<Rightarrow> Some (ff_is_enabled r) | Inl _ \<Rightarrow> None))
      in case override of
           Some b \<Rightarrow> b
         | None \<Rightarrow>
             (case get_waffle_flag waffle flag_name rq of
                Some b \<Rightarrow> b
              | None \<Rightarrow> get_default defaults flag_name))"

definition for_tenant ::
  "waffle_api option \<Rightarrow> (string \<times> bool) list \<Rightarrow> tenant \<Rightarrow> request option \<Rightarrow> db \<Rightarrow> string \<rightharpoonup> bool" where
  "for_tenant waffle defaults t rq s =
     (let with_waffle =
            foldl (\<lambda>res f. case get_waffle_flag waffle f rq of Some b \<Rightarrow> res(f \<mapsto> b) | None \<Rightarrow> res)
              (map_of defaults) (map fst defaults)
      in foldl (\<lambda>res r. res(ff_flag_name r \<mapsto> ff_is_enabled r)) with_waffle
           (filter (\<lambda>r. ff_tenant r = tn_id t) (feature_flags s)))"

definition set_for_tenant ::
  "instant \<Rightarrow> tenant \<Rightarrow> string \<Rightarrow> bool \<Rightarrow> string \<Rightarrow> string \<Rightarrow> (db, unit) op" where
  "set_for_tenant now t flag_name enabled source note s =
     (case update_or_create (\<lambda>r. flag_key r = (tn_id t, flag_name))
             (\<lambda>r. r\<lparr>ff_is_enabled := enabled, ff_source := source, ff_note := note, ff_updated_at := now\<rparr>)
             \<lparr>ff_tenant = tn_id t, ff_flag_name = flag_name, ff_is_enabled = enabled,
              ff_source = source, ff_note = note, ff_created_at = now, ff_updated_at = now\<rparr>
             (feature_flags s) of
        (Inl e, _) \<Rightarrow> (Inl e, s)
      | (Inr _, ffs) \<Rightarrow> (Inr (), s\<lparr>feature_flags := ffs\<rparr>))"

text \<open>The loop of \<open>sync_plan_flags\<close>; an exception ends it.\<close>

fun set_plan_flags :: "instant \<Rightarrow> tenant \<Rightarrow> string \<Rightarrow> (string \<times> bool) list \<Rightarrow> (db, unit) op" where
  "set_plan_flags now t plan_slug [] s = (Inr (), s)"
| "set_plan_flags now t plan_slug ((f, b) # fs) s =
     (case set_for_tenant now t f b ''plan'' (''Auto-set by plan: '' @ plan_slug) s of
        (Inl e, s') \<Rightarrow> (Inl e, s')
      | (Inr _, s') \<Rightarrow> set_plan_flags now t plan_slug fs s')"

text \<open>The slug of the tenant's plan; \<open>None\<close> when \<open>tenant.subscription\<close> raises.\<close>

definition plan_slug_of :: "tenant \<Rightarrow> db \<Rightarrow> string option" where
  "plan_slug_of t s =
     (case subscription_of s (tn_id t) of
        None \<Rightarrow> None
      | Some sub \<Rightarrow>
          (case sb_plan sub of
             None \<Rightarrow> Some []
           | Some p \<Rightarrow> map_option pl_slug (plan_of s p)))"

definition sync_plan_flags ::
  "instant \<Rightarrow> (string \<times> (string \<times> bool) list) list \<Rightarrow> tenant \<Rightarrow> (db, unit) op" where
  "sync_plan_flags now plan_flags t s =
     (if plan_flags = [] then (Inr (), s)
      else case plan_slug_of t s of
             None \<Rightarrow> (Inr (), s)
           | Some slug \<Rightarrow>
               set_plan_flags now t slug
                 (case map_of plan_flags slug of Some fs \<Rightarrow> fs | None \<Rightarrow> []) s)"

subsection \<open>Endpoints\<close>

definition FeatureFlagsView_get ::
  "waffle_api option \<Rightarrow> (string \<times> bool) list \<Rightarrow> request \<Rightarrow> db \<Rightarrow> (string \<rightharpoonup> bool) response" where
  "FeatureFlagsView_get waffle defaults rq s =
     (if rq_user rq = None then Detail 401 []
      else case rq_tenant rq of
             None \<Rightarrow> Response 200 Map.empty
           | Some t \<Rightarrow> Response 200 (for_tenant waffle defaults t (Some rq) s))"

definition FeatureFlagDetailView_get ::
  "waffle_api option \<Rightarrow> (string \<times> bool) list \<Rightarrow> request \<Rightarrow> string \<Rightarrow> db \<Rightarrow> (string \<times> bool) response" where
  "FeatureFlagDetailView_get waffle defaults rq flag_name s =
     (if rq_user rq = None then Detail 401 []
      else Response 200 (flag_name, is_enabled waffle defaults flag_name (Some rq) None s))"

subsection \<open>The shipped settings\<close>

definition FEATURE_FLAGS_DEFAULTS :: "(string \<times> bool) list" where
  "FEATURE_FLAGS_DEFAULTS =
     [(''advanced_analytics'', False), (''api_access'', False), (''bulk_export'', False),
      (''custom_domain'', False), (''priority_support'', False), (''white_label'', False),
      (''sso'', False)]"

definition PLAN_FEATURE_FLAGS :: "(string \<times> (string \<times> bool) list) list" where
  "PLAN_FEATURE_FLAGS =
     [(''free'',
       [(''advanced_analytics'', False), (''api_access'', False), (''bulk_export'', False),
        (''custom_domain'', False), (''priority_support'', False), (''white_label'', False),
        (''sso'', False)]),
      (''starter'',
       [(''advanced_analytics'', False), (''api_access'', True), (''bulk_export'', True),
        (''custom_domain'', False), (''priority_support'', False), (''white_label'', False),
        (''sso'', False)]),
      (''pro'',
       [(''advanced_analytics'', True), (''api_access'', True), (''bulk_export'', True),
        (''custom_domain'', True), (''priority_support'', True), (''white_label'', False),
        (''sso'', False)]),
      (''enterprise'',
       [(''advanced_analytics'', True), (''api_access'', True), (''bulk_export'', True),
        (''custom_domain'', True), (''priority_support'', True), (''white_label'', True),
        (''sso'', True)])]"

subsection \<open>Overrides as a map\<close>

interpretation flag_tbl: keyed_table flag_key "tbl_lookup flag_key" "tbl_upsert flag_key"
  "tbl_remove flag_key" "tbl_ok flag_key"
  by (rule list_keyed_table)

definition flags_ok :: "db \<Rightarrow> bool" where
  "flags_ok s \<longleftrightarrow> tbl_ok flag_key (feature_flags s)"

definition flag_map :: "db \<Rightarrow> uuid \<times> string \<rightharpoonup> bool" where
  "flag_map s k = map_option ff_is_enabled (tbl_lookup flag_key (feature_flags s) k)"

lemma is_enabled_map:
  "flags_ok s \<Longrightarrow> is_enabled waffle defaults f rq (Some t) s =
     (case flag_map s (tn_id t, f) of
        Some b \<Rightarrow> b
      | None \<Rightarrow> (case get_waffle_flag waffle f rq of Some b \<Rightarrow> b | None \<Rightarrow> get_default defaults f))"
  by (simp add: is_enabled_def flags_ok_def flag_map_def qs_get_tbl_lookup split: option.splits)

lemma set_for_tenant_effect:
  assumes "flags_ok s"
  shows "\<exists>s'. set_for_tenant now t f b src note s = (Inr (), s') \<and> flags_ok s' \<and>
    flag_map s' = (flag_map s)((tn_id t, f) \<mapsto> b) \<and> s' = s\<lparr>feature_flags := feature_flags s'\<rparr>"
proof -
  let ?k = "(tn_id t, f)"
  let ?upd = "\<lambda>r. r\<lparr>ff_is_enabled := b, ff_source := src, ff_note := note, ff_updated_at := now\<rparr>"
  let ?new = "\<lparr>ff_tenant = tn_id t, ff_flag_name = f, ff_is_enabled = b, ff_source = src,
    ff_note = note, ff_created_at = now, ff_updated_at = now\<rparr>"
  let ?s' = "s\<lparr>feature_flags := tbl_upsert flag_key ?k ?upd ?new (feature_flags s)\<rparr>"
  have inv: "tbl_ok flag_key (feature_flags s)" using assms by (simp add: flags_ok_def)
  have keys: "flag_key ?new = ?k" "\<And>r. flag_key r = ?k \<Longrightarrow> flag_key (?upd r) = ?k"
    by (simp_all add: flag_key_def)
  have "set_for_tenant now t f b src note s = (Inr (), ?s')"
    using inv
    by (auto simp: set_for_tenant_def tbl_upsert_def update_or_create_def qs_get_tbl_lookup
        split: option.splits)
  moreover have "flags_ok ?s'" using flag_tbl.invar_upsert [OF inv keys] by (simp add: flags_ok_def)
  moreover have "flag_map ?s' = (flag_map s)(?k \<mapsto> b)"
    by (auto simp: flag_map_def fun_eq_iff flag_tbl.lookup_upsert [OF inv keys] split: option.splits)
  ultimately show ?thesis by (intro exI [of _ ?s']) simp
qed

text \<open>The overrides of one tenant, as the map a list of settings describes.\<close>

lemma set_plan_flags_effect:
  assumes "flags_ok s" and "distinct (map fst fs)"
  shows "\<exists>s'. set_plan_flags now t slug fs s = (Inr (), s') \<and> flags_ok s' \<and>
    (\<forall>t' f. flag_map s' (t', f) =
       (if t' = tn_id t \<and> map_of fs f \<noteq> None then map_of fs f else flag_map s (t', f))) \<and>
    s' = s\<lparr>feature_flags := feature_flags s'\<rparr>"
  using assms
proof (induction fs arbitrary: s)
  case (Cons x fs)
  obtain f b where x: "x = (f, b)" by (cases x)
  from set_for_tenant_effect [OF Cons.prems(1), of now t f b "''plan''" "''Auto-set by plan: '' @ slug"]
  obtain s1 where
    s1: "set_for_tenant now t f b ''plan'' (''Auto-set by plan: '' @ slug) s = (Inr (), s1)"
    "flags_ok s1" "flag_map s1 = (flag_map s)((tn_id t, f) \<mapsto> b)"
    "s1 = s\<lparr>feature_flags := feature_flags s1\<rparr>" by (elim exE conjE) (rule that)
  from Cons.IH [OF s1(2)] Cons.prems(2) obtain s' where
    s': "set_plan_flags now t slug fs s1 = (Inr (), s')" "flags_ok s'"
    "\<forall>t' f. flag_map s' (t', f) =
       (if t' = tn_id t \<and> map_of fs f \<noteq> None then map_of fs f else flag_map s1 (t', f))"
    "s' = s1\<lparr>feature_flags := feature_flags s'\<rparr>"
    by (metis (no_types, lifting) distinct.simps(2) list.simps(9))
  have "map_of fs f = None" using Cons.prems(2) x by (simp add: map_of_eq_None_iff)
  with s1(3) s'(3) have "\<forall>t' g. flag_map s' (t', g) =
      (if t' = tn_id t \<and> map_of (x # fs) g \<noteq> None then map_of (x # fs) g else flag_map s (t', g))"
    by (auto simp: x)
  moreover have "s' = s\<lparr>feature_flags := feature_flags s'\<rparr>"
    by (subst s'(4), subst s1(4)) simp
  ultimately show ?case using s1(1) s'(1,2) by (auto simp: x)
qed simp

lemma plan_flags_distinct:
  "(slug, fs) \<in> set PLAN_FEATURE_FLAGS \<Longrightarrow>
     distinct (map fst fs) \<and> map fst fs = map fst FEATURE_FLAGS_DEFAULTS"
  by (auto simp: PLAN_FEATURE_FLAGS_def FEATURE_FLAGS_DEFAULTS_def)

lemma foldl_overrides:
  "foldl (\<lambda>res r. res(ff_flag_name r \<mapsto> ff_is_enabled r)) m rs f =
     (case find (\<lambda>r. ff_flag_name r = f) (rev rs) of Some r \<Rightarrow> Some (ff_is_enabled r) | None \<Rightarrow> m f)"
  by (induction rs rule: rev_induct) auto

lemma foldl_waffle:
  "foldl (\<lambda>res f. case get_waffle_flag w f rq of Some b \<Rightarrow> res(f \<mapsto> b) | None \<Rightarrow> res) m fs f =
     (if f \<in> set fs
      then (case get_waffle_flag w f rq of Some b \<Rightarrow> Some b | None \<Rightarrow> m f) else m f)"
  by (induction fs rule: rev_induct) (auto split: option.splits)

lemma find_override:
  assumes "flags_ok s"
  shows "map_option ff_is_enabled
      (find (\<lambda>r. ff_flag_name r = f) (rev (filter (\<lambda>r. ff_tenant r = t) (feature_flags s)))) =
    flag_map s (t, f)"
proof -
  let ?rs = "rev (filter (\<lambda>r. ff_tenant r = t) (feature_flags s))"
  have ok: "tbl_ok flag_key (feature_flags s)" using assms by (simp add: flags_ok_def)
  show ?thesis
  proof (cases "tbl_lookup flag_key (feature_flags s) (t, f)")
    case None
    then have "find (\<lambda>r. ff_flag_name r = f) ?rs = None"
      by (auto simp: find_None_iff tbl_lookup_count flag_key_def)
    with None show ?thesis by (simp add: flag_map_def)
  next
    case (Some r)
    then have r: "r \<in> set (feature_flags s)" "flag_key r = (t, f)"
      by (auto simp: tbl_lookup_Some [OF ok])
    then have "find (\<lambda>r. ff_flag_name r = f) ?rs \<noteq> None"
      by (auto simp: find_None_iff flag_key_def)
    then obtain r' where r': "find (\<lambda>r. ff_flag_name r = f) ?rs = Some r'" by blast
    then have "r' \<in> set ?rs" "ff_flag_name r' = f"
      by (metis find_Some_iff nth_mem, metis (mono_tags, lifting) find_Some_iff)
    then have "r' = r"
      using r ok by (auto simp: flag_key_def tbl_ok_def distinct_map inj_on_def)
    with r' Some show ?thesis by (simp add: flag_map_def)
  qed
qed

lemma for_tenant_map:
  assumes "flags_ok s"
  shows "for_tenant waffle defaults t rq s f =
    (case flag_map s (tn_id t, f) of
       Some b \<Rightarrow> Some b
     | None \<Rightarrow>
         if f \<in> fst ` set defaults
         then Some (case get_waffle_flag waffle f rq of Some b \<Rightarrow> b | None \<Rightarrow> get_default defaults f)
         else None)"
proof -
  have "map_of defaults f = None \<longleftrightarrow> f \<notin> fst ` set defaults"
    by (simp add: map_of_eq_None_iff)
  then show ?thesis
    using find_override [OF assms, of f "tn_id t"]
    by (auto simp: for_tenant_def Let_def foldl_overrides foldl_waffle get_default_def
        split: option.splits)
qed

subsection \<open>Properties\<close>

text \<open>C23. The two ways to read a flag agree: \<open>for_tenant\<close> answers for exactly the flags that
  have an override of this tenant or a settings default, and what it answers is what
  \<open>is_enabled\<close> answers for the same tenant and request.\<close>

theorem flag_views_agree:
  assumes "flags_ok s"
  shows "for_tenant waffle defaults t rq s f =
    (if (\<exists>r\<in>set (feature_flags s). ff_tenant r = tn_id t \<and> ff_flag_name r = f) \<or>
        f \<in> fst ` set defaults
     then Some (is_enabled waffle defaults f rq (Some t) s) else None)"
proof -
  have "(\<exists>r\<in>set (feature_flags s). ff_tenant r = tn_id t \<and> ff_flag_name r = f) \<longleftrightarrow>
      flag_map s (tn_id t, f) \<noteq> None"
    by (auto simp: flag_map_def tbl_lookup_count flag_key_def)
  then show ?thesis
    by (auto simp: for_tenant_map [OF assms] is_enabled_map [OF assms] split: option.splits)
qed

theorem flag_views_agree_witness:
  "for_tenant None FEATURE_FLAGS_DEFAULTS demo_tenant None
     (demo_db\<lparr>feature_flags := [\<lparr>ff_tenant = ''t1'', ff_flag_name = ''beta'', ff_is_enabled = True,
        ff_source = ''manual'', ff_note = [], ff_created_at = 0, ff_updated_at = 0\<rparr>]\<rparr>) ''beta'' = Some True"
  by (subst flag_views_agree)
    (simp_all add: flags_ok_def tbl_ok_def is_enabled_def qs_get_def flag_key_def)

text \<open>Under the shipped plan table, synchronising a tenant on one of its plans never raises and
  settles all seven flags of that plan: from then on each reads exactly as the plan says,
  whatever manual override was stored before and whatever waffle answers (so a manual override of
  a plan flag is lost). Flags the plan does not name, and other tenants, read as before.\<close>

theorem plan_sync_decides:
  assumes "flags_ok s" and "plan_slug_of t s = Some slug" and "map_of PLAN_FEATURE_FLAGS slug = Some fs"
    and "sync_plan_flags now PLAN_FEATURE_FLAGS t s = (r, s')"
  shows "r = Inr () \<and> flags_ok s' \<and> s' = s\<lparr>feature_flags := feature_flags s'\<rparr> \<and>
    map fst fs = map fst FEATURE_FLAGS_DEFAULTS \<and>
    (\<forall>w d f rq t'. is_enabled w d f rq (Some t') s' =
       (if tn_id t' = tn_id t \<and> f \<in> set (map fst fs) then map_of fs f = Some True
        else is_enabled w d f rq (Some t') s))"
proof -
  from assms(3) have mem: "(slug, fs) \<in> set PLAN_FEATURE_FLAGS" by (rule map_of_SomeD)
  from set_plan_flags_effect [OF assms(1) conjunct1 [OF plan_flags_distinct [OF mem]], of now t slug]
  obtain s1 where s1: "set_plan_flags now t slug fs s = (Inr (), s1)" "flags_ok s1"
    and m: "\<forall>t' f. flag_map s1 (t', f) =
      (if t' = tn_id t \<and> map_of fs f \<noteq> None then map_of fs f else flag_map s (t', f))"
    and fr: "s1 = s\<lparr>feature_flags := feature_flags s1\<rparr>" by (elim exE conjE) (rule that)
  have "PLAN_FEATURE_FLAGS \<noteq> []" by (simp add: PLAN_FEATURE_FLAGS_def)
  with assms s1(1) have "r = Inr ()" and s': "s' = s1" by (simp_all add: sync_plan_flags_def)
  moreover have "f \<in> set (map fst fs) \<longleftrightarrow> map_of fs f \<noteq> None" for f
    by (simp add: map_of_eq_None_iff)
  moreover have "is_enabled w d f rq (Some t') s1 =
      (if tn_id t' = tn_id t \<and> map_of fs f \<noteq> None then map_of fs f = Some True
       else is_enabled w d f rq (Some t') s)" for w d f rq t'
    by (auto simp: is_enabled_map [OF s1(2)] is_enabled_map [OF assms(1)] m split: option.splits)
  ultimately show ?thesis using s1(2) fr conjunct2 [OF plan_flags_distinct [OF mem]] by metis
qed

theorem plan_sync_decides_witness:
  "is_enabled None [] ''api_access'' None (Some demo_tenant)
     (snd (sync_plan_flags 5 PLAN_FEATURE_FLAGS demo_tenant
        (demo_db\<lparr>plans := [pro_plan], subscriptions := [sub_row ''t1'' (Some 1) ''active'']\<rparr>)))"
proof -
  let ?s = "demo_db\<lparr>plans := [pro_plan], subscriptions := [sub_row ''t1'' (Some 1) ''active'']\<rparr>"
  have ok: "flags_ok ?s" by (simp add: flags_ok_def tbl_ok_def)
  have slug: "plan_slug_of demo_tenant ?s = Some ''pro''"
    by (simp add: plan_slug_of_def subscription_of_def plan_of_def)
  have fs: "map_of PLAN_FEATURE_FLAGS ''pro'' = Some (snd (PLAN_FEATURE_FLAGS ! 2))"
    by (simp add: PLAN_FEATURE_FLAGS_def)
  from plan_sync_decides [OF ok slug fs surjective_pairing, of 5, THEN conjunct2, THEN conjunct2,
      THEN conjunct2, THEN conjunct2, rule_format, of None "[]" "''api_access''" None demo_tenant]
  show ?thesis by (simp add: PLAN_FEATURE_FLAGS_def)
qed

text \<open>Losing the plan does not take its features away: when the subscription has no plan any
  more, or one the settings do not list, synchronising writes nothing, so every flag the old plan
  switched on stays on.\<close>

theorem plan_loss_keeps_flags:
  assumes "plan_slug_of t s = Some slug" and "slug \<notin> fst ` set plan_flags"
  shows "sync_plan_flags now plan_flags t s = (Inr (), s)"
  using assms by (simp add: sync_plan_flags_def map_of_eq_None_iff [symmetric])

theorem plan_loss_keeps_flags_witness:
  "sync_plan_flags 5 PLAN_FEATURE_FLAGS demo_tenant
     (demo_db\<lparr>subscriptions := [sub_row ''t1'' None ''canceled'']\<rparr>) =
   (Inr (), demo_db\<lparr>subscriptions := [sub_row ''t1'' None ''canceled'']\<rparr>)"
  by (rule plan_loss_keeps_flags [where slug = "[]"])
    (simp_all add: plan_slug_of_def subscription_of_def PLAN_FEATURE_FLAGS_def)

end
