(* ===== verification/Audit_Log.thy ===== *)
theory Audit_Log
  imports Samples
begin

text \<open>
  \<open>services/audit/audit_service.py\<close>: the client address of a request and the write-only
  audit log. A failed insert is swallowed, so logging never raises; what it can change is
  only the audit table.
\<close>

definition get_client_ip :: "request \<Rightarrow> string option" where
  "get_client_ip rq =
     (case rq_META rq ''HTTP_X_FORWARDED_FOR'' of
        Some f \<Rightarrow> if f \<noteq> [] then Some (py_strip (split_head (CHR '','') f))
                  else (case rq_META rq ''REMOTE_ADDR'' of
                          Some a \<Rightarrow> if a \<noteq> [] then Some a else None | None \<Rightarrow> None)
      | None \<Rightarrow> (case rq_META rq ''REMOTE_ADDR'' of
                   Some a \<Rightarrow> if a \<noteq> [] then Some a else None | None \<Rightarrow> None))"

definition resolve_actor :: "request option \<Rightarrow> user option \<Rightarrow> user option" where
  "resolve_actor rq actor =
     (case actor of
        Some a \<Rightarrow> Some a
      | None \<Rightarrow> (case rq of Some r \<Rightarrow> rq_user r | None \<Rightarrow> None))"

definition AuditService_log ::
  "instant \<Rightarrow> string \<Rightarrow> request option \<Rightarrow> uuid option \<Rightarrow> user option \<Rightarrow> string \<Rightarrow> string \<Rightarrow>
   (string \<times> string) list \<Rightarrow> db \<Rightarrow> db" where
  "AuditService_log now action rq tn actor resource_type resource_id metadata s =
     (let resolved_actor = resolve_actor rq actor;
          ip_address = (case rq of Some r \<Rightarrow> get_client_ip r | None \<Rightarrow> None);
          user_agent = (case rq of
                          Some r \<Rightarrow> (case rq_META r ''HTTP_USER_AGENT'' of Some a \<Rightarrow> a | None \<Rightarrow> [])
                        | None \<Rightarrow> []);
          actor_email = (case resolved_actor of Some a \<Rightarrow> us_email a | None \<Rightarrow> []);
          row = \<lparr>al_tenant = tn, al_actor = map_option us_pk resolved_actor,
                 al_actor_email = actor_email, al_action = action,
                 al_resource_type = resource_type, al_resource_id = resource_id,
                 al_metadata = metadata, al_ip_address = ip_address,
                 al_user_agent = user_agent, al_timestamp = now\<rparr>
      in if audit_up s then s\<lparr>audit_logs := audit_logs s @ [row]\<rparr> else s)"

lemma audit_frame [simp, db_simps]:
  "users (AuditService_log now a rq tn ac rt ri m s) = users s"
  "profiles (AuditService_log now a rq tn ac rt ri m s) = profiles s"
  "totps (AuditService_log now a rq tn ac rt ri m s) = totps s"
  "tenants (AuditService_log now a rq tn ac rt ri m s) = tenants s"
  "domains (AuditService_log now a rq tn ac rt ri m s) = domains s"
  "roles (AuditService_log now a rq tn ac rt ri m s) = roles s"
  "invitations (AuditService_log now a rq tn ac rt ri m s) = invitations s"
  "plans (AuditService_log now a rq tn ac rt ri m s) = plans s"
  "subscriptions (AuditService_log now a rq tn ac rt ri m s) = subscriptions s"
  "webhook_events (AuditService_log now a rq tn ac rt ri m s) = webhook_events s"
  "feature_flags (AuditService_log now a rq tn ac rt ri m s) = feature_flags s"
  "notifications (AuditService_log now a rq tn ac rt ri m s) = notifications s"
  "outstanding_tokens (AuditService_log now a rq tn ac rt ri m s) = outstanding_tokens s"
  "queue (AuditService_log now a rq tn ac rt ri m s) = queue s"
  "next_user_pk (AuditService_log now a rq tn ac rt ri m s) = next_user_pk s"
  "audit_up (AuditService_log now a rq tn ac rt ri m s) = audit_up s"
  "broker_up (AuditService_log now a rq tn ac rt ri m s) = broker_up s"
  by (simp_all add: AuditService_log_def Let_def)

lemma audit_logs_log:
  "audit_logs (AuditService_log now a rq tn ac rt ri m s) =
     audit_logs s @ (if audit_up s then [\<lparr>al_tenant = tn,
        al_actor = map_option us_pk (resolve_actor rq ac),
        al_actor_email = (case resolve_actor rq ac of Some u \<Rightarrow> us_email u | None \<Rightarrow> []),
        al_action = a, al_resource_type = rt, al_resource_id = ri, al_metadata = m,
        al_ip_address = (case rq of Some r \<Rightarrow> get_client_ip r | None \<Rightarrow> None),
        al_user_agent = (case rq of
            Some r \<Rightarrow> (case rq_META r ''HTTP_USER_AGENT'' of Some v \<Rightarrow> v | None \<Rightarrow> [])
          | None \<Rightarrow> []),
        al_timestamp = now\<rparr>] else [])"
  by (simp add: AuditService_log_def Let_def)

text \<open>The log only grows: what was recorded stays as it was recorded.\<close>

definition log_extends :: "db \<Rightarrow> db \<Rightarrow> bool" where
  "log_extends s s' \<longleftrightarrow> (\<exists>new. audit_logs s' = audit_logs s @ new)"

lemma log_extends_refl [simp]: "log_extends s s"
  by (simp add: log_extends_def)

lemma log_extends_trans: "log_extends a b \<Longrightarrow> log_extends b c \<Longrightarrow> log_extends a c"
  by (auto simp: log_extends_def)

lemma log_extends_log:
  "audit_logs s' = audit_logs s \<Longrightarrow> log_extends s (AuditService_log now a rq tn ac rt ri m s')"
  by (simp add: log_extends_def audit_logs_log)

end
