(* ===== verification/Rbac.thy ===== *)
theory Rbac
  imports Audit_Log
begin

text \<open>
  \<open>services/rbac/rbac_service.py\<close>, \<open>apps/rbac/permissions.py\<close> and \<open>apps/rbac/views.py\<close>:
  role assignment per (user, tenant), the role checks, the resolution of the tenant a
  request is about, and the three role endpoints. \<open>parse_uuid\<close> is the conversion Django's
  UUID field applies to a lookup value; it raises \<open>ValidationError\<close> on malformed text.
\<close>

subsection \<open>RBACService\<close>

definition role_key :: "user_tenant_role \<Rightarrow> pk \<times> uuid" where
  "role_key r = (ur_user r, ur_tenant r)"

definition assign_role ::
  "instant \<Rightarrow> uuid \<Rightarrow> user \<Rightarrow> tenant \<Rightarrow> string \<Rightarrow> user option \<Rightarrow> (db, user_tenant_role) op" where
  "assign_role now new_id u t role assigned_by s =
     (if role \<notin> set RoleChoices_values
      then (Inl (ValidationServiceError
              (''Invalid role '' @ quoted role @ ''. Must be one of: admin, member, owner'')), s)
      else
        case update_or_create (\<lambda>r. role_key r = (us_pk u, tn_id t))
               (\<lambda>r. r\<lparr>ur_role := role, ur_assigned_by := map_option us_pk assigned_by\<rparr>)
               \<lparr>ur_id = new_id, ur_user = us_pk u, ur_tenant = tn_id t, ur_role = role,
                ur_assigned_by = map_option us_pk assigned_by, ur_created_at = now\<rparr> (roles s) of
          (Inl e, _) \<Rightarrow> (Inl e, s)
        | (Inr (obj, _), rs) \<Rightarrow>
            (Inr obj,
             AuditService_log now ''role_assigned'' None (Some (tn_id t)) assigned_by ''User''
               (str_nat (us_pk u)) [(''role'', role), (''target_email'', us_email u)]
               (s\<lparr>roles := rs\<rparr>)))"

definition revoke_role :: "instant \<Rightarrow> user \<Rightarrow> tenant \<Rightarrow> (db, bool) op" where
  "revoke_role now u t s =
     (let P = (\<lambda>r. role_key r = (us_pk u, tn_id t));
          deleted = qs_count P (roles s);
          s' = s\<lparr>roles := qs_delete P (roles s)\<rparr>
      in if deleted \<noteq> 0
         then (Inr True,
               AuditService_log now ''role_revoked'' None (Some (tn_id t)) None ''User''
                 (str_nat (us_pk u)) [(''target_email'', us_email u)] s')
         else (Inr False, s'))"

definition get_role :: "user \<Rightarrow> tenant \<Rightarrow> db \<Rightarrow> exn + string option" where
  "get_role u t s =
     (case qs_get (\<lambda>r. role_key r = (us_pk u, tn_id t)) (roles s) of
        Inr r \<Rightarrow> Inr (Some (ur_role r))
      | Inl e \<Rightarrow> if e = DoesNotExist then Inr None else Inl e)"

definition has_role :: "user option \<Rightarrow> tenant \<Rightarrow> string list \<Rightarrow> db \<Rightarrow> bool" where
  "has_role user t rs s =
     (case user of
        None \<Rightarrow> False
      | Some u \<Rightarrow>
          if us_is_superuser u then True
          else qs_exists (\<lambda>r. role_key r = (us_pk u, tn_id t) \<and> ur_role r \<in> set rs) (roles s))"

subsection \<open>Permissions\<close>

definition resolve_request_tenant ::
  "(string \<Rightarrow> uuid option) \<Rightarrow> request \<Rightarrow> string option \<Rightarrow> db \<Rightarrow> exn + tenant option" where
  "resolve_request_tenant parse_uuid rq url_tenant_id s =
     (let tenant_id =
        (case url_tenant_id of
           Some k \<Rightarrow> if k \<noteq> [] then Some k else rq_headers rq ''X-Tenant-ID''
         | None \<Rightarrow> rq_headers rq ''X-Tenant-ID'')
      in case tenant_id of
           None \<Rightarrow> Inr (rq_tenant rq)
         | Some k \<Rightarrow>
             if k = [] then Inr (rq_tenant rq)
             else (case parse_uuid k of
                     None \<Rightarrow> Inl (DjangoValidationError [k])
                   | Some i \<Rightarrow>
                       (case qs_get (\<lambda>t. tn_id t = i) (tenants s) of
                          Inr t \<Rightarrow> Inr (Some t)
                        | Inl e \<Rightarrow> if e = DoesNotExist then Inr None else Inl e)))"

definition HasRolePermission ::
  "(string \<Rightarrow> uuid option) \<Rightarrow> string list \<Rightarrow> request \<Rightarrow> string option \<Rightarrow> db \<Rightarrow> exn + bool" where
  "HasRolePermission parse_uuid required_roles rq url_tenant_id s =
     (if required_roles = [] then Inr True
      else case resolve_request_tenant parse_uuid rq url_tenant_id s of
             Inl e \<Rightarrow> Inl e
           | Inr None \<Rightarrow> Inr False
           | Inr (Some t) \<Rightarrow>
               if rq_user rq = None then Inr False
               else Inr (has_role (rq_user rq) t required_roles s))"

text \<open>The decorator: \<open>PermissionDenied\<close> is HTTP 403, the view is not called.\<close>

definition require_role ::
  "(string \<Rightarrow> uuid option) \<Rightarrow> string list \<Rightarrow> (request \<Rightarrow> db \<Rightarrow> 'a response \<times> db) \<Rightarrow>
   request \<Rightarrow> string option \<Rightarrow> db \<Rightarrow> 'a response \<times> db" where
  "require_role parse_uuid required view_func rq url_tenant_id s =
     (case resolve_request_tenant parse_uuid rq url_tenant_id s of
        Inl e \<Rightarrow> (Uncaught e, s)
      | Inr None \<Rightarrow> (Detail 403 [], s)
      | Inr (Some t) \<Rightarrow>
          if \<not> has_role (rq_user rq) t required s then (Detail 403 [], s)
          else view_func rq s)"

text \<open>\<open>permission_classes = [IsAuthenticated, HasRolePermission]\<close>, checked in this order
  before the handler of the view runs.\<close>

definition role_required_message :: string where
  "role_required_message = ''You do not have the required role to perform this action.''"

definition authenticated_with_role ::
  "(string \<Rightarrow> uuid option) \<Rightarrow> string list \<Rightarrow> request \<Rightarrow> string option \<Rightarrow>
   (user \<Rightarrow> db \<Rightarrow> 'a response \<times> db) \<Rightarrow> db \<Rightarrow> 'a response \<times> db" where
  "authenticated_with_role parse_uuid required rq url_tenant_id handler s =
     (case rq_user rq of
        None \<Rightarrow> (Detail 401 [], s)
      | Some u \<Rightarrow>
          (case HasRolePermission parse_uuid required rq url_tenant_id s of
             Inl e \<Rightarrow> (Uncaught e, s)
           | Inr ok \<Rightarrow> if ok then handler u s else (Detail 403 role_required_message, s)))"

subsection \<open>Role endpoints\<close>

definition TenantRoleListView_get ::
  "(string \<Rightarrow> uuid option) \<Rightarrow> request \<Rightarrow> string \<Rightarrow> db \<Rightarrow> user_tenant_role list response \<times> db" where
  "TenantRoleListView_get parse_uuid rq tenant_id =
     authenticated_with_role parse_uuid [''owner'', ''admin'', ''member''] rq (Some tenant_id)
       (\<lambda>u s. case tenant_of s tenant_id of
                None \<Rightarrow> (Detail 404 [], s)
              | Some t \<Rightarrow>
                  (Response 200 (sort_key (\<lambda>r. - ur_created_at r)
                     (filter (\<lambda>r. ur_tenant r = tn_id t) (roles s))), s))"

definition AssignRoleView_post ::
  "(string \<Rightarrow> uuid option) \<Rightarrow> instant \<Rightarrow> uuid \<Rightarrow> request \<Rightarrow> string \<Rightarrow> pk \<Rightarrow> string \<Rightarrow> db \<Rightarrow>
   user_tenant_role response \<times> db" where
  "AssignRoleView_post parse_uuid now new_id rq tenant_id user_id role =
     authenticated_with_role parse_uuid [''owner'', ''admin''] rq (Some tenant_id)
       (\<lambda>caller s. case tenant_of s tenant_id of
                     None \<Rightarrow> (Detail 404 [], s)
                   | Some t \<Rightarrow>
                       (case user_of s user_id of
                          None \<Rightarrow> (Detail 400 ''User not found.'', s)
                        | Some u \<Rightarrow>
                            if role \<notin> set RoleChoices_values then (Detail 400 ''role'', s)
                            else (case assign_role now new_id u t role (Some caller) s of
                                    (Inl e, s') \<Rightarrow> (Uncaught e, s')
                                  | (Inr r, s') \<Rightarrow> (Response 201 r, s'))))"

definition RevokeRoleView_post ::
  "(string \<Rightarrow> uuid option) \<Rightarrow> instant \<Rightarrow> request \<Rightarrow> string \<Rightarrow> pk \<Rightarrow> db \<Rightarrow> unit response \<times> db" where
  "RevokeRoleView_post parse_uuid now rq tenant_id user_id =
     authenticated_with_role parse_uuid [''owner'', ''admin''] rq (Some tenant_id)
       (\<lambda>caller s. case tenant_of s tenant_id of
                     None \<Rightarrow> (Detail 404 [], s)
                   | Some t \<Rightarrow>
                       (case user_of s user_id of
                          None \<Rightarrow> (Detail 400 ''User not found.'', s)
                        | Some u \<Rightarrow>
                            (case revoke_role now u t s of
                               (Inl e, s') \<Rightarrow> (Uncaught e, s')
                             | (Inr _, s') \<Rightarrow> (Response 204 (), s'))))"

subsection \<open>The role table as a map from (user, tenant) to a role\<close>

interpretation role_tbl: keyed_table role_key "tbl_lookup role_key" "tbl_upsert role_key"
  "tbl_remove role_key" "tbl_ok role_key"
  by (rule list_keyed_table)

definition roles_ok :: "db \<Rightarrow> bool" where
  "roles_ok s \<longleftrightarrow> tbl_ok role_key (roles s)"

definition role_map :: "db \<Rightarrow> pk \<times> uuid \<rightharpoonup> string" where
  "role_map s k = map_option ur_role (tbl_lookup role_key (roles s) k)"

lemma role_map_roles: "roles s' = roles s \<Longrightarrow> role_map s' = role_map s"
  by (simp add: role_map_def fun_eq_iff)

lemma roles_ok_roles: "roles s' = roles s \<Longrightarrow> roles_ok s' = roles_ok s"
  by (simp add: roles_ok_def)

lemma role_map_Some:
  "roles_ok s \<Longrightarrow> role_map s (p, t) = Some x \<longleftrightarrow>
     (\<exists>r\<in>set (roles s). ur_user r = p \<and> ur_tenant r = t \<and> ur_role r = x)"
  by (auto simp: role_map_def roles_ok_def tbl_lookup_Some role_key_def)

text \<open>The table operation behind \<open>assign_role\<close>.\<close>

lemma update_or_create_role:
  assumes "roles_ok s"
  shows "\<exists>obj b. update_or_create (\<lambda>r. role_key r = k) upd new (roles s) =
    (Inr (obj, b), tbl_upsert role_key k upd new (roles s)) \<and>
    (obj = new \<or> (\<exists>r. tbl_lookup role_key (roles s) k = Some r \<and> obj = upd r))"
  using assms unfolding roles_ok_def tbl_upsert_def update_or_create_def
  by (cases "tbl_lookup role_key (roles s) k") (auto simp: qs_get_tbl_lookup)

lemma assign_role_invalid:
  "role \<notin> set RoleChoices_values \<Longrightarrow>
     \<exists>m. assign_role now i u t role by_user s = (Inl (ValidationServiceError m), s)"
  by (simp add: assign_role_def)

lemma assign_role_effect:
  assumes ok: "roles_ok s" and valid: "role \<in> set RoleChoices_values"
  obtains obj s' where "assign_role now i u t role by_user s = (Inr obj, s')"
    and "ur_role obj = role" and "role_key obj = (us_pk u, tn_id t)"
    and "roles_ok s'" and "role_map s' = (role_map s)((us_pk u, tn_id t) \<mapsto> role)"
    and "s' = AuditService_log now ''role_assigned'' None (Some (tn_id t)) by_user ''User''
               (str_nat (us_pk u)) [(''role'', role), (''target_email'', us_email u)]
               (s\<lparr>roles := roles s'\<rparr>)"
proof -
  let ?k = "(us_pk u, tn_id t)"
  let ?upd = "\<lambda>r. r\<lparr>ur_role := role, ur_assigned_by := map_option us_pk by_user\<rparr>"
  let ?new = "\<lparr>ur_id = i, ur_user = us_pk u, ur_tenant = tn_id t, ur_role = role,
    ur_assigned_by = map_option us_pk by_user, ur_created_at = now\<rparr>"
  obtain obj b where uoc: "update_or_create (\<lambda>r. role_key r = ?k) ?upd ?new (roles s) =
      (Inr (obj, b), tbl_upsert role_key ?k ?upd ?new (roles s))"
    and obj: "obj = ?new \<or> (\<exists>r. tbl_lookup role_key (roles s) ?k = Some r \<and> obj = ?upd r)"
    using update_or_create_role [OF ok, of ?k ?upd ?new] by blast
  define s' where "s' = AuditService_log now ''role_assigned'' None (Some (tn_id t)) by_user ''User''
    (str_nat (us_pk u)) [(''role'', role), (''target_email'', us_email u)]
    (s\<lparr>roles := tbl_upsert role_key ?k ?upd ?new (roles s)\<rparr>)"
  have run: "assign_role now i u t role by_user s = (Inr obj, s')"
    using valid uoc by (simp add: assign_role_def s'_def)
  have keys: "role_key ?new = ?k" "\<And>r. role_key r = ?k \<Longrightarrow> role_key (?upd r) = ?k"
    by (simp_all add: role_key_def)
  have inv: "tbl_ok role_key (roles s)" using ok by (simp add: roles_ok_def)
  have "roles_ok s'"
    using role_tbl.invar_upsert [OF inv keys] by (simp add: roles_ok_def s'_def)
  moreover have "role_map s' = (role_map s)(?k \<mapsto> role)"
    by (auto simp: role_map_def s'_def fun_eq_iff role_tbl.lookup_upsert [OF inv keys]
        split: option.splits)
  moreover have "ur_role obj = role" using obj by auto
  moreover have "role_key obj = ?k"
    using obj by (auto simp: role_key_def dest!: role_tbl.lookup_key)
  moreover have "roles s' = tbl_upsert role_key ?k ?upd ?new (roles s)" by (simp add: s'_def)
  ultimately show ?thesis using that [OF run] by (metis s'_def)
qed

lemma assign_role_cases [case_names invalid valid]:
  assumes "assign_role now i u t role by_user s = (r, s')" and "roles_ok s"
    and "\<And>m. role \<notin> set RoleChoices_values \<Longrightarrow> r = Inl (ValidationServiceError m) \<Longrightarrow> s' = s \<Longrightarrow> P"
    and "\<And>obj. role \<in> set RoleChoices_values \<Longrightarrow> r = Inr obj \<Longrightarrow> roles_ok s' \<Longrightarrow>
      role_map s' = (role_map s)((us_pk u, tn_id t) \<mapsto> role) \<Longrightarrow>
      s' = AuditService_log now ''role_assigned'' None (Some (tn_id t)) by_user ''User''
               (str_nat (us_pk u)) [(''role'', role), (''target_email'', us_email u)]
               (s\<lparr>roles := roles s'\<rparr>) \<Longrightarrow> P"
  shows P
proof (cases "role \<in> set RoleChoices_values")
  case True
  show ?thesis
    by (rule assign_role_effect [OF assms(2) True, of now i u t by_user])
      (use assms(1,4) True in auto)
next
  case False
  then show ?thesis using assms(1,3) assign_role_invalid [OF False, of now i u t by_user s] by auto
qed

lemma get_role_map: "roles_ok s \<Longrightarrow> get_role u t s = Inr (role_map s (us_pk u, tn_id t))"
  by (simp add: get_role_def role_map_def roles_ok_def qs_get_tbl_lookup split: option.splits)

lemma revoke_role_effect:
  assumes "roles_ok s"
  shows "\<exists>s'. revoke_role now u t s = (Inr (role_map s (us_pk u, tn_id t) \<noteq> None), s') \<and>
    roles_ok s' \<and> role_map s' = (role_map s)((us_pk u, tn_id t) := None) \<and>
    roles s' = tbl_remove role_key (us_pk u, tn_id t) (roles s)"
proof -
  let ?k = "(us_pk u, tn_id t)"
  have inv: "tbl_ok role_key (roles s)" using assms by (simp add: roles_ok_def)
  have "qs_count (\<lambda>r. role_key r = ?k) (roles s) = 0 \<longleftrightarrow> role_map s ?k = None"
    by (simp add: role_map_def tbl_lookup_count)
  moreover have ok': "roles_ok s''" if "roles s'' = tbl_remove role_key ?k (roles s)" for s''
    using role_tbl.invar_remove [OF inv] that by (simp add: roles_ok_def)
  moreover have "role_map s'' = (role_map s)(?k := None)"
    if "roles s'' = tbl_remove role_key ?k (roles s)" for s''
    using that by (auto simp: role_map_def fun_eq_iff role_tbl.lookup_remove [OF inv])
  ultimately show ?thesis
    unfolding revoke_role_def Let_def tbl_remove_def [symmetric]
    by (cases "role_map s ?k") (simp_all only: if_True if_False, auto)
qed

lemma has_role_map:
  "roles_ok s \<Longrightarrow> has_role (Some u) t rs s \<longleftrightarrow>
     us_is_superuser u \<or> (\<exists>x\<in>set rs. role_map s (us_pk u, tn_id t) = Some x)"
  by (auto simp: has_role_def role_map_Some role_key_def)

subsection \<open>Properties\<close>

text \<open>C4. \<open>assign_role\<close> refines an update of the map from (user, tenant) to a role: a valid role is
  stored for exactly that user in that tenant, every other pair keeps its role, the pair stays
  unique, and the row returned carries the role; an unknown role is rejected and nothing is
  written.\<close>

theorem assign_role_refines:
  assumes "roles_ok s" and "assign_role now i u t role by_user s = (r, s')"
  shows "roles_ok s' \<and>
    (if role \<in> set RoleChoices_values
     then (\<exists>obj. r = Inr obj \<and> ur_role obj = role) \<and>
       role_map s' = (role_map s)((us_pk u, tn_id t) \<mapsto> role)
     else (\<exists>m. r = Inl (ValidationServiceError m)) \<and> s' = s)"
proof (cases "role \<in> set RoleChoices_values")
  case True
  from assign_role_effect [OF assms(1) True, of now i u t by_user] assms(2) True
  show ?thesis by (metis Pair_inject)
next
  case False
  with assms assign_role_invalid [OF False, of now i u t by_user s] show ?thesis by auto
qed

theorem assign_role_refines_witness:
  "role_map (snd (assign_role 5 ''n'' bob demo_tenant ''admin'' (Some alice) demo_db))
     = [(2, ''t1'') \<mapsto> ''admin'']"
proof -
  have ok: "roles_ok demo_db" by (simp add: roles_ok_def tbl_ok_def)
  obtain r s' where run: "assign_role 5 ''n'' bob demo_tenant ''admin'' (Some alice) demo_db = (r, s')"
    by (cases "assign_role 5 ''n'' bob demo_tenant ''admin'' (Some alice) demo_db")
  have "role_map demo_db = Map.empty" by (simp add: role_map_def tbl_lookup_def fun_eq_iff)
  with assign_role_refines [OF ok run] run show ?thesis by (simp add: RoleChoices_values_def)
qed

text \<open>\<open>revoke_role\<close> removes exactly the role of that user in that tenant, reports whether there
  was one, and \<open>get_role\<close> then returns \<open>None\<close>; the roles of other users and in other tenants
  stay as they were.\<close>

theorem revoke_role_refines:
  assumes "roles_ok s" and "revoke_role now u t s = (r, s')"
  shows "roles_ok s' \<and> r = Inr (get_role u t s \<noteq> Inr None) \<and> get_role u t s' = Inr None \<and>
    (\<forall>u' t'. (us_pk u', tn_id t') \<noteq> (us_pk u, tn_id t) \<longrightarrow> get_role u' t' s' = get_role u' t' s)"
proof -
  from revoke_role_effect [OF assms(1), of now u t] assms(2)
  have "r = Inr (role_map s (us_pk u, tn_id t) \<noteq> None)" and ok: "roles_ok s'"
    and "role_map s' = (role_map s)((us_pk u, tn_id t) := None)" by auto
  then show ?thesis by (auto simp: get_role_map [OF assms(1)] get_role_map [OF ok])
qed

theorem revoke_role_refines_witness:
  "get_role bob demo_tenant (snd (revoke_role 5 bob demo_tenant
     (demo_db\<lparr>roles := [member_row 2 ''t1'' ''admin'', member_row 2 ''t2'' ''member'']\<rparr>))) = Inr None"
proof -
  let ?s = "demo_db\<lparr>roles := [member_row 2 ''t1'' ''admin'', member_row 2 ''t2'' ''member'']\<rparr>"
  have ok: "roles_ok ?s" by (simp add: roles_ok_def tbl_ok_def role_key_def)
  obtain r s' where run: "revoke_role 5 bob demo_tenant ?s = (r, s')"
    by (cases "revoke_role 5 bob demo_tenant ?s")
  from revoke_role_refines [OF ok run] run show ?thesis by simp
qed

text \<open>Role checks are tenant-scoped: apart from superusers, \<open>has_role\<close> holds exactly when the
  role the user holds in this very tenant is one of the accepted ones, so assigning or revoking
  roles in another tenant, or for another user, never changes its answer.\<close>

theorem has_role_scoped:
  assumes "roles_ok s"
  shows "(has_role (Some u) t rs s \<longleftrightarrow>
      us_is_superuser u \<or> (\<exists>x. get_role u t s = Inr (Some x) \<and> x \<in> set rs)) \<and>
    \<not> has_role None t rs s \<and>
    ((us_pk v, tn_id t') \<noteq> (us_pk u, tn_id t) \<longrightarrow>
      has_role (Some u) t rs (snd (assign_role now i v t' role by_user s)) = has_role (Some u) t rs s \<and>
      has_role (Some u) t rs (snd (revoke_role now v t' s)) = has_role (Some u) t rs s)"
proof -
  have "has_role (Some u) t rs (snd (assign_role now i v t' role by_user s)) = has_role (Some u) t rs s"
    if "(us_pk v, tn_id t') \<noteq> (us_pk u, tn_id t)"
    by (cases rule: assign_role_cases [where now = now and i = i and u = v and t = t' and role = role
          and by_user = by_user, OF surjective_pairing assms])
      (use that assms in \<open>auto simp: has_role_map\<close>)
  moreover have "has_role (Some u) t rs (snd (revoke_role now v t' s)) = has_role (Some u) t rs s"
    if "(us_pk v, tn_id t') \<noteq> (us_pk u, tn_id t)"
    using revoke_role_effect [OF assms, of now v t'] that assms by (auto simp: has_role_map)
  moreover have "\<not> has_role None t rs s" by (simp add: has_role_def)
  ultimately show ?thesis using assms by (auto simp: has_role_map get_role_map)
qed

theorem has_role_scoped_witness:
  "has_role (Some bob) demo_tenant [''owner'', ''admin'']
     (demo_db\<lparr>roles := [member_row 2 ''t1'' ''admin'']\<rparr>) \<and>
   \<not> has_role (Some bob) other_tenant [''owner'', ''admin'']
     (demo_db\<lparr>roles := [member_row 2 ''t1'' ''admin'']\<rparr>)"
proof -
  let ?s = "demo_db\<lparr>roles := [member_row 2 ''t1'' ''admin'']\<rparr>"
  have ok: "roles_ok ?s" by (simp add: roles_ok_def tbl_ok_def)
  have "get_role bob demo_tenant ?s = Inr (Some ''admin'')"
    "get_role bob other_tenant ?s = Inr None"
    by (simp_all add: get_role_def qs_get_def role_key_def)
  with has_role_scoped [OF ok, of bob demo_tenant "[''owner'', ''admin'']"]
    has_role_scoped [OF ok, of bob other_tenant "[''owner'', ''admin'']"]
  show ?thesis by simp
qed

lemma demo_roles_ok: "roles_ok (demo_db\<lparr>roles := [member_row p t x]\<rparr>)"
  by (simp add: roles_ok_def tbl_ok_def)

text \<open>A request that names no tenant in the URL or in the \<open>X-Tenant-ID\<close> header passes
  \<open>HasRolePermission\<close> only if its caller holds one of the required roles in the tenant the
  middleware attached (or is a superuser); without a tenant or a caller it never passes.\<close>

theorem permission_without_header:
  assumes ok: "roles_ok s" and required: "required \<noteq> []"
    and no_header: "rq_headers rq ''X-Tenant-ID'' = None \<or> rq_headers rq ''X-Tenant-ID'' = Some []"
  shows "HasRolePermission parse_uuid required rq None s = Inr True \<longleftrightarrow>
    (\<exists>u t. rq_user rq = Some u \<and> rq_tenant rq = Some t \<and>
       (us_is_superuser u \<or> (\<exists>x. get_role u t s = Inr (Some x) \<and> x \<in> set required)))"
  using assms
  by (cases "rq_tenant rq"; cases "rq_user rq")
    (auto simp: HasRolePermission_def resolve_request_tenant_def has_role_map get_role_map)

theorem permission_without_header_witness:
  "HasRolePermission Some [''owner'', ''admin'']
     (demo_request\<lparr>rq_user := Some bob, rq_tenant := Some demo_tenant\<rparr>) None
     (demo_db\<lparr>roles := [member_row 2 ''t1'' ''admin'']\<rparr>) = Inr True"
proof -
  let ?rq = "demo_request\<lparr>rq_user := Some bob, rq_tenant := Some demo_tenant\<rparr>"
  have "get_role bob demo_tenant (demo_db\<lparr>roles := [member_row 2 ''t1'' ''admin'']\<rparr>) = Inr (Some ''admin'')"
    by (simp add: get_role_def qs_get_def role_key_def)
  with permission_without_header [OF demo_roles_ok, of "[''owner'', ''admin'']" ?rq Some]
  show ?thesis by simp
qed

text \<open>A malformed \<open>X-Tenant-ID\<close> header is not refused but raises: Django's UUID field raises
  \<open>ValidationError\<close>, which is neither \<open>DoesNotExist\<close> nor \<open>ValueError\<close>, so any view with
  \<open>HasRolePermission\<close> and no tenant in its URL answers 500 to an authenticated caller.\<close>

theorem malformed_tenant_header_raises:
  assumes "rq_headers rq ''X-Tenant-ID'' = Some k" and "k \<noteq> []" and "parse_uuid k = None"
    and "required \<noteq> []" and "rq_user rq = Some u"
  shows "status_code (fst (authenticated_with_role parse_uuid required rq None handler s)) = 500 \<and>
    snd (authenticated_with_role parse_uuid required rq None handler s) = s"
  using assms
  by (simp add: authenticated_with_role_def HasRolePermission_def resolve_request_tenant_def)

theorem malformed_tenant_header_raises_witness:
  "status_code (fst (authenticated_with_role (\<lambda>_. None) [''owner'']
     (demo_request\<lparr>rq_user := Some bob, rq_headers := [''X-Tenant-ID'' \<mapsto> ''zz'']\<rparr>) None
     (\<lambda>u s. (Response 200 (), s)) demo_db)) = 500"
  by (rule malformed_tenant_header_raises [where k = "''zz''" and u = bob, THEN conjunct1]) simp_all

lemma resolve_url_tenant:
  assumes "parse_uuid tid = Some tid" and "tid \<noteq> []" and "tbl_ok tn_id (tenants s)"
  shows "resolve_request_tenant parse_uuid rq (Some tid) s = Inr (tenant_of s tid)"
proof -
  have "qs_get (\<lambda>t. tn_id t = tid) (tenants s) =
      (case tenant_of s tid of None \<Rightarrow> Inl DoesNotExist | Some t \<Rightarrow> Inr t)"
    using qs_get_tbl_lookup [OF assms(3), of tid] by (simp add: tenant_of_def tbl_lookup_def)
  with assms(1,2) show ?thesis
    by (simp add: resolve_request_tenant_def split: option.splits)
qed

lemma AssignRoleView_post_allowed:
  assumes "rq_user rq = Some caller" and "parse_uuid tid = Some tid" and "tid \<noteq> []"
    and "tenant_of s tid = Some t" and "tbl_ok tn_id (tenants s)" and "user_of s uid = Some u"
    and "has_role (Some caller) t [''owner'', ''admin''] s" and "role \<in> set RoleChoices_values"
  shows "AssignRoleView_post parse_uuid now i rq tid uid role s =
    (case assign_role now i u t role (Some caller) s of
       (Inl e, s') \<Rightarrow> (Uncaught e, s') | (Inr r, s') \<Rightarrow> (Response 201 r, s'))"
proof -
  have "qs_get (\<lambda>t. tn_id t = tid) (tenants s) = Inr t"
    using assms(4,5) by (simp add: qs_get_tbl_lookup tenant_of_def tbl_lookup_def)
  with assms show ?thesis
    by (simp add: AssignRoleView_post_def authenticated_with_role_def HasRolePermission_def
        resolve_request_tenant_def)
qed

text \<open>The role endpoint does not consult \<open>ROLE_HIERARCHY\<close>: a caller whose role in the tenant is
  admin can assign any role, to anyone, including the higher role of owner to himself.\<close>

theorem admin_promotes_to_owner:
  assumes ok: "roles_ok s" and caller: "rq_user rq = Some caller"
    and tn: "parse_uuid tid = Some tid" "tid \<noteq> []" "tenant_of s tid = Some t" "tbl_ok tn_id (tenants s)"
    and u: "user_of s (us_pk caller) = Some caller"
    and role: "get_role caller t s = Inr (Some (role_value ADMIN))"
  shows "ADMIN < OWNER \<and>
    (\<exists>row s'. AssignRoleView_post parse_uuid now i rq tid (us_pk caller) (role_value OWNER) s =
        (Response 201 row, s') \<and> get_role caller t s' = Inr (Some (role_value OWNER)))"
proof -
  have valid: "role_value OWNER \<in> set RoleChoices_values" by (simp add: RoleChoices_values_def)
  have "has_role (Some caller) t [''owner'', ''admin''] s"
    using role by (simp add: has_role_map [OF ok] get_role_map [OF ok])
  note view = AssignRoleView_post_allowed
      [where parse_uuid = parse_uuid and tid = tid, OF caller tn(1,2,3,4) u this valid, of now i]
  obtain obj s' where run: "assign_role now i caller t (role_value OWNER) (Some caller) s = (Inr obj, s')"
    and ok': "roles_ok s'"
    and map: "role_map s' = (role_map s)((us_pk caller, tn_id t) \<mapsto> role_value OWNER)"
    using assign_role_effect [OF ok valid, of now i caller t "Some caller"] by metis
  have "get_role caller t s' = Inr (Some (role_value OWNER))"
    by (simp add: get_role_map [OF ok'] map)
  with view run show ?thesis by (simp add: less_role_choice_def)
qed

theorem admin_promotes_to_owner_witness:
  "\<exists>row s'. AssignRoleView_post Some 9 ''n'' (demo_request\<lparr>rq_user := Some bob\<rparr>) ''t1'' 2 ''owner''
     (demo_db\<lparr>roles := [member_row 2 ''t1'' ''admin'']\<rparr>) = (Response 201 row, s') \<and>
   get_role bob demo_tenant s' = Inr (Some ''owner'')"
proof -
  let ?s = "demo_db\<lparr>roles := [member_row 2 ''t1'' ''admin'']\<rparr>"
  let ?rq = "demo_request\<lparr>rq_user := Some bob\<rparr>"
  have caller: "rq_user ?rq = Some bob" and parse: "Some ''t1'' = Some ''t1''" and ne: "''t1'' \<noteq> []"
    by simp_all
  have tn: "tenant_of ?s ''t1'' = Some demo_tenant" by (simp add: tenant_of_def)
  have uniq: "tbl_ok tn_id (tenants ?s)" by (simp add: tbl_ok_def)
  have u: "user_of ?s (us_pk bob) = Some bob" by (simp add: user_of_def)
  have role: "get_role bob demo_tenant ?s = Inr (Some (role_value ADMIN))"
    by (simp add: get_role_def qs_get_def role_key_def)
  from admin_promotes_to_owner [where parse_uuid = Some and tid = "''t1''" and now = 9 and i = "''n''",
      OF demo_roles_ok caller parse ne tn uniq u role]
  show ?thesis by simp
qed

text \<open>C28. With a unique role table the role endpoint never raises: on a well-formed tenant id it
  answers 201, 400, 401, 403 or 404, and on anything but 201 it writes nothing.\<close>

theorem assign_view_total:
  assumes ok: "roles_ok s" and "parse_uuid tid = Some tid" and "tid \<noteq> []"
    and tn: "tbl_ok tn_id (tenants s)"
    and run: "AssignRoleView_post parse_uuid now i rq tid uid role s = (resp, s')"
  shows "status_code resp \<in> {201, 400, 401, 403, 404} \<and> (status_code resp \<noteq> 201 \<longrightarrow> s' = s) \<and> roles_ok s'"
proof -
  have resolve: "resolve_request_tenant parse_uuid rq (Some tid) s = Inr (tenant_of s tid)"
    using assms(2,3) tn by (rule resolve_url_tenant)
  have assign: "(\<exists>obj. res = Inr obj) \<and> roles_ok s1"
    if "role \<in> set RoleChoices_values" "assign_role now i u t role by_user s = (res, s1)"
    for u t by_user res s1
    using assign_role_effect [OF ok that(1), of now i u t by_user] that(2) by (metis Pair_inject)
  show ?thesis
    using run ok
    unfolding AssignRoleView_post_def authenticated_with_role_def HasRolePermission_def resolve
    by (auto split: option.splits sum.splits prod.splits if_splits dest: assign)
qed

theorem assign_view_total_witness:
  "status_code (fst (AssignRoleView_post Some 9 ''n'' (demo_request\<lparr>rq_user := Some bob\<rparr>) ''t1'' 7
     ''owner'' (demo_db\<lparr>roles := [member_row 2 ''t1'' ''admin'']\<rparr>))) \<in> {201, 400, 401, 403, 404}"
proof -
  let ?s = "demo_db\<lparr>roles := [member_row 2 ''t1'' ''admin'']\<rparr>"
  have uniq: "tbl_ok tn_id (tenants ?s)" by (simp add: tbl_ok_def)
  show ?thesis
    using assign_view_total [where parse_uuid = Some and tid = "''t1''",
        OF demo_roles_ok _ _ uniq surjective_pairing] by simp
qed

end
