(* ===== verification/Billing.thy ===== *)
theory Billing
  imports Audit_Log
begin

text \<open>
  \<open>services/billing/\<close> and \<open>apps/billing/\<close>: the state a subscription takes under Stripe's
  events, the access rule with its grace period, the member limit of a plan, the webhook
  endpoint with its duplicate guard, and the Celery tasks. Instants are seconds; Stripe's
  signature check is a parameter of the endpoint.
\<close>

subsection \<open>Reading event objects\<close>

definition str_get :: "string option \<Rightarrow> string \<Rightarrow> string" where
  "str_get x d = (case x of Some v \<Rightarrow> v | None \<Rightarrow> d)"

text \<open>\<open>(obj.get("items", {}).get("data") or [{}])[0].get("price", {}).get("id", "")\<close>.\<close>

definition first_price_id :: "stripe_object \<Rightarrow> string" where
  "first_price_id obj =
     (case so_items_data obj of
        Some (item # _) \<Rightarrow> (case item of Some price_id \<Rightarrow> str_get price_id [] | None \<Rightarrow> [])
      | _ \<Rightarrow> [])"

text \<open>\<open>if ts: ... = fromtimestamp(ts)\<close>: an absent or zero timestamp leaves the field alone.\<close>

definition timestamp_or :: "int option \<Rightarrow> instant option \<Rightarrow> instant option" where
  "timestamp_or ts old = (case ts of Some n \<Rightarrow> if n = 0 then old else Some n | None \<Rightarrow> old)"

definition apply_period :: "subscription \<Rightarrow> stripe_object \<Rightarrow> subscription" where
  "apply_period sub obj =
     sub\<lparr>sb_current_period_start := timestamp_or (so_current_period_start obj) (sb_current_period_start sub),
         sb_current_period_end := timestamp_or (so_current_period_end obj) (sb_current_period_end sub),
         sb_trial_end := timestamp_or (so_trial_end obj) (sb_trial_end sub)\<rparr>"

subsection \<open>Subscriptions\<close>

text \<open>\<open>sub.save()\<close>, and \<open>sub.save(update_fields=["status", "grace_period_end", "updated_at"])\<close>.\<close>

definition save_subscription :: "instant \<Rightarrow> subscription \<Rightarrow> (db, unit) op" where
  "save_subscription now sub s =
     (if qs_exists (\<lambda>r. sb_id r \<noteq> sb_id sub \<and>
           (sb_tenant r = sb_tenant sub \<or> sb_stripe_customer_id r = sb_stripe_customer_id sub \<or>
            (sb_stripe_subscription_id r \<noteq> None \<and>
             sb_stripe_subscription_id r = sb_stripe_subscription_id sub))) (subscriptions s)
      then (Inl IntegrityError, s)
      else (Inr (), s\<lparr>subscriptions :=
              qs_update (\<lambda>r. sb_id r = sb_id sub) (\<lambda>_. sub\<lparr>sb_updated_at := now\<rparr>) (subscriptions s)\<rparr>))"

definition save_status :: "instant \<Rightarrow> subscription \<Rightarrow> (db, unit) op" where
  "save_status now sub s =
     (Inr (), s\<lparr>subscriptions := qs_update (\<lambda>r. sb_id r = sb_id sub)
        (\<lambda>r. r\<lparr>sb_status := sb_status sub, sb_grace_period_end := sb_grace_period_end sub,
              sb_updated_at := now\<rparr>) (subscriptions s)\<rparr>)"

definition is_access_allowed :: "instant \<Rightarrow> subscription \<Rightarrow> bool" where
  "is_access_allowed now sub =
     (if sb_status sub \<in> {''active'', ''trialing''} then True
      else if sb_status sub = ''past_due''
      then (case sb_grace_period_end sub of Some g \<Rightarrow> now < g | None \<Rightarrow> False)
      else False)"

definition GRACE_PERIOD_DAYS :: int where "GRACE_PERIOD_DAYS = 7"

definition grace_until :: "instant \<Rightarrow> instant" where
  "grace_until now = now + GRACE_PERIOD_DAYS * 86400"

subsection \<open>Event handlers\<close>

definition on_subscription_created :: "instant \<Rightarrow> stripe_object \<Rightarrow> (db, unit) op" where
  "on_subscription_created now obj s =
     (let stripe_sub_id = str_get (so_id obj) [];
          customer_id = str_get (so_customer obj) [];
          status = str_get (so_status obj) ''active''
      in case qs_first (\<lambda>r. - sb_created_at r) (\<lambda>r. sb_stripe_customer_id r = customer_id)
                (subscriptions s) of
           None \<Rightarrow> (Inr (), s)
         | Some sub \<Rightarrow>
             (case save_subscription now
                     (apply_period (sub\<lparr>sb_stripe_subscription_id := Some stripe_sub_id,
                        sb_status := status, sb_stripe_price_id := first_price_id obj\<rparr>) obj) s of
                (Inl e, s') \<Rightarrow> (Inl e, s)
              | (Inr _, s') \<Rightarrow>
                  (Inr (), AuditService_log now ''subscription_created'' None (Some (sb_tenant sub)) None
                     ''Subscription'' (sb_id sub) [(''status'', status), (''stripe_sub_id'', stripe_sub_id)] s')))"

definition on_subscription_updated :: "instant \<Rightarrow> stripe_object \<Rightarrow> (db, unit) op" where
  "on_subscription_updated now obj s =
     (case qs_get (\<lambda>r. sb_stripe_subscription_id r = Some (str_get (so_id obj) [])) (subscriptions s) of
        Inl e \<Rightarrow> if e = DoesNotExist then (Inr (), s) else (Inl e, s)
      | Inr sub \<Rightarrow>
          atomic (save_subscription now
            (apply_period (sub\<lparr>sb_status := str_get (so_status obj) ''active'',
               sb_cancel_at_period_end := (case so_cancel_at_period_end obj of Some b \<Rightarrow> b | None \<Rightarrow> False)\<rparr>)
               obj)) s)"

definition on_subscription_canceled :: "instant \<Rightarrow> stripe_object \<Rightarrow> (db, unit) op" where
  "on_subscription_canceled now obj s =
     (case qs_get (\<lambda>r. sb_stripe_subscription_id r = Some (str_get (so_id obj) [])) (subscriptions s) of
        Inl e \<Rightarrow> if e = DoesNotExist then (Inr (), s) else (Inl e, s)
      | Inr sub \<Rightarrow>
          (case save_status now (sub\<lparr>sb_status := ''canceled'', sb_grace_period_end := None\<rparr>) s of
             (Inl e, s') \<Rightarrow> (Inl e, s)
           | (Inr _, s') \<Rightarrow>
               (Inr (), AuditService_log now ''subscription_canceled'' None (Some (sb_tenant sub)) None
                  ''Subscription'' (sb_id sub) [] s')))"

definition on_payment_succeeded :: "instant \<Rightarrow> stripe_object \<Rightarrow> (db, unit) op" where
  "on_payment_succeeded now obj s =
     (let stripe_sub_id = str_get (so_subscription obj) []
      in if stripe_sub_id = [] then (Inr (), s)
         else case qs_get (\<lambda>r. sb_stripe_subscription_id r = Some stripe_sub_id) (subscriptions s) of
                Inl e \<Rightarrow> if e = DoesNotExist then (Inr (), s) else (Inl e, s)
              | Inr sub \<Rightarrow>
                  atomic (save_status now (sub\<lparr>sb_status := ''active'', sb_grace_period_end := None\<rparr>)) s)"

definition on_payment_failed :: "instant \<Rightarrow> stripe_object \<Rightarrow> (db, unit) op" where
  "on_payment_failed now obj s =
     (let stripe_sub_id = str_get (so_subscription obj) []
      in if stripe_sub_id = [] then (Inr (), s)
         else case qs_get (\<lambda>r. sb_stripe_subscription_id r = Some stripe_sub_id) (subscriptions s) of
                Inl e \<Rightarrow> if e = DoesNotExist then (Inr (), s) else (Inl e, s)
              | Inr sub \<Rightarrow>
                  (case atomic (save_status now (sub\<lparr>sb_status := ''past_due'',
                           sb_grace_period_end := Some (grace_until now)\<rparr>)) s of
                     (Inl e, s') \<Rightarrow> (Inl e, s')
                   | (Inr _, s') \<Rightarrow> delay (Send_dunning_email (sb_tenant sub)) s'))"

definition on_trial_ending :: "stripe_object \<Rightarrow> (db, unit) op" where
  "on_trial_ending obj s = (Inr (), s)"

definition process_event :: "instant \<Rightarrow> string \<Rightarrow> stripe_object \<Rightarrow> (db, unit) op" where
  "process_event now event_type obj s =
     (if event_type = ''customer.subscription.created'' then on_subscription_created now obj s
      else if event_type = ''customer.subscription.updated'' then on_subscription_updated now obj s
      else if event_type = ''customer.subscription.deleted'' then on_subscription_canceled now obj s
      else if event_type = ''invoice.payment_succeeded'' then on_payment_succeeded now obj s
      else if event_type = ''invoice.payment_failed'' then on_payment_failed now obj s
      else if event_type = ''customer.subscription.trial_will_end'' then on_trial_ending obj s
      else (Inr (), s))"

text \<open>The task: any exception asks for a retry, at most five times.\<close>

definition handle_stripe_event :: "instant \<Rightarrow> string \<Rightarrow> string \<Rightarrow> stripe_object \<Rightarrow> (db, string) op" where
  "handle_stripe_event now event_id event_type obj s =
     (case with_retries 5 (process_event now event_type obj) s of
        (Inl e, s') \<Rightarrow> (Inl e, s')
      | (Inr _, s') \<Rightarrow> (Inr (''stripe_event:processed:'' @ event_id), s'))"

subsection \<open>The webhook endpoint\<close>

definition HANDLED_EVENTS :: "string list" where
  "HANDLED_EVENTS =
     [''customer.subscription.created'', ''customer.subscription.updated'',
      ''customer.subscription.deleted'', ''invoice.payment_succeeded'', ''invoice.payment_failed'',
      ''customer.subscription.trial_will_end'']"

datatype verified = Bad_payload | Bad_signature | Event string string stripe_object

definition StripeWebhookView_post ::
  "(string \<Rightarrow> string \<Rightarrow> string \<Rightarrow> verified) \<Rightarrow> string \<Rightarrow> instant \<Rightarrow> string \<Rightarrow> request \<Rightarrow> db \<Rightarrow>
   string response \<times> db" where
  "StripeWebhookView_post construct_event webhook_secret now body rq s =
     (let sig_header = str_get (rq_META rq ''HTTP_STRIPE_SIGNATURE'') []
      in if webhook_secret = [] then (Response 500 ''misconfigured'', s)
         else case construct_event body sig_header webhook_secret of
                Bad_payload \<Rightarrow> (Response 400 ''invalid_payload'', s)
              | Bad_signature \<Rightarrow> (Response 400 ''invalid_signature'', s)
              | Event event_id event_type obj \<Rightarrow>
                  if event_type \<notin> set HANDLED_EVENTS then (Response 200 ''ignored'', s)
                  else
                    case get_or_create (\<lambda>w. we_stripe_event_id w = event_id)
                           \<lparr>we_stripe_event_id = event_id, we_event_type = event_type,
                            we_processed_at = now, we_payload = obj\<rparr> (webhook_events s) of
                      (Inl e, _) \<Rightarrow> (Uncaught e, s)
                    | (Inr (_, created), ws) \<Rightarrow>
                        (let s1 = s\<lparr>webhook_events := ws\<rparr>
                         in if \<not> created then (Response 200 ''duplicate'', s1)
                            else (case delay (Handle_stripe_event event_id event_type obj) s1 of
                                    (Inl e, s2) \<Rightarrow> (Uncaught e, s2)
                                  | (Inr _, s2) \<Rightarrow> (Response 200 ''queued'', s2))))"

subsection \<open>Plan limits\<close>

definition is_unlimited_members :: "plan \<Rightarrow> bool" where
  "is_unlimited_members p \<longleftrightarrow> pl_max_members p = 0"

definition is_unlimited_storage :: "plan \<Rightarrow> bool" where
  "is_unlimited_storage p \<longleftrightarrow> pl_max_storage_mb p = 0"

definition get_plan :: "tenant \<Rightarrow> db \<Rightarrow> plan option" where
  "get_plan t s =
     (case subscription_of s (tn_id t) of
        None \<Rightarrow> None
      | Some sub \<Rightarrow> (case sb_plan sub of None \<Rightarrow> None | Some p \<Rightarrow> plan_of s p))"

definition get_member_count :: "tenant \<Rightarrow> db \<Rightarrow> nat" where
  "get_member_count t s = qs_count (\<lambda>r. ur_tenant r = tn_id t) (roles s)"

definition member_limit_message :: "plan \<Rightarrow> string" where
  "member_limit_message p =
     ''Your plan allows up to '' @ str_nat (pl_max_members p) @ '' member(s). '' @
     ''Upgrade your plan to add more members.''"

definition check_member_limit :: "tenant \<Rightarrow> db \<Rightarrow> exn + unit" where
  "check_member_limit t s =
     (case get_plan t s of
        None \<Rightarrow> Inr ()
      | Some p \<Rightarrow>
          if is_unlimited_members p then Inr ()
          else if pl_max_members p \<le> get_member_count t s
          then Inl (PlanLimitExceededError (member_limit_message p))
          else Inr ())"

subsection \<open>Mail tasks\<close>

text \<open>
  \<open>date_text\<close> is \<open>strftime("%B %d, %Y")\<close>; \<open>send\<close> the mail backend, which accepts a
  message or raises. The HTML alternative of a message is not modelled, and the dash of the
  second subject is written with a hyphen. The tasks read the
  database only; the outcome is the task's result and what was handed to the backend.
\<close>

definition tenant_owner :: "tenant \<Rightarrow> db \<Rightarrow> user option" where
  "tenant_owner t s =
     (case filter (\<lambda>r. ur_tenant r = tn_id t \<and> ur_role r = ''owner'')
             (sort_key (\<lambda>r. - ur_created_at r) (roles s)) of
        [] \<Rightarrow> None
      | r # _ \<Rightarrow> user_of s (ur_user r))"

definition has_owner :: "tenant \<Rightarrow> db \<Rightarrow> bool" where
  "has_owner t s = qs_exists (\<lambda>r. ur_tenant r = tn_id t \<and> ur_role r = ''owner'') (roles s)"

definition send_dunning_email ::
  "(instant \<Rightarrow> string) \<Rightarrow> (mail \<Rightarrow> bool) \<Rightarrow> string \<Rightarrow> uuid \<Rightarrow> db \<Rightarrow> (exn + string) \<times> mail list" where
  "send_dunning_email date_text accepts billing_url tenant_id s =
     (case qs_get (\<lambda>t. tn_id t = tenant_id) (tenants s) of
        Inl e \<Rightarrow> (Inl e, [])
      | Inr t \<Rightarrow>
          if \<not> has_owner t s then (Inr (''dunning:no_owner:'' @ tenant_id), [])
          else case tenant_owner t s of
            None \<Rightarrow> (Inl DoesNotExist, [])
          | Some u \<Rightarrow>
              (let grace_end = (case subscription_of s (tn_id t) of
                                  Some sub \<Rightarrow> (case sb_grace_period_end sub of
                                                 Some g \<Rightarrow> date_text g | None \<Rightarrow> ''soon'')
                                | None \<Rightarrow> ''soon'');
                   user_name = str_or (full_name u) (us_username u)
               in send_mail accepts
                    \<lparr>ml_to = [us_email u],
                     ml_subject = ''Action required: Payment failed for '' @ tn_name t,
                     ml_body = ''Hi '' @ user_name @ '',\<newline>\<newline>Your recent payment failed for '' @ tn_name t @
                       ''.\<newline>Please update your payment method before '' @ grace_end @
                       '' to avoid service interruption.\<newline>\<newline>Update here: '' @ billing_url\<rparr>
                    (''dunning:sent:'' @ tenant_id)))"

definition send_trial_ending_email ::
  "(instant \<Rightarrow> string) \<Rightarrow> (mail \<Rightarrow> bool) \<Rightarrow> string \<Rightarrow> uuid \<Rightarrow> nat \<Rightarrow> db \<Rightarrow> (exn + string) \<times> mail list" where
  "send_trial_ending_email date_text accepts billing_url tenant_id days_remaining s =
     (case qs_get (\<lambda>t. tn_id t = tenant_id) (tenants s) of
        Inl e \<Rightarrow> (Inl e, [])
      | Inr t \<Rightarrow>
          if \<not> has_owner t s then (Inr (''trial_ending:no_owner:'' @ tenant_id), [])
          else case tenant_owner t s of
            None \<Rightarrow> (Inl DoesNotExist, [])
          | Some u \<Rightarrow>
              (let trial_end = (case subscription_of s (tn_id t) of
                                  Some sub \<Rightarrow> (case sb_trial_end sub of
                                                 Some g \<Rightarrow> date_text g | None \<Rightarrow> ''soon'')
                                | None \<Rightarrow> ''soon'');
                   user_name = str_or (full_name u) (us_username u)
               in send_mail accepts
                    \<lparr>ml_to = [us_email u],
                     ml_subject = ''Your trial ends in '' @ str_nat days_remaining @ '' day(s) - '' @ tn_name t,
                     ml_body = ''Hi '' @ user_name @ '',\<newline>\<newline>Your free trial for '' @ tn_name t @
                       '' ends in '' @ str_nat days_remaining @ '' day(s) on '' @ trial_end @
                       ''.\<newline>Add a payment method here to continue: '' @ billing_url\<rparr>
                    (''trial_ending:sent:'' @ tenant_id)))"

subsection \<open>Subscriptions are unique\<close>

definition subs_ok :: "db \<Rightarrow> bool" where
  "subs_ok s \<longleftrightarrow> tbl_ok sb_id (subscriptions s) \<and> tbl_ok sb_tenant (subscriptions s) \<and>
     tbl_ok sb_stripe_customer_id (subscriptions s) \<and>
     (\<forall>a\<in>set (subscriptions s). \<forall>b\<in>set (subscriptions s).
        sb_stripe_subscription_id a \<noteq> None \<and> sb_stripe_subscription_id a = sb_stripe_subscription_id b
        \<longrightarrow> sb_id a = sb_id b)"

interpretation sub_tbl: keyed_table sb_id "tbl_lookup sb_id" "tbl_upsert sb_id" "tbl_remove sb_id" "tbl_ok sb_id"
  by (rule list_keyed_table)

text \<open>What the access rule reads of the subscription with a given id.\<close>

definition access_state :: "db \<Rightarrow> uuid \<Rightarrow> (string \<times> instant option) option" where
  "access_state s i =
     map_option (\<lambda>r. (sb_status r, sb_grace_period_end r)) (tbl_lookup sb_id (subscriptions s) i)"

lemma subs_ok_subscriptions: "subscriptions s' = subscriptions s \<Longrightarrow> subs_ok s' = subs_ok s"
  by (simp add: subs_ok_def)

lemma access_state_subscriptions: "subscriptions s' = subscriptions s \<Longrightarrow> access_state s' = access_state s"
  by (simp add: access_state_def fun_eq_iff)

lemma subs_ok_same:
  "subs_ok s \<Longrightarrow> a \<in> set (subscriptions s) \<Longrightarrow> b \<in> set (subscriptions s) \<Longrightarrow> sb_id a = sb_id b \<Longrightarrow> a = b"
  unfolding subs_ok_def tbl_ok_def by (meson distinct_map inj_onD)

text \<open>The one write of every handler: the row of one subscription is replaced.\<close>

lemma replace_subscription:
  assumes ok: "subs_ok s" and mem: "sub \<in> set (subscriptions s)"
    and new: "sb_id new = sb_id sub" "sb_tenant new = sb_tenant sub"
      "sb_stripe_customer_id new = sb_stripe_customer_id sub"
    and free: "\<And>r. r \<in> set (subscriptions s) \<Longrightarrow> sb_id r \<noteq> sb_id sub \<Longrightarrow>
      sb_stripe_subscription_id r \<noteq> None \<Longrightarrow> sb_stripe_subscription_id r \<noteq> sb_stripe_subscription_id new"
    and s': "subscriptions s' = qs_update (\<lambda>r. sb_id r = sb_id sub) (\<lambda>_. new) (subscriptions s)"
  shows "subs_ok s' \<and>
    access_state s' = (access_state s)(sb_id sub \<mapsto> (sb_status new, sb_grace_period_end new))"
proof
  let ?f = "\<lambda>r. if sb_id r = sb_id sub then new else r"
  have eq: "sb_id r = sb_id sub \<Longrightarrow> r \<in> set (subscriptions s) \<Longrightarrow> r = sub" for r
    using subs_ok_same [OF ok _ mem] by blast
  have keep: "map g (subscriptions s') = map g (subscriptions s)" if "g new = g sub" for g :: "subscription \<Rightarrow> 'x"
    unfolding s' by (rule map_qs_update) (use eq that in auto)
  have uniq: "sb_id a = sb_id b"
    if "a \<in> set (subscriptions s')" "b \<in> set (subscriptions s')"
      "sb_stripe_subscription_id a \<noteq> None" "sb_stripe_subscription_id a = sb_stripe_subscription_id b" for a b
  proof -
    note ab = that
    obtain x y where xy: "x \<in> set (subscriptions s)" "y \<in> set (subscriptions s)" "a = ?f x" "b = ?f y"
      using ab(1,2) by (auto simp: s')
    consider "sb_id x = sb_id sub" "sb_id y = sb_id sub" | "sb_id x = sb_id sub" "sb_id y \<noteq> sb_id sub"
      | "sb_id x \<noteq> sb_id sub" "sb_id y = sb_id sub" | "sb_id x \<noteq> sb_id sub" "sb_id y \<noteq> sb_id sub" by blast
    then show ?thesis
    proof cases
      case 4
      then have "a = x" "b = y" using xy by simp_all
      with xy ab ok show ?thesis unfolding subs_ok_def by metis
    next
      case 2
      then have "a = new" "b = y" using xy by simp_all
      with 2 xy(2) ab(3,4) free [of y] show ?thesis by metis
    next
      case 3
      then have "a = x" "b = new" using xy by simp_all
      with 3 xy(1) ab(3,4) free [of x] show ?thesis by metis
    qed (use xy in simp)
  qed
  show "subs_ok s'"
    unfolding subs_ok_def tbl_ok_def keep [OF new(1)] keep [OF new(2)] keep [OF new(3)]
  proof (intro conjI ballI impI)
    fix a b assume "a \<in> set (subscriptions s')" "b \<in> set (subscriptions s')"
      "sb_stripe_subscription_id a \<noteq> None \<and> sb_stripe_subscription_id a = sb_stripe_subscription_id b"
    then show "sb_id a = sb_id b" by (elim conjE) (rule uniq)
  qed (use ok in \<open>simp_all add: subs_ok_def tbl_ok_def\<close>)
next
  have up: "tbl_lookup sb_id (subscriptions s') i =
      map_option (\<lambda>r. if sb_id r = sb_id sub then new else r) (tbl_lookup sb_id (subscriptions s) i)" for i
    unfolding s' by (rule tbl_lookup_update) (simp add: new(1))
  have at: "tbl_lookup sb_id (subscriptions s) (sb_id sub) = Some sub"
    using mem ok by (simp add: subs_ok_def tbl_lookup_Some)
  have key: "tbl_lookup sb_id (subscriptions s) i = Some r \<Longrightarrow> sb_id r = i" for i r
    by (rule sub_tbl.lookup_key)
  have "access_state s' i = ((access_state s)(sb_id sub \<mapsto> (sb_status new, sb_grace_period_end new))) i" for i
    using at key [of i] by (cases "tbl_lookup sb_id (subscriptions s) i") (auto simp: access_state_def up)
  then show "access_state s' = (access_state s)(sb_id sub \<mapsto> (sb_status new, sb_grace_period_end new))"
    by blast
qed

lemma access_state_row:
  "subs_ok s \<Longrightarrow> x \<in> set (subscriptions s) \<Longrightarrow>
     access_state s (sb_id x) = Some (sb_status x, sb_grace_period_end x)"
proof -
  assume "subs_ok s" "x \<in> set (subscriptions s)"
  then have "tbl_lookup sb_id (subscriptions s) (sb_id x) = Some x"
    by (simp add: subs_ok_def tbl_lookup_Some)
  then show ?thesis by (simp add: access_state_def)
qed

text \<open>
  The contract of one handler: \<open>C\<close> says which subscription an event is about, \<open>v\<close> the
  access state it leaves there; every other subscription keeps its own.
\<close>

definition moves_access ::
  "(subscription \<Rightarrow> bool) \<Rightarrow> (subscription \<Rightarrow> string \<times> instant option) \<Rightarrow> db \<Rightarrow> db \<Rightarrow> bool" where
  "moves_access C v s s' \<longleftrightarrow> subs_ok s' \<and>
     (\<forall>x\<in>set (subscriptions s). access_state s' (sb_id x) =
        Some (if C x then v x else (sb_status x, sb_grace_period_end x)))"

lemma moves_access_none:
  "\<lbrakk>subs_ok s; \<And>x. x \<in> set (subscriptions s) \<Longrightarrow> \<not> C x; subscriptions s' = subscriptions s\<rbrakk> \<Longrightarrow>
     moves_access C v s s'"
  by (simp add: moves_access_def access_state_row access_state_subscriptions [of s' s]
      subs_ok_subscriptions [of s' s])

lemma moves_access_one:
  assumes ok: "subs_ok s" and mem: "sub \<in> set (subscriptions s)"
    and C: "\<forall>x\<in>set (subscriptions s). C x \<longleftrightarrow> sb_id x = sb_id sub"
    and new: "sb_id new = sb_id sub" "sb_tenant new = sb_tenant sub"
      "sb_stripe_customer_id new = sb_stripe_customer_id sub"
    and free: "\<And>r. r \<in> set (subscriptions s) \<Longrightarrow> sb_id r \<noteq> sb_id sub \<Longrightarrow>
      sb_stripe_subscription_id r \<noteq> None \<Longrightarrow> sb_stripe_subscription_id r \<noteq> sb_stripe_subscription_id new"
    and s': "subscriptions s' = qs_update (\<lambda>r. sb_id r = sb_id sub) (\<lambda>_. new) (subscriptions s)"
    and v: "v sub = (sb_status new, sb_grace_period_end new)"
  shows "moves_access C v s s'"
proof -
  note rs = replace_subscription [OF ok mem new free s']
  then have "access_state s' = (access_state s)(sb_id sub \<mapsto> v sub)" by (simp add: v)
  moreover have "x = sub" if "x \<in> set (subscriptions s)" "sb_id x = sb_id sub" for x
    using subs_ok_same [OF ok that(1) mem that(2)] .
  ultimately show ?thesis
    unfolding moves_access_def using rs C access_state_row [OF ok] by auto
qed

lemma other_subscription_id:
  assumes "subs_ok s" and "sub \<in> set (subscriptions s)"
    and "r \<in> set (subscriptions s)" "sb_id r \<noteq> sb_id sub" "sb_stripe_subscription_id r \<noteq> None"
  shows "sb_stripe_subscription_id r \<noteq> sb_stripe_subscription_id sub"
  using assms unfolding subs_ok_def by metis

lemma by_subscription_id_cases [consumes 1, case_names None One]:
  assumes ok: "subs_ok s"
    and "qs_get (\<lambda>r. sb_stripe_subscription_id r = Some i) (subscriptions s) = Inl DoesNotExist \<Longrightarrow>
      (\<forall>r\<in>set (subscriptions s). sb_stripe_subscription_id r \<noteq> Some i) \<Longrightarrow> Q"
    and "\<And>sub. qs_get (\<lambda>r. sb_stripe_subscription_id r = Some i) (subscriptions s) = Inr sub \<Longrightarrow>
      sub \<in> set (subscriptions s) \<Longrightarrow> sb_stripe_subscription_id sub = Some i \<Longrightarrow>
      (\<forall>x\<in>set (subscriptions s). sb_stripe_subscription_id x = Some i \<longleftrightarrow> sb_id x = sb_id sub) \<Longrightarrow> Q"
  shows Q
proof (rule qs_get_unique_cases [of sb_id "subscriptions s" "\<lambda>r. sb_stripe_subscription_id r = Some i"])
  show "distinct (map sb_id (subscriptions s))" using ok by (simp add: subs_ok_def tbl_ok_def)
  show "sb_id a = sb_id b" if "a \<in> set (subscriptions s)" "b \<in> set (subscriptions s)"
    "sb_stripe_subscription_id a = Some i" "sb_stripe_subscription_id b = Some i" for a b
    using that other_subscription_id [OF ok that(2,1)] by force
qed (use assms(2,3) in auto)

text \<open>\<open>save_status\<close> on a row that was read.\<close>

lemma save_status_moves:
  assumes ok: "subs_ok s" and mem: "sub \<in> set (subscriptions s)"
    and C: "\<forall>x\<in>set (subscriptions s). C x \<longleftrightarrow> sb_id x = sb_id sub"
    and st: "subscriptions s' = subscriptions (snd (save_status now (sub\<lparr>sb_status := st, sb_grace_period_end := g\<rparr>) s))"
    and v: "v sub = (st, g)"
  shows "moves_access C v s s'"
proof (rule moves_access_one [OF ok mem C, where new = "sub\<lparr>sb_status := st, sb_grace_period_end := g,
      sb_updated_at := now\<rparr>"])
  show "subscriptions s' = qs_update (\<lambda>r. sb_id r = sb_id sub)
      (\<lambda>_. sub\<lparr>sb_status := st, sb_grace_period_end := g, sb_updated_at := now\<rparr>) (subscriptions s)"
    unfolding st save_status_def
    by (simp, rule qs_update_cong) (use subs_ok_same [OF ok _ mem] in auto)
qed (simp_all add: v other_subscription_id [OF ok mem])

lemma save_subscription_moves:
  assumes ok: "subs_ok s" and mem: "sub \<in> set (subscriptions s)"
    and C: "\<forall>x\<in>set (subscriptions s). C x \<longleftrightarrow> sb_id x = sb_id sub"
    and new: "sb_id new = sb_id sub" "sb_tenant new = sb_tenant sub"
      "sb_stripe_customer_id new = sb_stripe_customer_id sub"
    and run: "save_subscription now new s = (r, s')" and v: "v sub = (sb_status new, sb_grace_period_end new)"
    and s'': "subscriptions s'' = subscriptions s'"
  shows "(r = Inr () \<and> moves_access C v s s'') \<or> (r = Inl IntegrityError \<and> s' = s)"
proof (cases "r = Inr ()")
  case True
  have "moves_access C v s s''"
  proof (rule moves_access_one [OF ok mem C, where new = "new\<lparr>sb_updated_at := now\<rparr>"])
    show "subscriptions s'' = qs_update (\<lambda>r. sb_id r = sb_id sub) (\<lambda>_. new\<lparr>sb_updated_at := now\<rparr>) (subscriptions s)"
      using run True by (auto simp: s'' save_subscription_def new split: if_splits)
    show "sb_stripe_subscription_id x \<noteq> sb_stripe_subscription_id (new\<lparr>sb_updated_at := now\<rparr>)"
      if "x \<in> set (subscriptions s)" "sb_id x \<noteq> sb_id sub" "sb_stripe_subscription_id x \<noteq> None" for x
      using run True that by (auto simp: save_subscription_def new split: if_splits)
  qed (simp_all add: new v)
  with True show ?thesis by blast
next
  case False
  with run show ?thesis by (auto simp: save_subscription_def split: if_splits)
qed

subsection \<open>What an event is about and what it does to access\<close>

definition concerns :: "string \<Rightarrow> stripe_object \<Rightarrow> subscription \<Rightarrow> bool" where
  "concerns event_type obj sub \<longleftrightarrow>
     (if event_type = ''customer.subscription.created''
      then sb_stripe_customer_id sub = str_get (so_customer obj) []
      else if event_type \<in> {''customer.subscription.updated'', ''customer.subscription.deleted''}
      then sb_stripe_subscription_id sub = Some (str_get (so_id obj) [])
      else if event_type \<in> {''invoice.payment_succeeded'', ''invoice.payment_failed''}
      then str_get (so_subscription obj) [] \<noteq> [] \<and>
           sb_stripe_subscription_id sub = Some (str_get (so_subscription obj) [])
      else False)"

definition next_access :: "instant \<Rightarrow> string \<Rightarrow> stripe_object \<Rightarrow> subscription \<Rightarrow> string \<times> instant option" where
  "next_access now event_type obj sub =
     (if event_type = ''customer.subscription.deleted'' then (''canceled'', None)
      else if event_type = ''invoice.payment_succeeded'' then (''active'', None)
      else if event_type = ''invoice.payment_failed'' then (''past_due'', Some (now + 604800))
      else (str_get (so_status obj) ''active'', sb_grace_period_end sub))"

lemma created_effect:
  assumes ok: "subs_ok s" and run: "on_subscription_created now obj s = (r, s')"
    and C: "\<And>x. C x \<longleftrightarrow> sb_stripe_customer_id x = str_get (so_customer obj) []"
    and v: "\<And>x. v x = (str_get (so_status obj) ''active'', sb_grace_period_end x)"
  shows "(r = Inr () \<and> moves_access C v s s') \<or> (r = Inl IntegrityError \<and> s' = s)"
proof (cases "qs_first (\<lambda>r. - sb_created_at r) (\<lambda>r. sb_stripe_customer_id r = str_get (so_customer obj) [])
    (subscriptions s)")
  case None
  then have "\<And>x. x \<in> set (subscriptions s) \<Longrightarrow> \<not> C x" by (simp add: C)
  moreover have "r = Inr () \<and> s' = s"
    using run unfolding on_subscription_created_def Let_def None by simp
  ultimately show ?thesis using moves_access_none [OF ok, of C s' v] by simp
next
  case (Some sub)
  then have mem: "sub \<in> set (subscriptions s)" "sb_stripe_customer_id sub = str_get (so_customer obj) []"
    by (auto dest: qs_first_Some)
  have "inj_on sb_stripe_customer_id (set (subscriptions s))"
    using ok by (simp add: subs_ok_def tbl_ok_def distinct_map)
  then have Ceq: "\<forall>x\<in>set (subscriptions s). C x \<longleftrightarrow> sb_id x = sb_id sub"
    using mem subs_ok_same [OF ok _ mem(1)] unfolding C inj_on_def by metis
  let ?new = "apply_period (sub\<lparr>sb_stripe_subscription_id := Some (str_get (so_id obj) []),
    sb_status := str_get (so_status obj) ''active'', sb_stripe_price_id := first_price_id obj\<rparr>) obj"
  obtain r1 s1 where s1: "save_subscription now ?new s = (r1, s1)" by (cases "save_subscription now ?new s")
  have "subscriptions s' = subscriptions s1 \<or> r1 \<noteq> Inr ()"
    using run Some s1 by (auto simp: on_subscription_created_def split: sum.splits)
  moreover have "(r1 = Inr () \<and> moves_access C v s s'') \<or> (r1 = Inl IntegrityError \<and> s1 = s)"
    if "subscriptions s'' = subscriptions s1" for s''
    by (rule save_subscription_moves [OF ok mem(1) Ceq _ _ _ s1 _ that]) (simp_all add: apply_period_def v)
  ultimately show ?thesis
    using run Some s1 by (auto simp: on_subscription_created_def split: sum.splits)
qed

lemma updated_effect:
  assumes ok: "subs_ok s" and run: "on_subscription_updated now obj s = (r, s')"
    and C: "\<And>x. C x \<longleftrightarrow> sb_stripe_subscription_id x = Some (str_get (so_id obj) [])"
    and v: "\<And>x. v x = (str_get (so_status obj) ''active'', sb_grace_period_end x)"
  shows "r = Inr () \<and> moves_access C v s s'"
  using ok
proof (cases rule: by_subscription_id_cases [where i = "str_get (so_id obj) []"])
  case None
  have "r = Inr () \<and> s' = s" using run None(1) by (simp add: on_subscription_updated_def)
  moreover have "moves_access C v s s" by (rule moves_access_none [OF ok]) (use None(2) in \<open>simp_all add: C\<close>)
  ultimately show ?thesis by simp
next
  case (One sub)
  let ?new = "apply_period (sub\<lparr>sb_status := str_get (so_status obj) ''active'',
    sb_cancel_at_period_end := (case so_cancel_at_period_end obj of Some b \<Rightarrow> b | None \<Rightarrow> False)\<rparr>) obj"
  have Ceq: "\<forall>x\<in>set (subscriptions s). C x \<longleftrightarrow> sb_id x = sb_id sub" using One(4) by (simp add: C)
  obtain r1 s1 where s1: "save_subscription now ?new s = (r1, s1)" by (cases "save_subscription now ?new s")
  have "\<not> qs_exists (\<lambda>r. sb_id r \<noteq> sb_id sub \<and>
      (sb_tenant r = sb_tenant sub \<or> sb_stripe_customer_id r = sb_stripe_customer_id sub \<or>
       (sb_stripe_subscription_id r \<noteq> None \<and>
        sb_stripe_subscription_id r = sb_stripe_subscription_id sub))) (subscriptions s)"
  proof -
    have "inj_on sb_tenant (set (subscriptions s))" "inj_on sb_stripe_customer_id (set (subscriptions s))"
      using ok by (simp_all add: subs_ok_def tbl_ok_def distinct_map)
    then show ?thesis
      using One(2) other_subscription_id [OF ok One(2)] unfolding qs_exists_iff inj_on_def by metis
  qed
  moreover have new: "sb_id ?new = sb_id sub" "sb_tenant ?new = sb_tenant sub"
    "sb_stripe_customer_id ?new = sb_stripe_customer_id sub"
    "sb_stripe_subscription_id ?new = sb_stripe_subscription_id sub"
    by (simp_all add: apply_period_def)
  ultimately have "fst (save_subscription now ?new s) = Inr ()"
    unfolding save_subscription_def new by (simp only: if_False fst_conv)
  then have r1: "r1 = Inr ()" using s1 by simp
  have "(r1 = Inr () \<and> moves_access C v s s1) \<or> (r1 = Inl IntegrityError \<and> s1 = s)"
    by (rule save_subscription_moves [OF ok One(2) Ceq _ _ _ s1 _ refl]) (simp_all add: apply_period_def v)
  with r1 have "moves_access C v s s1" by simp
  moreover have "r = Inr () \<and> s' = s1"
    using r1 run One(1) s1 by (simp add: on_subscription_updated_def atomic_def)
  ultimately show ?thesis by simp
qed

lemma canceled_effect:
  assumes ok: "subs_ok s" and run: "on_subscription_canceled now obj s = (r, s')"
    and C: "\<And>x. C x \<longleftrightarrow> sb_stripe_subscription_id x = Some (str_get (so_id obj) [])"
    and v: "\<And>x. v x = (''canceled'', None)"
  shows "r = Inr () \<and> moves_access C v s s'"
  using ok
proof (cases rule: by_subscription_id_cases [where i = "str_get (so_id obj) []"])
  case None
  have "r = Inr () \<and> s' = s" using run None(1) by (simp add: on_subscription_canceled_def)
  moreover have "moves_access C v s s" by (rule moves_access_none [OF ok]) (use None(2) in \<open>simp_all add: C\<close>)
  ultimately show ?thesis by simp
next
  case (One sub)
  have Ceq: "\<forall>x\<in>set (subscriptions s). C x \<longleftrightarrow> sb_id x = sb_id sub" using One(4) by (simp add: C)
  have "r = Inr ()" and "subscriptions s' = subscriptions (snd (save_status now
      (sub\<lparr>sb_status := ''canceled'', sb_grace_period_end := None\<rparr>) s))"
    using run One(1) by (auto simp: on_subscription_canceled_def save_status_def)
  with save_status_moves [OF ok One(2) Ceq this(2), of v] v show ?thesis by simp
qed

lemma succeeded_effect:
  assumes ok: "subs_ok s" and run: "on_payment_succeeded now obj s = (r, s')"
    and C: "\<And>x. C x \<longleftrightarrow> str_get (so_subscription obj) [] \<noteq> [] \<and>
      sb_stripe_subscription_id x = Some (str_get (so_subscription obj) [])"
    and v: "\<And>x. v x = (''active'', None)"
  shows "r = Inr () \<and> moves_access C v s s'"
  using ok
proof (cases rule: by_subscription_id_cases [where i = "str_get (so_subscription obj) []"])
  case None
  have "r = Inr () \<and> s' = s" using run None(1) by (simp add: on_payment_succeeded_def Let_def split: if_splits)
  moreover have "moves_access C v s s" by (rule moves_access_none [OF ok]) (use None(2) in \<open>simp_all add: C\<close>)
  ultimately show ?thesis by simp
next
  case (One sub)
  show ?thesis
  proof (cases "str_get (so_subscription obj) [] = []")
    case True
    have "r = Inr () \<and> s' = s" using run True by (simp add: on_payment_succeeded_def)
    moreover have "moves_access C v s s" by (rule moves_access_none [OF ok]) (simp_all add: C True)
    ultimately show ?thesis by simp
  next
    case False
    have Ceq: "\<forall>x\<in>set (subscriptions s). C x \<longleftrightarrow> sb_id x = sb_id sub" using One(4) False by (simp add: C)
    have "r = Inr ()" and "subscriptions s' = subscriptions (snd (save_status now
        (sub\<lparr>sb_status := ''active'', sb_grace_period_end := None\<rparr>) s))"
      using run One(1) False by (auto simp: on_payment_succeeded_def save_status_def atomic_def)
    with save_status_moves [OF ok One(2) Ceq this(2), of v] v show ?thesis by simp
  qed
qed

lemma failed_effect:
  assumes ok: "subs_ok s" and run: "on_payment_failed now obj s = (r, s')"
    and C: "\<And>x. C x \<longleftrightarrow> str_get (so_subscription obj) [] \<noteq> [] \<and>
      sb_stripe_subscription_id x = Some (str_get (so_subscription obj) [])"
    and v: "\<And>x. v x = (''past_due'', Some (now + 604800))"
  shows "(r = Inr () \<or> (r = Inl BrokerError \<and> \<not> broker_up s)) \<and> moves_access C v s s'"
  using ok
proof (cases rule: by_subscription_id_cases [where i = "str_get (so_subscription obj) []"])
  case None
  have "r = Inr () \<and> s' = s" using run None(1) by (simp add: on_payment_failed_def Let_def split: if_splits)
  moreover have "moves_access C v s s" by (rule moves_access_none [OF ok]) (use None(2) in \<open>simp_all add: C\<close>)
  ultimately show ?thesis by simp
next
  case (One sub)
  show ?thesis
  proof (cases "str_get (so_subscription obj) [] = []")
    case True
    have "r = Inr () \<and> s' = s" using run True by (simp add: on_payment_failed_def)
    moreover have "moves_access C v s s" by (rule moves_access_none [OF ok]) (simp_all add: C True)
    ultimately show ?thesis by simp
  next
    case False
    have Ceq: "\<forall>x\<in>set (subscriptions s). C x \<longleftrightarrow> sb_id x = sb_id sub" using One(4) False by (simp add: C)
    have "r = Inr () \<or> (r = Inl BrokerError \<and> \<not> broker_up s)"
      and "subscriptions s' = subscriptions (snd (save_status now
        (sub\<lparr>sb_status := ''past_due'', sb_grace_period_end := Some (now + 604800)\<rparr>) s))"
      using run One(1) False
      by (auto simp: on_payment_failed_def save_status_def atomic_def delay_def grace_until_def
          GRACE_PERIOD_DAYS_def split: if_splits)
    with save_status_moves [OF ok One(2) Ceq this(2), of v] v show ?thesis by simp
  qed
qed

lemma five_cases:
  "\<lbrakk>x = a \<Longrightarrow> P; x = b \<Longrightarrow> P; x = c \<Longrightarrow> P; x = d \<Longrightarrow> P; x = e \<Longrightarrow> P; x \<notin> {a, b, c, d, e} \<Longrightarrow> P\<rbrakk> \<Longrightarrow> P"
  by blast

lemma process_event_effect:
  assumes ok: "subs_ok s" and run: "process_event now ty obj s = (r, s')"
  shows "(moves_access (concerns ty obj) (next_access now ty obj) s s' \<and>
      (r = Inr () \<or> (r = Inl BrokerError \<and> \<not> broker_up s))) \<or>
    (ty = ''customer.subscription.created'' \<and> r = Inl IntegrityError \<and> s' = s)"
proof -
  have ignored: "moves_access (concerns ty obj) (next_access now ty obj) s s"
    if "\<And>x. \<not> concerns ty obj x"
    by (rule moves_access_none [OF ok]) (use that in auto)
  consider "ty = ''customer.subscription.created''" | "ty = ''customer.subscription.updated''"
    | "ty = ''customer.subscription.deleted''" | "ty = ''invoice.payment_succeeded''"
    | "ty = ''invoice.payment_failed''"
    | "ty \<notin> {''customer.subscription.created'', ''customer.subscription.updated'',
        ''customer.subscription.deleted'', ''invoice.payment_succeeded'', ''invoice.payment_failed''}"
    by (rule five_cases)
  then show ?thesis
  proof cases
    case 1
    with run have "on_subscription_created now obj s = (r, s')" by (simp add: process_event_def)
    from created_effect [OF ok this, of "concerns ty obj" "next_access now ty obj"] 1 show ?thesis
      by (simp add: concerns_def next_access_def) blast
  next
    case 2
    with run have "on_subscription_updated now obj s = (r, s')" by (simp add: process_event_def)
    from updated_effect [OF ok this, of "concerns ty obj" "next_access now ty obj"] 2 show ?thesis
      by (simp add: concerns_def next_access_def)
  next
    case 3
    with run have "on_subscription_canceled now obj s = (r, s')" by (simp add: process_event_def)
    from canceled_effect [OF ok this, of "concerns ty obj" "next_access now ty obj"] 3 show ?thesis
      by (simp add: concerns_def next_access_def)
  next
    case 4
    with run have "on_payment_succeeded now obj s = (r, s')" by (simp add: process_event_def)
    from succeeded_effect [OF ok this, of "concerns ty obj" "next_access now ty obj"] 4 show ?thesis
      by (simp add: concerns_def next_access_def)
  next
    case 5
    with run have "on_payment_failed now obj s = (r, s')" by (simp add: process_event_def)
    from failed_effect [OF ok this, of "concerns ty obj" "next_access now ty obj"] 5 show ?thesis
      by (simp add: concerns_def next_access_def)
  next
    case 6
    then have "r = Inr ()" "s' = s" and "\<And>x. \<not> concerns ty obj x"
      using run by (auto simp: process_event_def on_trial_ending_def concerns_def split: if_splits)
    with ignored show ?thesis by simp
  qed
qed

subsection \<open>Deliveries and the worker\<close>

text \<open>
  The endpoint and the worker together: Stripe delivers (and redelivers) requests in any
  order, the worker takes the oldest task off the queue and runs it. The second component
  records the ids of the events whose processing was started.
\<close>

datatype billing_step_event = Deliver instant string request | Work instant

definition run_task :: "instant \<Rightarrow> celery_task \<Rightarrow> db \<Rightarrow> db" where
  "run_task now t s =
     (case t of
        Handle_stripe_event event_id ty obj \<Rightarrow> snd (handle_stripe_event now event_id ty obj s)
      | _ \<Rightarrow> s)"

definition stripe_ids :: "celery_task list \<Rightarrow> string list" where
  "stripe_ids q = concat (map (\<lambda>t. case t of Handle_stripe_event i _ _ \<Rightarrow> [i] | _ \<Rightarrow> []) q)"

definition billing_step ::
  "(string \<Rightarrow> string \<Rightarrow> string \<Rightarrow> verified) \<Rightarrow> string \<Rightarrow> db \<times> string list \<Rightarrow> billing_step_event \<Rightarrow>
   db \<times> string list" where
  "billing_step construct_event secret w e =
     (case e of
        Deliver now body rq \<Rightarrow>
          (snd (StripeWebhookView_post construct_event secret now body rq (fst w)), snd w)
      | Work now \<Rightarrow>
          (case queue (fst w) of
             [] \<Rightarrow> w
           | t # q \<Rightarrow> (run_task now t ((fst w)\<lparr>queue := q\<rparr>), snd w @ stripe_ids [t])))"

definition billing_inv :: "db \<times> string list \<Rightarrow> bool" where
  "billing_inv w \<longleftrightarrow>
     distinct (map we_stripe_event_id (webhook_events (fst w))) \<and>
     distinct (snd w @ stripe_ids (queue (fst w))) \<and>
     set (snd w @ stripe_ids (queue (fst w))) \<subseteq> we_stripe_event_id ` set (webhook_events (fst w))"

lemma stripe_ids_simps [simp]:
  "stripe_ids [] = []" "stripe_ids (p @ q) = stripe_ids p @ stripe_ids q"
  "stripe_ids [Handle_stripe_event i ty obj] = [i]" "stripe_ids [Send_dunning_email t] = []"
  by (simp_all add: stripe_ids_def)

lemma stripe_ids_Cons: "stripe_ids (t # q) = stripe_ids [t] @ stripe_ids q"
  by (simp add: stripe_ids_def)

lemma process_event_frame:
  "webhook_events (snd (process_event now ty obj s)) = webhook_events s \<and>
   stripe_ids (queue (snd (process_event now ty obj s))) = stripe_ids (queue s)"
  unfolding process_event_def on_subscription_created_def on_subscription_updated_def
    on_subscription_canceled_def on_payment_succeeded_def on_payment_failed_def on_trial_ending_def
    save_subscription_def save_status_def atomic_def delay_def Let_def
  by (auto split: option.splits sum.splits)

lemma handle_event_frame:
  "webhook_events (snd (handle_stripe_event now i ty obj s)) = webhook_events s \<and>
   stripe_ids (queue (snd (handle_stripe_event now i ty obj s))) = stripe_ids (queue s)"
proof -
  have "webhook_events (snd (with_retries 5 (process_event now ty obj) s)) = webhook_events s \<and>
    stripe_ids (queue (snd (with_retries 5 (process_event now ty obj) s))) = stripe_ids (queue s)"
    by (rule with_retries_inv [where I = "\<lambda>s'. webhook_events s' = webhook_events s \<and>
          stripe_ids (queue s') = stripe_ids (queue s)"])
      (use process_event_frame in auto)
  then show ?thesis
    by (cases "with_retries 5 (process_event now ty obj) s")
      (auto simp: handle_stripe_event_def split: sum.splits)
qed

text \<open>What one delivery can do: nothing but record a new event and queue its task.\<close>

lemma webhook_cases [consumes 2, case_names unchanged recorded]:
  assumes "StripeWebhookView_post construct_event secret now body rq s = (resp, s')"
    and "distinct (map we_stripe_event_id (webhook_events s))"
    and "s' = s \<Longrightarrow> P"
    and "\<And>i ty obj. construct_event body (str_get (rq_META rq ''HTTP_STRIPE_SIGNATURE'') []) secret =
        Event i ty obj \<Longrightarrow> i \<notin> we_stripe_event_id ` set (webhook_events s) \<Longrightarrow>
      s' = s\<lparr>webhook_events := webhook_events s @ [\<lparr>we_stripe_event_id = i, we_event_type = ty,
               we_processed_at = now, we_payload = obj\<rparr>],
             queue := queue s @ (if broker_up s then [Handle_stripe_event i ty obj] else [])\<rparr> \<Longrightarrow> P"
  shows P
proof (cases "construct_event body (str_get (rq_META rq ''HTTP_STRIPE_SIGNATURE'') []) secret")
  case (Event i ty obj)
  show ?thesis
    using assms(2)
  proof (cases rule: qs_get_key_cases [where k = i])
    case None
    with assms(1,3,4) Event show ?thesis
      by (auto simp: StripeWebhookView_post_def get_or_create_def delay_def Let_def split: if_splits)
  next
    case (One r)
    with assms(1,3) Event show ?thesis
      by (auto simp: StripeWebhookView_post_def get_or_create_def Let_def split: if_splits)
  qed
qed (use assms(1,3) in \<open>auto simp: StripeWebhookView_post_def Let_def split: if_splits\<close>)

lemma billing_inv_step: "billing_inv w \<Longrightarrow> billing_inv (billing_step c secret w e)"
proof (cases e)
  case (Deliver now body rq)
  assume inv: "billing_inv w"
  then have d: "distinct (map we_stripe_event_id (webhook_events (fst w)))" by (simp add: billing_inv_def)
  obtain resp s' where run: "StripeWebhookView_post c secret now body rq (fst w) = (resp, s')"
    by (cases "StripeWebhookView_post c secret now body rq (fst w)")
  have fresh: "distinct (xs @ ys @ zs)" if "distinct (xs @ ys)" "set (xs @ ys) \<subseteq> A" "i \<notin> A" "zs = [] \<or> zs = [i]"
    for xs ys zs :: "string list" and A i
    using that by (elim disjE) auto
  from run d have "billing_inv (s', snd w)"
  proof (cases rule: webhook_cases)
    case unchanged
    with inv show ?thesis by (simp add: billing_inv_def)
  next
    case (recorded i ty obj)
    with inv fresh [of "snd w" "stripe_ids (queue (fst w))" _ i "if broker_up (fst w) then [i] else []"]
      fresh [of "map we_stripe_event_id (webhook_events (fst w))" "[]" _ i "[i]", OF _ order_refl]
    show ?thesis by (auto simp: billing_inv_def simp del: distinct_append)
  qed
  with run Deliver show ?thesis by (simp add: billing_step_def)
next
  case (Work now)
  assume inv: "billing_inv w"
  show ?thesis
  proof (cases "queue (fst w)")
    case Nil
    with inv Work show ?thesis by (simp add: billing_step_def)
  next
    case (Cons t q)
    have "webhook_events (run_task now t ((fst w)\<lparr>queue := q\<rparr>)) = webhook_events (fst w) \<and>
        stripe_ids (queue (run_task now t ((fst w)\<lparr>queue := q\<rparr>))) = stripe_ids q"
      by (cases t) (simp_all add: run_task_def handle_event_frame)
    with inv Work Cons show ?thesis
      by (simp add: billing_inv_def billing_step_def stripe_ids_Cons [of t q])
  qed
qed

interpretation webhook_machine: preserved "billing_step c secret" "\<lambda>_ _. True" billing_inv for c secret
  by unfold_locales (rule billing_inv_step)

lemma webhook_admitted [simp]: "webhook_machine.admitted c secret w es"
  by (induction es arbitrary: w) simp_all

subsection \<open>Properties\<close>

text \<open>C5. Every Stripe event moves the access state of exactly the subscription it is about, as the
  table of Stripe's event types says, and leaves every other subscription alone; subscriptions stay
  unique. Only a created event can be rejected by a unique column, with nothing written; a failed
  payment is recorded even when its dunning mail cannot be queued.\<close>

theorem billing_events_refine:
  assumes "subs_ok s" and "process_event now ty obj s = (r, s')"
  shows "subs_ok s' \<and>
    (r = Inr () \<or> (r = Inl BrokerError \<and> \<not> broker_up s) \<or>
     (r = Inl IntegrityError \<and> ty = ''customer.subscription.created'' \<and> s' = s)) \<and>
    (\<forall>x\<in>set (subscriptions s). access_state s' (sb_id x) =
       Some (if concerns ty obj x \<and> r \<noteq> Inl IntegrityError then next_access now ty obj x
             else (sb_status x, sb_grace_period_end x)))"
  using process_event_effect [OF assms] access_state_row [OF assms(1)] assms(1)
  by (auto simp: moves_access_def)

definition invoice :: "string \<Rightarrow> stripe_object" where
  "invoice sub_id = \<lparr>so_id = None, so_customer = None, so_status = None, so_subscription = Some sub_id,
     so_items_data = None, so_cancel_at_period_end = None, so_current_period_start = None,
     so_current_period_end = None, so_trial_end = None\<rparr>"

definition billing_db :: "string \<Rightarrow> db" where
  "billing_db status = demo_db\<lparr>plans := [pro_plan],
     subscriptions := [sub_row ''t1'' (Some 1) status, sub_row ''t2'' None ''active'']\<rparr>"

lemma billing_db_simps [simp]:
  "subscriptions (billing_db st) = [sub_row ''t1'' (Some 1) st, sub_row ''t2'' None ''active'']"
  "webhook_events (billing_db st) = []" "queue (billing_db st) = []" "broker_up (billing_db st) = True"
  "subs_ok (billing_db st)"
  by (simp_all add: billing_db_def subs_ok_def tbl_ok_def)

theorem billing_events_refine_witness:
  "access_state (snd (process_event 50 ''invoice.payment_failed'' (invoice ''sub_t1'') (billing_db ''active''))) ''st1''
     = Some (''past_due'', Some 604850)"
proof -
  obtain r s' where run: "process_event 50 ''invoice.payment_failed'' (invoice ''sub_t1'') (billing_db ''active'') = (r, s')"
    by (cases "process_event 50 ''invoice.payment_failed'' (invoice ''sub_t1'') (billing_db ''active'')")
  let ?x = "sub_row ''t1'' (Some 1) ''active''"
  have x: "?x \<in> set (subscriptions (billing_db ''active''))" by simp
  note refine = billing_events_refine [OF billing_db_simps(5) run]
  have c: "concerns ''invoice.payment_failed'' (invoice ''sub_t1'') ?x"
    by (simp add: concerns_def invoice_def str_get_def)
  have n: "next_access 50 ''invoice.payment_failed'' (invoice ''sub_t1'') ?x = (''past_due'', Some 604850)"
    by (simp add: next_access_def)
  have "r \<noteq> Inl IntegrityError"
    using refine [THEN conjunct2, THEN conjunct1] by (elim disjE) simp_all
  then have "access_state s' (sb_id ?x) = Some (''past_due'', Some 604850)"
    using bspec [OF conjunct2 [OF conjunct2 [OF refine]] x] by (simp only: c n simp_thms if_True)
  then show ?thesis by (simp add: run)
qed

text \<open>C18. What an invoice or cancellation means for access, at any later or earlier instant \<open>t\<close>: a
  failed payment leaves access until exactly seven days after it was processed (a later failure
  restarts the period), a cancellation ends access at once even inside a grace period, and a
  successful payment restores it whatever the status was - a canceled subscription included.\<close>

theorem access_after_event:
  assumes ok: "subs_ok s" and run: "process_event now ty obj s = (r, s')"
    and x: "x \<in> set (subscriptions s)" "concerns ty obj x"
    and y: "x' \<in> set (subscriptions s')" "sb_id x' = sb_id x"
    and ty: "ty \<in> {''invoice.payment_failed'', ''customer.subscription.deleted'', ''invoice.payment_succeeded''}"
  shows "is_access_allowed t x' \<longleftrightarrow>
    (if ty = ''invoice.payment_failed'' then t < now + 604800 else ty = ''invoice.payment_succeeded'')"
proof -
  from process_event_effect [OF ok run] ty
  have m: "moves_access (concerns ty obj) (next_access now ty obj) s s'" by auto
  then have "access_state s' (sb_id x') = Some (next_access now ty obj x)"
    using x y by (simp add: moves_access_def)
  moreover have "access_state s' (sb_id x') = Some (sb_status x', sb_grace_period_end x')"
    using m y(1) by (intro access_state_row) (simp_all add: moves_access_def)
  ultimately have row: "(sb_status x', sb_grace_period_end x') = next_access now ty obj x" by simp
  from ty consider "ty = ''invoice.payment_failed''" | "ty = ''customer.subscription.deleted''"
    | "ty = ''invoice.payment_succeeded''" by (elim insertE emptyE)
  then show ?thesis
  proof cases
    case 1
    with row have "sb_status x' = ''past_due''" "sb_grace_period_end x' = Some (now + 604800)"
      by (simp_all add: next_access_def)
    with 1 show ?thesis by (simp add: is_access_allowed_def)
  next
    case 2
    with row have "sb_status x' = ''canceled''" by (simp add: next_access_def)
    with 2 show ?thesis by (simp add: is_access_allowed_def)
  next
    case 3
    with row have "sb_status x' = ''active''" by (simp add: next_access_def)
    with 3 show ?thesis by (simp add: is_access_allowed_def)
  qed
qed

theorem access_after_event_witness:
  "\<exists>x'\<in>set (subscriptions (snd (process_event 50 ''invoice.payment_succeeded'' (invoice ''sub_t1'')
     (billing_db ''canceled'')))). sb_id x' = ''st1'' \<and> is_access_allowed 99 x'"
proof -
  let ?s' = "snd (process_event 50 ''invoice.payment_succeeded'' (invoice ''sub_t1'') (billing_db ''canceled''))"
  let ?x = "sub_row ''t1'' (Some 1) ''canceled''"
  have s': "subscriptions ?s' = [?x\<lparr>sb_status := ''active'', sb_grace_period_end := None, sb_updated_at := 50\<rparr>,
      sub_row ''t2'' None ''active'']"
    by (simp add: process_event_def on_payment_succeeded_def invoice_def str_get_def qs_get_def
        atomic_def save_status_def qs_update_def)
  have "concerns ''invoice.payment_succeeded'' (invoice ''sub_t1'') ?x"
    by (simp add: concerns_def invoice_def str_get_def)
  moreover obtain r t' where run:
      "process_event 50 ''invoice.payment_succeeded'' (invoice ''sub_t1'') (billing_db ''canceled'') = (r, t')"
    by (cases "process_event 50 ''invoice.payment_succeeded'' (invoice ''sub_t1'') (billing_db ''canceled'')")
  moreover have "?x \<in> set (subscriptions (billing_db ''canceled''))" by simp
  ultimately have "is_access_allowed 99 (?x\<lparr>sb_status := ''active'', sb_grace_period_end := None, sb_updated_at := 50\<rparr>)"
    using access_after_event [OF billing_db_simps(5) run, where x = "?x" and t = 99 and
        x' = "?x\<lparr>sb_status := ''active'', sb_grace_period_end := None, sb_updated_at := 50\<rparr>"] s'
    by simp
  then show ?thesis unfolding s' by simp
qed



text \<open>The duplicate guard is written before the task is queued and is not undone: when the
  broker refuses the message the request fails with 500, and every redelivery of the event, with
  the broker up again, is answered as a duplicate and queues nothing - the event is lost.\<close>

theorem webhook_event_lost:
  assumes uniq: "distinct (map we_stripe_event_id (webhook_events s))"
    and new: "i \<notin> we_stripe_event_id ` set (webhook_events s)"
    and valid: "\<And>sig. construct_event body sig secret = Event i ty obj" "secret \<noteq> []" "ty \<in> set HANDLED_EVENTS"
    and down: "\<not> broker_up s"
    and first: "StripeWebhookView_post construct_event secret now body rq s = (resp, s')"
  shows "status_code resp = 500 \<and> queue s' = queue s \<and>
    (\<forall>now' rq'. StripeWebhookView_post construct_event secret now' body rq' (s'\<lparr>broker_up := True\<rparr>) =
       (Response 200 ''duplicate'', s'\<lparr>broker_up := True\<rparr>))"
proof -
  have none: "qs_get (\<lambda>w. we_stripe_event_id w = i) (webhook_events s) = Inl DoesNotExist"
    using new by (auto simp: qs_get_DoesNotExist)
  let ?row = "\<lparr>we_stripe_event_id = i, we_event_type = ty, we_processed_at = now, we_payload = obj\<rparr>"
  from first none valid down have s': "resp = Uncaught BrokerError"
      "s' = s\<lparr>webhook_events := webhook_events s @ [?row]\<rparr>"
    by (simp_all add: StripeWebhookView_post_def get_or_create_def delay_def)
  have "distinct (map we_stripe_event_id (webhook_events s @ [?row]))" using uniq new by auto
  then have "qs_get (\<lambda>w. we_stripe_event_id w = i) (webhook_events s @ [?row]) = Inr ?row"
    using qs_get_key [of we_stripe_event_id "webhook_events s @ [?row]" ?row] by simp
  with s' valid show ?thesis by (simp add: StripeWebhookView_post_def get_or_create_def)
qed

theorem webhook_event_lost_witness:
  "queue (snd (StripeWebhookView_post (\<lambda>_ _ _. Event ''e1'' ''invoice.payment_failed'' (invoice ''sub_t1''))
     ''k'' 1 [] demo_request ((billing_db ''active'')\<lparr>broker_up := False\<rparr>))) = []"
  using webhook_event_lost [where construct_event = "\<lambda>_ _ _. Event ''e1'' ''invoice.payment_failed'' (invoice ''sub_t1'')"
      and secret = "''k''" and body = "[]" and s = "(billing_db ''active'')\<lparr>broker_up := False\<rparr>",
      OF _ _ _ _ _ _ surjective_pairing]
  by (simp add: HANDLED_EVENTS_def)

end
