(* ===== verification/Invitations.thy ===== *)
theory Invitations
  imports Rbac Billing
begin

text \<open>
  \<open>services/invitations/invitation_service.py\<close> and \<open>apps/invitations/\<close>: sending, accepting,
  revoking and listing invitations, the endpoints and the mail task. The random token and
  the UUID of a new invitation are arguments; a clash with a stored one is an
  \<open>IntegrityError\<close>. The status of an invitation is a state machine (\<open>status_step\<close>).
\<close>

definition EXPIRY_HOURS :: int where "EXPIRY_HOURS = 72"

definition default_expires_at :: "instant \<Rightarrow> instant" where
  "default_expires_at now = now + EXPIRY_HOURS * 3600"

definition is_expired :: "instant \<Rightarrow> tenant_invitation \<Rightarrow> bool" where
  "is_expired now i \<longleftrightarrow> now > iv_expires_at i"

definition is_usable :: "instant \<Rightarrow> tenant_invitation \<Rightarrow> bool" where
  "is_usable now i \<longleftrightarrow> iv_status i = PENDING \<and> \<not> is_expired now i"

fun status_value :: "invitation_status \<Rightarrow> string" where
  "status_value PENDING = ''pending''"
| "status_value ACCEPTED = ''accepted''"
| "status_value REVOKED = ''revoked''"
| "status_value EXPIRED = ''expired''"

definition invitation_role_message :: "string \<Rightarrow> string" where
  "invitation_role_message role =
     ''Invalid role '' @ quoted role @ ''. Must be one of: owner, admin, member''"

subsection \<open>InvitationService\<close>

definition insert_invitation :: "tenant_invitation \<Rightarrow> (db, tenant_invitation) op" where
  "insert_invitation i s =
     (if qs_exists (\<lambda>x. iv_id x = iv_id i \<or> iv_token x = iv_token i) (invitations s)
      then (Inl IntegrityError, s)
      else (Inr i, s\<lparr>invitations := invitations s @ [i]\<rparr>))"

definition save_invitation :: "tenant_invitation \<Rightarrow> db \<Rightarrow> db" where
  "save_invitation i s =
     s\<lparr>invitations := qs_update (\<lambda>x. iv_id x = iv_id i)
        (\<lambda>x. x\<lparr>iv_status := iv_status i, iv_accepted_by := iv_accepted_by i\<rparr>) (invitations s)\<rparr>"

definition invited_by_name :: "user \<Rightarrow> string" where
  "invited_by_name u = str_or (full_name u) (us_email u)"

definition dispatch_email :: "string \<Rightarrow> tenant \<Rightarrow> tenant_invitation \<Rightarrow> user \<Rightarrow> (db, unit) op" where
  "dispatch_email frontend_url t i invited_by =
     delay (Send_invitation_email (iv_email i) (tn_name t) (invited_by_name invited_by) (iv_role i)
       (frontend_url @ ''/invitations/'' @ iv_token i @ ''/accept''))"

definition send_invitation ::
  "string \<Rightarrow> instant \<Rightarrow> uuid \<Rightarrow> string \<Rightarrow> tenant \<Rightarrow> string \<Rightarrow> string \<Rightarrow> user \<Rightarrow> (db, tenant_invitation) op" where
  "send_invitation frontend_url now new_id token t email0 role invited_by s =
     (let email = py_lower (py_strip email0);
          existing_user = qs_first (\<lambda>u. int (us_pk u)) (\<lambda>u. us_email u = email) (users s)
      in if role \<notin> set RoleChoices_values
         then (Inl (ValidationServiceError (invitation_role_message role)), s)
         else if (case existing_user of
                    Some u \<Rightarrow> qs_exists (\<lambda>r. role_key r = (us_pk u, tn_id t)) (roles s) | None \<Rightarrow> False)
         then (Inl (ConflictServiceError (email @ '' is already a member of this tenant.'')), s)
         else if qs_exists (\<lambda>i. iv_tenant i = tn_id t \<and> iv_email i = email \<and> iv_status i = PENDING)
                   (invitations s)
         then (Inl (ConflictServiceError
                 (''A pending invitation already exists for '' @ email @ ''. Revoke it first.'')), s)
         else
           (case check_member_limit t s of
              Inl e \<Rightarrow> (Inl e, s)
            | Inr _ \<Rightarrow>
                (case insert_invitation
                        \<lparr>iv_id = new_id, iv_tenant = tn_id t, iv_email = email, iv_role = role,
                         iv_token = token, iv_status = PENDING, iv_invited_by = Some (us_pk invited_by),
                         iv_accepted_by = None, iv_expires_at = default_expires_at now,
                         iv_created_at = now\<rparr> s of
                   (Inl e, s1) \<Rightarrow> (Inl e, s1)
                 | (Inr invitation, s1) \<Rightarrow>
                     (case dispatch_email frontend_url t invitation invited_by s1 of
                        (Inl e, s2) \<Rightarrow> (Inl e, s2)
                      | (Inr _, s2) \<Rightarrow> (Inr invitation, s2)))))"

definition accept_invitation ::
  "instant \<Rightarrow> uuid \<Rightarrow> string \<Rightarrow> user \<Rightarrow> (db, tenant_invitation) op" where
  "accept_invitation now new_role_id token u s =
     (case qs_get (\<lambda>i. iv_token i = token \<and> tenant_of s (iv_tenant i) \<noteq> None) (invitations s) of
        Inl e \<Rightarrow> if e = DoesNotExist then (Inl (NotFoundServiceError ''Invitation not found.''), s)
                 else (Inl e, s)
      | Inr i \<Rightarrow>
          if iv_status i \<noteq> PENDING
          then (Inl (NotFoundServiceError ''This invitation has already been used or revoked.''), s)
          else if is_expired now i
          then (Inl (ValidationServiceError ''This invitation has expired.''),
                save_invitation (i\<lparr>iv_status := EXPIRED\<rparr>) s)
          else
            (case tenant_of s (iv_tenant i) of
               None \<Rightarrow> (Inl DoesNotExist, s)
             | Some t \<Rightarrow>
                 if qs_exists (\<lambda>r. role_key r = (us_pk u, tn_id t)) (roles s)
                 then (Inl (ConflictServiceError ''You are already a member of this tenant.''), s)
                 else
                   (case assign_role now new_role_id u t (iv_role i)
                           (Option.bind (iv_invited_by i) (user_of s)) s of
                      (Inl e, s1) \<Rightarrow> (Inl e, s1)
                    | (Inr _, s1) \<Rightarrow>
                        (let i' = i\<lparr>iv_status := ACCEPTED, iv_accepted_by := Some (us_pk u)\<rparr>
                         in (Inr i',
                             AuditService_log now ''invitation_accepted'' None (Some (tn_id t)) (Some u)
                               ''TenantInvitation'' (iv_id i)
                               [(''email'', iv_email i), (''role'', iv_role i)]
                               (save_invitation i' s1))))))"

definition revoke_invitation ::
  "instant \<Rightarrow> uuid \<Rightarrow> tenant \<Rightarrow> user \<Rightarrow> (db, tenant_invitation) op" where
  "revoke_invitation now invitation_id t revoked_by s =
     (case qs_get (\<lambda>i. iv_id i = invitation_id \<and> iv_tenant i = tn_id t) (invitations s) of
        Inl e \<Rightarrow> if e = DoesNotExist then (Inl (NotFoundServiceError ''Invitation not found.''), s)
                 else (Inl e, s)
      | Inr i \<Rightarrow>
          if iv_status i \<noteq> PENDING
          then (Inl (ValidationServiceError
                  (''Cannot revoke an invitation with status '' @ quoted (status_value (iv_status i)) @ ''.'')), s)
          else
            (let i' = i\<lparr>iv_status := REVOKED\<rparr>
             in (Inr i',
                 AuditService_log now ''invitation_revoked'' None (Some (tn_id t)) (Some revoked_by)
                   ''TenantInvitation'' (iv_id i) [(''email'', iv_email i)] (save_invitation i' s))))"

definition list_pending :: "instant \<Rightarrow> tenant \<Rightarrow> db \<Rightarrow> tenant_invitation list" where
  "list_pending now t s =
     sort_key (\<lambda>i. - iv_created_at i)
       (filter (\<lambda>i. iv_tenant i = tn_id t \<and> iv_status i = PENDING \<and> iv_expires_at i > now) (invitations s))"

subsection \<open>Endpoints\<close>

text \<open>\<open>clean_email\<close> is the validation of DRF's \<open>EmailField\<close>; an absent role is the default.\<close>

definition TenantInvitationListCreateView_get ::
  "(string \<Rightarrow> uuid option) \<Rightarrow> instant \<Rightarrow> request \<Rightarrow> db \<Rightarrow> tenant_invitation list response \<times> db" where
  "TenantInvitationListCreateView_get parse_uuid now rq =
     authenticated_with_role parse_uuid [''owner'', ''admin''] rq None
       (\<lambda>u s. case rq_tenant rq of
                None \<Rightarrow> (Detail 400 ''Tenant context required.'', s)
              | Some t \<Rightarrow> (Response 200 (list_pending now t s), s))"

definition TenantInvitationListCreateView_post ::
  "(string \<Rightarrow> uuid option) \<Rightarrow> (string \<Rightarrow> string option) \<Rightarrow> string \<Rightarrow> instant \<Rightarrow> uuid \<Rightarrow> string \<Rightarrow> request \<Rightarrow>
   string \<Rightarrow> string option \<Rightarrow> db \<Rightarrow> tenant_invitation response \<times> db" where
  "TenantInvitationListCreateView_post parse_uuid clean_email frontend_url now new_id token rq email role =
     authenticated_with_role parse_uuid [''owner'', ''admin''] rq None
       (\<lambda>u s. case rq_tenant rq of
                None \<Rightarrow> (Detail 400 ''Tenant context required.'', s)
              | Some t \<Rightarrow>
                  (case clean_email email of
                     None \<Rightarrow> (Detail 400 ''email'', s)
                   | Some e \<Rightarrow>
                       let role = (case role of Some r \<Rightarrow> r | None \<Rightarrow> ''member'')
                       in if role \<notin> set RoleChoices_values then (Detail 400 ''role'', s)
                          else (case send_invitation frontend_url now new_id token t e role u s of
                                  (Inr i, s') \<Rightarrow> (Response 201 i, s')
                                | (Inl exc, s') \<Rightarrow>
                                    (case exc of
                                       ConflictServiceError m \<Rightarrow> Detail 409 m
                                     | PlanLimitExceededError m \<Rightarrow> Detail 402 m
                                     | ValidationServiceError m \<Rightarrow> Detail 400 m
                                     | _ \<Rightarrow> Uncaught exc, s'))))"

definition InvitationDetailView_get :: "string \<Rightarrow> db \<Rightarrow> tenant_invitation response" where
  "InvitationDetailView_get token s =
     (case qs_get (\<lambda>i. iv_token i = token \<and> iv_status i = PENDING) (invitations s) of
        Inr i \<Rightarrow> Response 200 i
      | Inl e \<Rightarrow> if e = DoesNotExist then Detail 404 ''Invitation not found.'' else Uncaught e)"

definition InvitationAcceptView_post ::
  "instant \<Rightarrow> uuid \<Rightarrow> request \<Rightarrow> string \<Rightarrow> db \<Rightarrow> tenant_invitation response \<times> db" where
  "InvitationAcceptView_post now new_role_id rq token s =
     (case rq_user rq of
        None \<Rightarrow> (Detail 401 [], s)
      | Some u \<Rightarrow>
          (case accept_invitation now new_role_id token u s of
             (Inr i, s') \<Rightarrow> (Response 200 i, s')
           | (Inl exc, s') \<Rightarrow>
               (case exc of
                  NotFoundServiceError m \<Rightarrow> Detail 404 m
                | ValidationServiceError m \<Rightarrow> Detail 400 m
                | ConflictServiceError m \<Rightarrow> Detail 409 m
                | _ \<Rightarrow> Uncaught exc, s')))"

definition InvitationRevokeView_delete ::
  "(string \<Rightarrow> uuid option) \<Rightarrow> instant \<Rightarrow> request \<Rightarrow> uuid \<Rightarrow> db \<Rightarrow> unit response \<times> db" where
  "InvitationRevokeView_delete parse_uuid now rq invitation_id =
     authenticated_with_role parse_uuid [''owner'', ''admin''] rq None
       (\<lambda>u s. case rq_tenant rq of
                None \<Rightarrow> (Detail 400 ''Tenant context required.'', s)
              | Some t \<Rightarrow>
                  (case revoke_invitation now invitation_id t u s of
                     (Inr _, s') \<Rightarrow> (Response 204 (), s')
                   | (Inl exc, s') \<Rightarrow>
                       (case exc of
                          NotFoundServiceError m \<Rightarrow> Detail 404 m
                        | ValidationServiceError m \<Rightarrow> Detail 400 m
                        | _ \<Rightarrow> Uncaught exc, s')))"

subsection \<open>Mail task\<close>

definition send_invitation_email ::
  "(mail \<Rightarrow> bool) \<Rightarrow> string \<Rightarrow> string \<Rightarrow> string \<Rightarrow> string \<Rightarrow> string \<Rightarrow> (exn + unit) \<times> mail list" where
  "send_invitation_email accepts recipient tenant_name by_name role accept_url =
     send_mail accepts
       \<lparr>ml_to = [recipient],
        ml_subject = ''You'' @ [CHR 0x27] @ ''ve been invited to join '' @ tenant_name,
        ml_body = ''Hi,\<newline>\<newline>'' @ by_name @ '' has invited you to join '' @ tenant_name @ '' as a '' @ role @
          ''.\<newline>\<newline>Accept your invitation here (expires in 72 hours):\<newline>'' @ accept_url @
          ''\<newline>\<newline>If you didn'' @ [CHR 0x27] @
          ''t expect this invitation you can safely ignore this email.\<newline>''\<rparr> ()"

subsection \<open>The status machine\<close>

inductive status_step :: "invitation_status \<Rightarrow> invitation_status \<Rightarrow> bool" where
  accept: "status_step PENDING ACCEPTED"
| revoke: "status_step PENDING REVOKED"
| expire: "status_step PENDING EXPIRED"

inductive_cases status_stepE [elim!]: "status_step a b"
inductive_simps status_step_final [simp]:
  "status_step ACCEPTED b" "status_step REVOKED b" "status_step EXPIRED b"

lemma status_final: "status_step\<^sup>*\<^sup>* a b \<Longrightarrow> a \<noteq> PENDING \<Longrightarrow> b = a"
  by (induction rule: rtranclp_induct) auto

interpretation invitation_tbl: keyed_table iv_id "tbl_lookup iv_id" "tbl_upsert iv_id"
  "tbl_remove iv_id" "tbl_ok iv_id"
  by (rule list_keyed_table)

definition invitations_ok :: "db \<Rightarrow> bool" where
  "invitations_ok s \<longleftrightarrow> tbl_ok iv_id (invitations s) \<and> tbl_ok iv_token (invitations s) \<and>
     distinct (map (\<lambda>i. (iv_tenant i, iv_email i)) (filter (\<lambda>i. iv_status i = PENDING) (invitations s))) \<and>
     list_all (\<lambda>i. iv_role i \<in> set RoleChoices_values \<and> tenant_of s (iv_tenant i) \<noteq> None) (invitations s)"

text \<open>What happens to one row: only the status and who accepted it can change.\<close>

definition row_step :: "tenant_invitation \<Rightarrow> tenant_invitation \<Rightarrow> bool" where
  "row_step i j \<longleftrightarrow> status_step\<^sup>*\<^sup>* (iv_status i) (iv_status j) \<and>
     (iv_status j = iv_status i \<longrightarrow> j = i) \<and>
     j = i\<lparr>iv_status := iv_status j, iv_accepted_by := iv_accepted_by j\<rparr>"

definition evolves :: "db \<Rightarrow> db \<Rightarrow> bool" where
  "evolves s s' \<longleftrightarrow> (\<forall>i\<in>set (invitations s). \<exists>j\<in>set (invitations s'). row_step i j)"

lemma row_step_refl [simp]: "row_step i i"
  by (simp add: row_step_def)

lemma row_step_trans: "row_step i j \<Longrightarrow> row_step j k \<Longrightarrow> row_step i k"
proof -
  assume ij: "row_step i j" and jk: "row_step j k"
  then have st: "status_step\<^sup>*\<^sup>* (iv_status i) (iv_status j)" "status_step\<^sup>*\<^sup>* (iv_status j) (iv_status k)"
    by (simp_all add: row_step_def)
  then have path: "status_step\<^sup>*\<^sup>* (iv_status i) (iv_status k)" by simp
  have "iv_status k = iv_status i \<Longrightarrow> k = i"
  proof (cases "iv_status i = PENDING")
    case True
    assume "iv_status k = iv_status i"
    with st(2) True status_final have "iv_status j = iv_status i" by metis
    with ij jk \<open>iv_status k = iv_status i\<close> show "k = i" by (simp add: row_step_def)
  next
    case False
    assume "iv_status k = iv_status i"
    with st(1) False status_final have "iv_status j = iv_status i" by metis
    with ij jk \<open>iv_status k = iv_status i\<close> show "k = i" by (simp add: row_step_def)
  qed
  moreover have "k = i\<lparr>iv_status := iv_status k, iv_accepted_by := iv_accepted_by k\<rparr>"
  proof -
    have "k = j\<lparr>iv_status := iv_status k, iv_accepted_by := iv_accepted_by k\<rparr>"
      and "j = i\<lparr>iv_status := iv_status j, iv_accepted_by := iv_accepted_by j\<rparr>"
      using ij jk by (simp_all add: row_step_def)
    then show ?thesis by (cases i; cases j; cases k) simp
  qed
  ultimately show ?thesis using path by (simp add: row_step_def)
qed

lemma evolves_refl [simp]: "evolves s s"
  unfolding evolves_def using row_step_refl by blast

lemma evolves_trans: "evolves a b \<Longrightarrow> evolves b c \<Longrightarrow> evolves a c"
  unfolding evolves_def by (meson row_step_trans)

lemma invitations_ok_eq:
  "\<lbrakk>invitations s' = invitations s; tenants s' = tenants s\<rbrakk> \<Longrightarrow> invitations_ok s' = invitations_ok s"
  by (simp add: invitations_ok_def tenant_of_def)

lemma evolves_eq: "invitations s' = invitations s'' \<Longrightarrow> evolves s s' = evolves s s''"
  by (simp add: evolves_def)

lemma save_invitation_frame [simp]:
  "roles (save_invitation i s) = roles s" "tenants (save_invitation i s) = tenants s"
  "users (save_invitation i s) = users s" "queue (save_invitation i s) = queue s"
  "subscriptions (save_invitation i s) = subscriptions s" "plans (save_invitation i s) = plans s"
  by (simp_all add: save_invitation_def)

text \<open>Closing a pending invitation.\<close>

lemma close_invitation:
  assumes ok: "invitations_ok s" and i: "i \<in> set (invitations s)" "iv_status i = PENDING"
    and st: "status_step PENDING st"
    and s': "invitations s' = invitations (save_invitation (i\<lparr>iv_status := st, iv_accepted_by := a\<rparr>) s)"
      "tenants s' = tenants s"
  shows "invitations_ok s' \<and> evolves s s' \<and> i\<lparr>iv_status := st, iv_accepted_by := a\<rparr> \<in> set (invitations s')"
proof -
  let ?f = "\<lambda>x. x\<lparr>iv_status := st, iv_accepted_by := a\<rparr>"
  let ?P = "\<lambda>x. iv_id x = iv_id i"
  have new: "invitations s' = qs_update ?P ?f (invitations s)" by (simp add: s' save_invitation_def)
  have same: "x \<in> set (invitations s) \<Longrightarrow> iv_id x = iv_id i \<Longrightarrow> x = i" for x
    using ok i(1) unfolding invitations_ok_def tbl_ok_def by (meson distinct_map inj_onD)
  have np: "st \<noteq> PENDING" using st by auto
  have flt: "filter (\<lambda>x. iv_status x = PENDING) (qs_update ?P ?f xs) =
      filter (\<lambda>x. iv_status x = PENDING \<and> \<not> ?P x) xs" for xs
    unfolding qs_update_def using np by (induction xs) auto
  have "map (\<lambda>x. (iv_tenant x, iv_email x)) (filter (\<lambda>x. iv_status x = PENDING) (invitations s')) =
      map (\<lambda>x. (iv_tenant x, iv_email x))
        (filter (\<lambda>x. \<not> ?P x) (filter (\<lambda>x. iv_status x = PENDING) (invitations s)))"
    by (simp only: new flt filter_filter)
  then have "distinct (map (\<lambda>x. (iv_tenant x, iv_email x)) (filter (\<lambda>x. iv_status x = PENDING) (invitations s')))"
    using ok by (simp only: invitations_ok_def distinct_map_filter)
  moreover have "tbl_ok iv_id (invitations s')" "tbl_ok iv_token (invitations s')"
    using ok unfolding new invitations_ok_def by (auto intro: tbl_ok_update)
  moreover have "list_all (\<lambda>x. iv_role x \<in> set RoleChoices_values \<and> tenant_of s' (iv_tenant x) \<noteq> None) (invitations s')"
    using ok s'(2) by (auto simp: invitations_ok_def list_all_iff new tenant_of_def)
  ultimately have "invitations_ok s'" by (simp only: invitations_ok_def)
  moreover have "evolves s s'"
    unfolding evolves_def
  proof
    fix x assume x: "x \<in> set (invitations s)"
    show "\<exists>j\<in>set (invitations s'). row_step x j"
    proof (cases "?P x")
      case True
      then have "x = i" using same x by simp
      moreover have "status_step\<^sup>*\<^sup>* PENDING st" using st by (rule r_into_rtranclp)
      ultimately have "row_step x (?f x)" using i(2) np by (simp add: row_step_def)
      then show ?thesis using x True by (auto simp: new)
    next
      case False
      then have "x \<in> set (invitations s')" using x by (auto simp: new image_iff)
      then show ?thesis using row_step_refl by blast
    qed
  qed
  moreover have "?f i \<in> set (invitations s')" using i(1) by (force simp: new)
  ultimately show ?thesis by blast
qed

lemma get_invitation:
  assumes "invitations_ok s"
  shows "qs_get (\<lambda>i. iv_token i = token \<and> tenant_of s (iv_tenant i) \<noteq> None) (invitations s) =
    (case tbl_lookup iv_token (invitations s) token of None \<Rightarrow> Inl DoesNotExist | Some i \<Rightarrow> Inr i)"
proof -
  have "filter (\<lambda>i. iv_token i = token \<and> tenant_of s (iv_tenant i) \<noteq> None) (invitations s) =
      filter (\<lambda>i. iv_token i = token) (invitations s)"
    using assms by (intro filter_cong) (auto simp: invitations_ok_def list_all_iff)
  then have "qs_get (\<lambda>i. iv_token i = token \<and> tenant_of s (iv_tenant i) \<noteq> None) (invitations s) =
      qs_get (\<lambda>i. iv_token i = token) (invitations s)" by (simp only: qs_get_def)
  with qs_get_tbl_lookup [of iv_token "invitations s" token] assms show ?thesis
    by (simp add: invitations_ok_def)
qed

lemma tenant_id_of: "tenant_of s k = Some t \<Longrightarrow> tn_id t = k"
  by (auto simp: tenant_of_def find_Some_iff)

text \<open>Every branch of \<open>accept_invitation\<close>.\<close>

lemma accept_cases [consumes 3, case_names unknown closed expired member accepted]:
  assumes ok: "invitations_ok s" and roles: "roles_ok s" and run: "accept_invitation now rid token u s = (r, s')"
    and "tbl_lookup iv_token (invitations s) token = None \<Longrightarrow>
      r = Inl (NotFoundServiceError ''Invitation not found.'') \<Longrightarrow> s' = s \<Longrightarrow> P"
    and "\<And>i. i \<in> set (invitations s) \<Longrightarrow> iv_token i = token \<Longrightarrow> iv_status i \<noteq> PENDING \<Longrightarrow>
      r = Inl (NotFoundServiceError ''This invitation has already been used or revoked.'') \<Longrightarrow> s' = s \<Longrightarrow> P"
    and "\<And>i. i \<in> set (invitations s) \<Longrightarrow> iv_token i = token \<Longrightarrow> iv_status i = PENDING \<Longrightarrow> is_expired now i \<Longrightarrow>
      r = Inl (ValidationServiceError ''This invitation has expired.'') \<Longrightarrow>
      s' = save_invitation (i\<lparr>iv_status := EXPIRED\<rparr>) s \<Longrightarrow> P"
    and "\<And>i. i \<in> set (invitations s) \<Longrightarrow> iv_token i = token \<Longrightarrow> is_usable now i \<Longrightarrow>
      role_map s (us_pk u, iv_tenant i) \<noteq> None \<Longrightarrow>
      r = Inl (ConflictServiceError ''You are already a member of this tenant.'') \<Longrightarrow> s' = s \<Longrightarrow> P"
    and "\<And>i. i \<in> set (invitations s) \<Longrightarrow> iv_token i = token \<Longrightarrow> is_usable now i \<Longrightarrow>
      role_map s (us_pk u, iv_tenant i) = None \<Longrightarrow>
      r = Inr (i\<lparr>iv_status := ACCEPTED, iv_accepted_by := Some (us_pk u)\<rparr>) \<Longrightarrow>
      roles_ok s' \<Longrightarrow> role_map s' = (role_map s)((us_pk u, iv_tenant i) \<mapsto> iv_role i) \<Longrightarrow>
      invitations s' = invitations (save_invitation (i\<lparr>iv_status := ACCEPTED, iv_accepted_by := Some (us_pk u)\<rparr>) s) \<Longrightarrow>
      tenants s' = tenants s \<Longrightarrow> users s' = users s \<Longrightarrow> subscriptions s' = subscriptions s \<Longrightarrow>
      plans s' = plans s \<Longrightarrow> P"
  shows P
proof (cases "tbl_lookup iv_token (invitations s) token")
  case None
  with run have "r = Inl (NotFoundServiceError ''Invitation not found.'')" "s' = s"
    unfolding accept_invitation_def get_invitation [OF ok] by simp_all
  with None assms(4) show ?thesis by blast
next
  case (Some i)
  then have i: "i \<in> set (invitations s)" "iv_token i = token"
    using ok by (simp_all add: invitations_ok_def tbl_lookup_Some)
  then obtain t where t: "tenant_of s (iv_tenant i) = Some t" and valid: "iv_role i \<in> set RoleChoices_values"
    using ok by (auto simp: invitations_ok_def list_all_iff)
  note tid = tenant_id_of [OF t]
  note unfolded = accept_invitation_def get_invitation [OF ok] Some option.case sum.case
  consider "iv_status i \<noteq> PENDING" | "iv_status i = PENDING" "is_expired now i" | "is_usable now i"
    by (auto simp: is_usable_def)
  then show ?thesis
  proof cases
    case 1
    with run have "r = Inl (NotFoundServiceError ''This invitation has already been used or revoked.'')" "s' = s"
      unfolding unfolded by simp_all
    with i 1 assms(5) show ?thesis by blast
  next
    case 2
    with run have "r = Inl (ValidationServiceError ''This invitation has expired.'')"
      "s' = save_invitation (i\<lparr>iv_status := EXPIRED\<rparr>) s"
      unfolding unfolded by simp_all
    with i 2 assms(6) show ?thesis by blast
  next
    case 3
    have member: "qs_exists (\<lambda>r. role_key r = (us_pk u, tn_id t)) (roles s) \<longleftrightarrow>
        role_map s (us_pk u, iv_tenant i) \<noteq> None"
      using tid by (auto simp: role_map_def tbl_lookup_count)
    show ?thesis
    proof (cases "role_map s (us_pk u, iv_tenant i)")
      case None
      obtain obj s1 where s1: "assign_role now rid u t (iv_role i) (Option.bind (iv_invited_by i) (user_of s)) s = (Inr obj, s1)"
        "roles_ok s1" "role_map s1 = (role_map s)((us_pk u, tn_id t) \<mapsto> iv_role i)"
        and fr: "s1 = AuditService_log now ''role_assigned'' None (Some (tn_id t))
          (Option.bind (iv_invited_by i) (user_of s)) ''User'' (str_nat (us_pk u))
          [(''role'', iv_role i), (''target_email'', us_email u)] (s\<lparr>roles := roles s1\<rparr>)"
        using assign_role_effect [OF roles valid, of now rid u t "Option.bind (iv_invited_by i) (user_of s)"] by metis
      have f: "invitations s1 = invitations s" "tenants s1 = tenants s" "users s1 = users s"
        "subscriptions s1 = subscriptions s" "plans s1 = plans s"
        by (subst fr, simp)+
      from run 3 None member t s1(1)
      have r: "r = Inr (i\<lparr>iv_status := ACCEPTED, iv_accepted_by := Some (us_pk u)\<rparr>)"
        and s': "s' = AuditService_log now ''invitation_accepted'' None (Some (tn_id t)) (Some u)
          ''TenantInvitation'' (iv_id i) [(''email'', iv_email i), (''role'', iv_role i)]
          (save_invitation (i\<lparr>iv_status := ACCEPTED, iv_accepted_by := Some (us_pk u)\<rparr>) s1)"
        unfolding unfolded by (simp_all add: is_usable_def Let_def del: qs_exists_iff)
      show ?thesis
      proof (rule assms(8) [OF i 3 None r])
        show "roles_ok s'" using s1(2) by (simp add: s' roles_ok_def)
        show "role_map s' = (role_map s)((us_pk u, iv_tenant i) \<mapsto> iv_role i)"
          using role_map_roles [of s' s1] s1(3) tid by (simp add: s')
      qed (simp_all add: s' f save_invitation_def)
    next
      case (Some x)
      with run 3 member t have "r = Inl (ConflictServiceError ''You are already a member of this tenant.'')" "s' = s"
        unfolding unfolded by (simp_all add: is_usable_def del: qs_exists_iff)
      with i 3 Some assms(7) show ?thesis by blast
    qed
  qed
qed

lemma accept_usable:
  assumes ok: "invitations_ok s" and roles: "roles_ok s"
    and i: "tbl_lookup iv_token (invitations s) token = Some i" "is_usable now i"
    and new: "role_map s (us_pk u, iv_tenant i) = None"
  obtains s' where "accept_invitation now rid token u s =
      (Inr (i\<lparr>iv_status := ACCEPTED, iv_accepted_by := Some (us_pk u)\<rparr>), s')"
    and "roles_ok s'" and "role_map s' = (role_map s)((us_pk u, iv_tenant i) \<mapsto> iv_role i)"
    and "subscriptions s' = subscriptions s" and "plans s' = plans s"
proof -
  obtain r s' where run: "accept_invitation now rid token u s = (r, s')"
    by (cases "accept_invitation now rid token u s")
  have same: "j = i" if "j \<in> set (invitations s)" "iv_token j = token" for j
  proof -
    have "tbl_lookup iv_token (invitations s) token = Some j"
      using that ok by (simp add: invitations_ok_def tbl_lookup_Some)
    with i(1) show ?thesis by simp
  qed
  note usable = i(2) [unfolded is_usable_def]
  show thesis
    using ok roles run
  proof (cases rule: accept_cases)
    case unknown
    with i(1) show ?thesis by simp
  next
    case (closed j)
    with same [OF closed(1,2)] usable show ?thesis by simp
  next
    case (expired j)
    with same [OF expired(1,2)] usable show ?thesis by simp
  next
    case (member j)
    with same [OF member(1,2)] new show ?thesis by simp
  next
    case (accepted j)
    with same [OF accepted(1,2)] run show ?thesis by (intro that [of s']) simp_all
  qed
qed

lemma revoke_cases [consumes 2, case_names unknown closed revoked]:
  assumes ok: "invitations_ok s" and run: "revoke_invitation now k t by_user s = (r, s')"
    and "(\<forall>i\<in>set (invitations s). \<not> (iv_id i = k \<and> iv_tenant i = tn_id t)) \<Longrightarrow>
      r = Inl (NotFoundServiceError ''Invitation not found.'') \<Longrightarrow> s' = s \<Longrightarrow> P"
    and "\<And>i m. i \<in> set (invitations s) \<Longrightarrow> iv_id i = k \<Longrightarrow> iv_tenant i = tn_id t \<Longrightarrow> iv_status i \<noteq> PENDING \<Longrightarrow>
      r = Inl (ValidationServiceError m) \<Longrightarrow> s' = s \<Longrightarrow> P"
    and "\<And>i. i \<in> set (invitations s) \<Longrightarrow> iv_id i = k \<Longrightarrow> iv_tenant i = tn_id t \<Longrightarrow> iv_status i = PENDING \<Longrightarrow>
      r = Inr (i\<lparr>iv_status := REVOKED\<rparr>) \<Longrightarrow>
      invitations s' = invitations (save_invitation (i\<lparr>iv_status := REVOKED\<rparr>) s) \<Longrightarrow>
      tenants s' = tenants s \<Longrightarrow> roles s' = roles s \<Longrightarrow> P"
  shows P
proof (rule qs_get_unique_cases [of iv_id "invitations s" "\<lambda>i. iv_id i = k \<and> iv_tenant i = tn_id t"])
  show "distinct (map iv_id (invitations s))" using ok by (simp add: invitations_ok_def tbl_ok_def)
next
  assume "qs_get (\<lambda>i. iv_id i = k \<and> iv_tenant i = tn_id t) (invitations s) = Inl DoesNotExist"
    and none: "\<forall>i\<in>set (invitations s). \<not> (iv_id i = k \<and> iv_tenant i = tn_id t)"
  with run have "r = Inl (NotFoundServiceError ''Invitation not found.'')" "s' = s"
    unfolding revoke_invitation_def by simp_all
  with none assms(3) show P by blast
next
  fix i assume get: "qs_get (\<lambda>i. iv_id i = k \<and> iv_tenant i = tn_id t) (invitations s) = Inr i"
    and i: "i \<in> set (invitations s)" "iv_id i = k \<and> iv_tenant i = tn_id t"
  show P
  proof (cases "iv_status i = PENDING")
    case True
    with run get have "r = Inr (i\<lparr>iv_status := REVOKED\<rparr>)"
      "s' = AuditService_log now ''invitation_revoked'' None (Some (tn_id t)) (Some by_user)
         ''TenantInvitation'' (iv_id i) [(''email'', iv_email i)] (save_invitation (i\<lparr>iv_status := REVOKED\<rparr>) s)"
      by (auto simp: revoke_invitation_def Let_def)
    with i True assms(5) show P by simp
  next
    case False
    with run get have "\<exists>m. r = Inl (ValidationServiceError m)" "s' = s"
      by (auto simp: revoke_invitation_def)
    with i False assms(4) show P by blast
  qed
qed simp

lemma send_cases [consumes 1, case_names rejected sent]:
  assumes run: "send_invitation url now k token t email0 role by_user s = (r, s')"
    and "s' = s \<Longrightarrow> (\<And>i. r \<noteq> Inr i) \<Longrightarrow> P"
    and "\<And>i. i = \<lparr>iv_id = k, iv_tenant = tn_id t, iv_email = strip_lower email0, iv_role = role,
            iv_token = token, iv_status = PENDING, iv_invited_by = Some (us_pk by_user),
            iv_accepted_by = None, iv_expires_at = now + 259200, iv_created_at = now\<rparr> \<Longrightarrow>
      role \<in> set RoleChoices_values \<Longrightarrow>
      (\<forall>x\<in>set (invitations s). iv_id x \<noteq> k \<and> iv_token x \<noteq> token \<and>
         \<not> (iv_tenant x = tn_id t \<and> iv_email x = strip_lower email0 \<and> iv_status x = PENDING)) \<Longrightarrow>
      check_member_limit t s = Inr () \<Longrightarrow>
      r = (if broker_up s then Inr i else Inl BrokerError) \<Longrightarrow>
      s' = s\<lparr>invitations := invitations s @ [i],
             queue := queue s @ (if broker_up s then [Send_invitation_email (strip_lower email0) (tn_name t)
                (invited_by_name by_user) role (url @ ''/invitations/'' @ token @ ''/accept'')] else [])\<rparr> \<Longrightarrow> P"
  shows P
proof (cases "\<exists>i. insert_invitation \<lparr>iv_id = k, iv_tenant = tn_id t, iv_email = strip_lower email0, iv_role = role,
            iv_token = token, iv_status = PENDING, iv_invited_by = Some (us_pk by_user),
            iv_accepted_by = None, iv_expires_at = now + 259200, iv_created_at = now\<rparr> s = (Inr i, s\<lparr>invitations := invitations s @ [i]\<rparr>)
      \<and> role \<in> set RoleChoices_values \<and> check_member_limit t s = Inr () \<and>
      \<not> qs_exists (\<lambda>i. iv_tenant i = tn_id t \<and> iv_email i = strip_lower email0 \<and> iv_status i = PENDING) (invitations s) \<and>
      \<not> (case qs_first (\<lambda>u. int (us_pk u)) (\<lambda>u. us_email u = strip_lower email0) (users s) of
           Some u \<Rightarrow> qs_exists (\<lambda>r. role_key r = (us_pk u, tn_id t)) (roles s) | None \<Rightarrow> False)")
  case True
  then show ?thesis
    using run
    by (intro assms(3) [OF refl])
      (auto simp: send_invitation_def Let_def strip_lower_def [symmetric] default_expires_at_def EXPIRY_HOURS_def
        insert_invitation_def dispatch_email_def delay_def simp del: qs_first_None split: if_splits)
next
  case False
  then have "s' = s \<and> (\<forall>i. r \<noteq> Inr i)"
    using run
    by (auto simp: send_invitation_def Let_def strip_lower_def [symmetric] default_expires_at_def EXPIRY_HOURS_def
        insert_invitation_def simp del: qs_first_None split: if_splits sum.splits)
  with assms(2) show ?thesis by blast
qed

subsection \<open>Runs of the invitation operations\<close>

datatype invite_event =
    Send instant uuid string tenant string string user
  | Accept instant uuid string user
  | Revoke instant uuid tenant user

definition invite_step :: "string \<Rightarrow> db \<Rightarrow> invite_event \<Rightarrow> db" where
  "invite_step url s e =
     (case e of
        Send now k token t email role u \<Rightarrow> snd (send_invitation url now k token t email role u s)
      | Accept now rid token u \<Rightarrow> snd (accept_invitation now rid token u s)
      | Revoke now k t u \<Rightarrow> snd (revoke_invitation now k t u s))"

definition invite_admits :: "db \<Rightarrow> invite_event \<Rightarrow> bool" where
  "invite_admits s e = (case e of Send _ _ _ t _ _ _ \<Rightarrow> tenant_of s (tn_id t) \<noteq> None | _ \<Rightarrow> True)"

definition invite_inv :: "db \<Rightarrow> bool" where
  "invite_inv s \<longleftrightarrow> invitations_ok s \<and> roles_ok s"

lemma invite_step_evolves:
  assumes inv: "invite_inv s" and adm: "invite_admits s e"
  shows "invite_inv (invite_step url s e) \<and> evolves s (invite_step url s e) \<and>
    tenants (invite_step url s e) = tenants s"
proof (cases e)
  case (Send now k token t email role u)
  obtain r s' where run: "send_invitation url now k token t email role u s = (r, s')"
    by (cases "send_invitation url now k token t email role u s")
  then have "invite_inv s' \<and> evolves s s' \<and> tenants s' = tenants s"
  proof (cases rule: send_cases)
    case rejected
    with inv show ?thesis by simp
  next
    case (sent i)
    have "tenant_of s (tn_id t) \<noteq> None" using adm Send by (simp add: invite_admits_def)
    with sent inv have "invitations_ok s'"
      by (auto simp: invite_inv_def invitations_ok_def tbl_ok_def tenant_of_def)
    moreover have sub: "set (invitations s) \<subseteq> set (invitations s')" using sent(6) by auto
    have "evolves s s'" unfolding evolves_def using row_step_refl sub by blast
    moreover have "roles s' = roles s" using sent(6) by simp
    ultimately show ?thesis using inv sent(6) by (simp add: invite_inv_def roles_ok_def)
  qed
  with run Send show ?thesis by (simp add: invite_step_def)
next
  case (Accept now rid token u)
  obtain r s' where run: "accept_invitation now rid token u s = (r, s')"
    by (cases "accept_invitation now rid token u s")
  have "invitations_ok s" "roles_ok s" using inv by (simp_all add: invite_inv_def)
  then have "invite_inv s' \<and> evolves s s' \<and> tenants s' = tenants s"
    using run
  proof (cases rule: accept_cases)
    case (expired i)
    have "invitations s' = invitations (save_invitation (i\<lparr>iv_status := EXPIRED, iv_accepted_by := iv_accepted_by i\<rparr>) s)"
      using expired by simp
    with close_invitation [OF \<open>invitations_ok s\<close> expired(1,3) status_step.expire this] expired inv
    show ?thesis by (simp add: invite_inv_def roles_ok_def)
  next
    case (accepted i)
    with close_invitation [OF \<open>invitations_ok s\<close> accepted(1) _ status_step.accept accepted(8)] inv
    show ?thesis by (simp add: invite_inv_def is_usable_def)
  qed (use inv in simp_all)
  with run Accept show ?thesis by (simp add: invite_step_def)
next
  case (Revoke now k t u)
  obtain r s' where run: "revoke_invitation now k t u s = (r, s')"
    by (cases "revoke_invitation now k t u s")
  have "invitations_ok s" using inv by (simp add: invite_inv_def)
  then have "invite_inv s' \<and> evolves s s' \<and> tenants s' = tenants s"
    using run
  proof (cases rule: revoke_cases)
    case (revoked i)
    have "invitations s' = invitations (save_invitation (i\<lparr>iv_status := REVOKED, iv_accepted_by := iv_accepted_by i\<rparr>) s)"
      using revoked by simp
    with close_invitation [OF \<open>invitations_ok s\<close> revoked(1,4) status_step.revoke this] revoked inv
    show ?thesis by (simp add: invite_inv_def roles_ok_def)
  qed (use inv in simp_all)
  with run Revoke show ?thesis by (simp add: invite_step_def)
qed

interpretation invite_machine: preserved "invite_step url" invite_admits invite_inv for url
  by unfold_locales (simp add: invite_step_evolves)

lemma invite_run_evolves:
  "\<lbrakk>invite_inv s; invite_machine.admitted url s es\<rbrakk> \<Longrightarrow> evolves s (foldl (invite_step url) s es)"
proof (induction es arbitrary: s)
  case (Cons e es)
  then have "evolves s (invite_step url s e)" "invite_inv (invite_step url s e)"
    using invite_step_evolves [of s e url] by simp_all
  with Cons show ?case using evolves_trans [of s "invite_step url s e"] by simp
qed simp

text \<open>A closed invitation keeps its row, so its token stays closed.\<close>

lemma closed_token_refused:
  assumes inv: "invite_inv s" and i: "i \<in> set (invitations s)" "iv_status i \<noteq> PENDING" "iv_token i = token"
  shows "accept_invitation now rid token u s =
    (Inl (NotFoundServiceError ''This invitation has already been used or revoked.''), s)"
proof -
  have ok: "invitations_ok s" using inv by (simp add: invite_inv_def)
  then have "tbl_lookup iv_token (invitations s) token = Some i"
    using i by (simp add: invitations_ok_def tbl_lookup_Some)
  with i(2) show ?thesis unfolding accept_invitation_def get_invitation [OF ok] by simp
qed

lemma run_keeps_closed:
  assumes "invite_inv s" and "invite_machine.admitted url s es"
    and "i \<in> set (invitations s)" "iv_status i \<noteq> PENDING"
  shows "i \<in> set (invitations (foldl (invite_step url) s es))"
proof -
  from invite_run_evolves [OF assms(1,2)] assms(3) obtain j
    where j: "j \<in> set (invitations (foldl (invite_step url) s es))" "row_step i j"
    by (auto simp: evolves_def)
  from j(2) have "status_step\<^sup>*\<^sup>* (iv_status i) (iv_status j)" by (simp add: row_step_def)
  then have "iv_status j = iv_status i" using assms(4) by (rule status_final)
  with j(2) have "j = i" by (simp add: row_step_def)
  with j(1) show ?thesis by simp
qed

subsection \<open>Properties\<close>

text \<open>C14. Accepting an invitation, in every branch: an unknown token, one that was used, revoked or
  expired before, and a caller who is already a member are refused with nothing written; a
  pending invitation past its 72 hours is refused and marked expired; otherwise the caller, whoever he
  is, gets exactly the invited role in the invitation's tenant, nobody else's role changes, and the
  invitation is closed in his name.\<close>

theorem accept_invitation_correct:
  assumes "invitations_ok s" and "roles_ok s" and "accept_invitation now rid token u s = (r, s')"
  shows "case tbl_lookup iv_token (invitations s) token of
      None \<Rightarrow> r = Inl (NotFoundServiceError ''Invitation not found.'') \<and> s' = s
    | Some i \<Rightarrow>
        if iv_status i \<noteq> PENDING then (\<exists>m. r = Inl (NotFoundServiceError m)) \<and> s' = s
        else if is_expired now i
        then (\<exists>m. r = Inl (ValidationServiceError m)) \<and> role_map s' = role_map s \<and>
          tbl_lookup iv_token (invitations s') token = Some (i\<lparr>iv_status := EXPIRED\<rparr>)
        else if role_map s (us_pk u, iv_tenant i) \<noteq> None
        then (\<exists>m. r = Inl (ConflictServiceError m)) \<and> s' = s
        else (let i' = i\<lparr>iv_status := ACCEPTED, iv_accepted_by := Some (us_pk u)\<rparr>
              in r = Inr i' \<and> role_map s' = (role_map s)((us_pk u, iv_tenant i) \<mapsto> iv_role i) \<and>
                 tbl_lookup iv_token (invitations s') token = Some i')"
proof -
  have look: "tbl_lookup iv_token (invitations s) token = Some i"
    if "i \<in> set (invitations s)" "iv_token i = token" for i
    using that assms(1) by (simp add: invitations_ok_def tbl_lookup_Some)
  show ?thesis
    using assms
  proof (cases rule: accept_cases)
    case (expired i)
    have s': "invitations s' = invitations (save_invitation (i\<lparr>iv_status := EXPIRED, iv_accepted_by := iv_accepted_by i\<rparr>) s)"
      using expired by simp
    from close_invitation [OF assms(1) expired(1,3) status_step.expire s'] expired
    have "tbl_lookup iv_token (invitations s') token = Some (i\<lparr>iv_status := EXPIRED\<rparr>)"
      by (simp add: invitations_ok_def tbl_lookup_Some)
    with expired look show ?thesis by (auto simp: role_map_def)
  next
    case (accepted i)
    from close_invitation [OF assms(1) accepted(1) _ status_step.accept accepted(8,9)] accepted(2,3)
    have "tbl_lookup iv_token (invitations s') token = Some (i\<lparr>iv_status := ACCEPTED, iv_accepted_by := Some (us_pk u)\<rparr>)"
      by (simp add: invitations_ok_def tbl_lookup_Some is_usable_def)
    with accepted(1-7) look [OF accepted(1,2)] show ?thesis by (simp add: is_usable_def Let_def)
  qed (use look in \<open>simp_all add: is_usable_def\<close>)
qed

definition invite_row :: "string \<Rightarrow> tenant_invitation" where
  "invite_row token = \<lparr>iv_id = ''i'' @ token, iv_tenant = ''t1'', iv_email = token @ ''@x.test'', iv_role = ''admin'',
     iv_token = token, iv_status = PENDING, iv_invited_by = Some 1, iv_accepted_by = None,
     iv_expires_at = 100, iv_created_at = 0\<rparr>"

lemma invite_row_simps [simp]:
  "iv_id (invite_row k) = ''i'' @ k" "iv_tenant (invite_row k) = ''t1''" "iv_email (invite_row k) = k @ ''@x.test''"
  "iv_role (invite_row k) = ''admin''" "iv_token (invite_row k) = k" "iv_status (invite_row k) = PENDING"
  "iv_expires_at (invite_row k) = 100" "iv_accepted_by (invite_row k) = None"
  by (simp_all add: invite_row_def)

lemma invite_row_inv [simp]: "invite_inv (demo_db\<lparr>invitations := [invite_row k]\<rparr>)"
  by (simp add: invite_inv_def invitations_ok_def roles_ok_def tbl_ok_def tenant_of_def RoleChoices_values_def)

theorem accept_invitation_correct_witness:
  "fst (accept_invitation 100 ''r9'' ''k'' bob (demo_db\<lparr>invitations := [invite_row ''k'']\<rparr>)) =
     Inr ((invite_row ''k'')\<lparr>iv_status := ACCEPTED, iv_accepted_by := Some 2\<rparr>)"
proof -
  let ?s = "demo_db\<lparr>invitations := [invite_row ''k'']\<rparr>"
  obtain r s' where run: "accept_invitation 100 ''r9'' ''k'' bob ?s = (r, s')"
    by (cases "accept_invitation 100 ''r9'' ''k'' bob ?s")
  have ok: "invitations_ok ?s" "roles_ok ?s" using invite_row_inv by (simp_all add: invite_inv_def)
  have "tbl_lookup iv_token (invitations ?s) ''k'' = Some (invite_row ''k'')" by (simp add: tbl_lookup_def)
  moreover have "role_map ?s (2, ''t1'') = None" by (simp add: role_map_def tbl_lookup_def)
  ultimately show ?thesis
    using accept_invitation_correct [OF ok run] run by (simp add: is_expired_def Let_def)
qed

text \<open>C24. An invitation token works at most once: after it was accepted, by anyone, no sequence of
  sends, accepts and revokes makes it acceptable again - every later attempt, by anyone and at any
  time, answers not found and writes nothing.\<close>

theorem token_single_use:
  assumes inv: "invite_inv s" and first: "accept_invitation now rid token u s = (Inr i, s1)"
    and run: "invite_machine.admitted url s1 es"
  shows "accept_invitation now' rid' token v (foldl (invite_step url) s1 es) =
    (Inl (NotFoundServiceError ''This invitation has already been used or revoked.''),
     foldl (invite_step url) s1 es)"
proof -
  have ok: "invitations_ok s" "roles_ok s" using inv by (simp_all add: invite_inv_def)
  have inv1: "invite_inv s1"
    using invite_step_evolves [OF inv, of "Accept now rid token u" url] first
    by (simp add: invite_admits_def invite_step_def)
  have "i \<in> set (invitations s1) \<and> iv_status i \<noteq> PENDING \<and> iv_token i = token"
    using ok first
  proof (cases rule: accept_cases)
    case (accepted j)
    then have "iv_status j = PENDING" by (simp add: is_usable_def)
    with close_invitation [OF ok(1) accepted(1) _ status_step.accept accepted(8,9)] accepted(2,5)
    show ?thesis by simp
  qed simp_all
  with run_keeps_closed [OF inv1 run, of i] invite_machine.inv_run [OF inv1 run]
  show ?thesis by (intro closed_token_refused) auto
qed

theorem token_single_use_witness:
  "fst (accept_invitation 7 ''r8'' ''k'' alice
     (snd (accept_invitation 5 ''r9'' ''k'' bob (demo_db\<lparr>invitations := [invite_row ''k'']\<rparr>)))) =
   Inl (NotFoundServiceError ''This invitation has already been used or revoked.'')"
proof -
  let ?s = "demo_db\<lparr>invitations := [invite_row ''k'']\<rparr>"
  have ok: "invitations_ok ?s" "roles_ok ?s" using invite_row_inv by (simp_all add: invite_inv_def)
  obtain r s1 where run: "accept_invitation 5 ''r9'' ''k'' bob ?s = (r, s1)"
    by (cases "accept_invitation 5 ''r9'' ''k'' bob ?s")
  have "\<exists>i. r = Inr i"
    using ok run
    by (cases rule: accept_cases)
      (auto simp: tbl_lookup_def is_expired_def is_usable_def role_map_def)
  then obtain i where "accept_invitation 5 ''r9'' ''k'' bob ?s = (Inr i, s1)" using run by auto
  from token_single_use [OF invite_row_inv this, where url = "[]" and es = "[]" and now' = 7 and
      rid' = "''r8''" and v = alice] run
  show ?thesis by simp
qed

text \<open>Sending either writes nothing and raises, or leaves exactly one new pending invitation, for
  the trimmed lower-cased address and an existing role, valid for 72 hours, while the plan still has
  room and no other pending invitation for that address exists; all invitations stay unique. A
  broker failure raises after the invitation was stored, so the same call made again is a conflict.\<close>

theorem send_invitation_correct:
  assumes ok: "invitations_ok s" and t: "tenant_of s (tn_id t) = Some t"
    and run: "send_invitation url now k token t email role u s = (r, s')"
  shows "(s' = s \<and> (\<exists>e. r = Inl e)) \<or>
    (invitations_ok s' \<and> check_member_limit t s = Inr () \<and>
     (\<exists>i. invitations s' = invitations s @ [i] \<and> iv_status i = PENDING \<and> iv_tenant i = tn_id t \<and>
        iv_email i = strip_lower email \<and> iv_role i = role \<and> role \<in> set RoleChoices_values \<and>
        (\<forall>time. is_usable time i \<longleftrightarrow> time \<le> now + 259200) \<and>
        r = (if broker_up s then Inr i else Inl BrokerError)) \<and>
     (\<forall>now' k' token' up. \<exists>m. send_invitation url now' k' token' t email role u (s'\<lparr>broker_up := up\<rparr>) =
        (Inl (ConflictServiceError m), s'\<lparr>broker_up := up\<rparr>)))"
  using run
proof (cases rule: send_cases)
  case rejected
  then show ?thesis by (cases r) auto
next
  case (sent i)
  have "invitations_ok s'"
    using sent ok t by (auto simp: invitations_ok_def tbl_ok_def tenant_of_def)
  moreover have "qs_exists (\<lambda>i. iv_tenant i = tn_id t \<and> iv_email i = strip_lower email \<and> iv_status i = PENDING)
      (invitations s')"
    using sent by auto
  then have "\<exists>m. send_invitation url now' k' token' t email role u (s'\<lparr>broker_up := up\<rparr>) =
        (Inl (ConflictServiceError m), s'\<lparr>broker_up := up\<rparr>)" for now' k' token' up
    using sent(2) by (simp add: send_invitation_def Let_def strip_lower_def del: qs_exists_iff)
  moreover have "is_usable time i \<longleftrightarrow> time \<le> now + 259200" for time
    using sent(1) by (auto simp: is_usable_def is_expired_def)
  ultimately show ?thesis using sent by (intro disjI2 conjI exI [of _ i]) simp_all
qed

theorem send_invitation_correct_witness:
  "\<exists>i. invitations (snd (send_invitation [] 5 ''i1'' ''k1'' demo_tenant '' New@X.test '' ''member'' alice
     (demo_db\<lparr>broker_up := False\<rparr>))) = [i] \<and> iv_email i = ''new@x.test''"
proof -
  let ?s = "demo_db\<lparr>broker_up := False\<rparr>"
  obtain r s' where run: "send_invitation [] 5 ''i1'' ''k1'' demo_tenant '' New@X.test '' ''member'' alice ?s = (r, s')"
    by (cases "send_invitation [] 5 ''i1'' ''k1'' demo_tenant '' New@X.test '' ''member'' alice ?s")
  have email: "strip_lower '' New@X.test '' = ''new@x.test''" by code_simp
  have users: "qs_first (\<lambda>u. int (us_pk u)) (\<lambda>u. us_email u = ''new@x.test'') [alice, bob] = None"
    by (simp add: qs_first_def)
  have ok: "invitations_ok ?s" and t: "tenant_of ?s (tn_id demo_tenant) = Some demo_tenant"
    by (simp_all add: invitations_ok_def tbl_ok_def tenant_of_def)
  have "invitations s' \<noteq> []"
    using run email users
    by (auto simp: send_invitation_def Let_def strip_lower_def [symmetric] RoleChoices_values_def
        check_member_limit_def get_plan_def subscription_of_def insert_invitation_def dispatch_email_def
        delay_def simp del: qs_first_None)
  with send_invitation_correct [OF ok t run] run email show ?thesis by fastforce
qed

text \<open>The member quota is checked when an invitation is sent, never when it is accepted: with the
  tenant already at its plan's limit, every usable invitation is still accepted and leaves the tenant
  one member above the limit.\<close>

theorem accept_exceeds_plan_limit:
  assumes ok: "invitations_ok s" "roles_ok s"
    and i: "tbl_lookup iv_token (invitations s) token = Some i" "is_usable now i"
    and t: "tenant_of s (iv_tenant i) = Some t"
    and full: "get_plan t s = Some p" "0 < pl_max_members p" "get_member_count t s = pl_max_members p"
    and new: "role_map s (us_pk u, iv_tenant i) = None"
    and run: "accept_invitation now rid token u s = (r, s')"
  shows "isl (check_member_limit t s) \<and> \<not> isl r \<and> get_plan t s' = Some p \<and>
    pl_max_members p < get_member_count t s'"
proof -
  note tid = tenant_id_of [OF t]
  have full': "isl (check_member_limit t s)"
    using full by (simp add: check_member_limit_def is_unlimited_members_def)
  from accept_usable [OF ok i new, of rid] run
  have acc: "\<exists>j. r = Inr j" "roles_ok s'" "role_map s' = (role_map s)((us_pk u, iv_tenant i) \<mapsto> iv_role i)"
    "subscriptions s' = subscriptions s" "plans s' = plans s"
    by (metis Pair_inject)+
  have keys: "\<exists>x\<in>set (roles s'). role_key x = k" if "\<exists>x\<in>set (roles s). role_key x = k" for k
  proof -
    from that have "role_map s k \<noteq> None" by (simp add: role_map_def tbl_lookup_count)
    then have "role_map s' k \<noteq> None" using acc(3) by simp
    then show ?thesis by (simp add: role_map_def tbl_lookup_count)
  qed
  let ?K = "\<lambda>s. role_key ` {x \<in> set (roles s). ur_tenant x = tn_id t}"
  have card: "get_member_count t s = card (?K s)" if "roles_ok s" for s
  proof -
    have "distinct (map role_key (filter (\<lambda>x. ur_tenant x = tn_id t) (roles s)))"
      using that by (simp add: roles_ok_def tbl_ok_def distinct_map_filter)
    from distinct_card [OF this] show ?thesis by (simp add: get_member_count_def qs_count_def)
  qed
  have fresh: "(us_pk u, tn_id t) \<notin> ?K s"
    using new tid by (auto simp: role_map_def tbl_lookup_count)
  have "role_map s' (us_pk u, tn_id t) \<noteq> None" using acc(3) tid by simp
  then have "\<exists>x\<in>set (roles s'). role_key x = (us_pk u, tn_id t)"
    by (simp add: role_map_def tbl_lookup_count)
  with keys have "insert (us_pk u, tn_id t) (?K s) \<subseteq> ?K s'"
    by (fastforce simp: role_key_def image_iff)
  then have "card (insert (us_pk u, tn_id t) (?K s)) \<le> card (?K s')" by (rule card_mono [rotated]) simp
  with fresh have "get_member_count t s < get_member_count t s'"
    using card [OF ok(2)] card [OF acc(2)] by simp
  moreover have "get_plan t s' = get_plan t s"
  proof -
    have "plan_of s' = plan_of s" using acc(5) by (simp add: plan_of_def fun_eq_iff)
    then show ?thesis using acc(4) by (simp add: get_plan_def subscription_of_def split: option.split)
  qed
  ultimately show ?thesis using full full' acc(1) by auto
qed

definition full_db :: db where
  "full_db = demo_db\<lparr>invitations := [invite_row ''k''], roles := [member_row 1 ''t1'' ''owner''],
     plans := [pro_plan\<lparr>pl_max_members := 1\<rparr>], subscriptions := [sub_row ''t1'' (Some 1) ''active'']\<rparr>"

theorem accept_exceeds_plan_limit_witness:
  "1 < get_member_count demo_tenant (snd (accept_invitation 5 ''r9'' ''k'' bob full_db))"
proof -
  have ok: "invitations_ok full_db" "roles_ok full_db"
    by (simp_all add: full_db_def invitations_ok_def roles_ok_def tbl_ok_def tenant_of_def RoleChoices_values_def)
  have i: "tbl_lookup iv_token (invitations full_db) ''k'' = Some (invite_row ''k'')" "is_usable 5 (invite_row ''k'')"
    by (simp_all add: full_db_def tbl_lookup_def is_usable_def is_expired_def)
  have t: "tenant_of full_db (iv_tenant (invite_row ''k'')) = Some demo_tenant"
    by (simp add: full_db_def tenant_of_def)
  have plan: "get_plan demo_tenant full_db = Some (pro_plan\<lparr>pl_max_members := 1\<rparr>)"
    "0 < pl_max_members (pro_plan\<lparr>pl_max_members := 1\<rparr>)"
    "get_member_count demo_tenant full_db = pl_max_members (pro_plan\<lparr>pl_max_members := 1\<rparr>)"
    by (simp_all add: full_db_def get_plan_def subscription_of_def plan_of_def get_member_count_def qs_count_def)
  have new: "role_map full_db (us_pk bob, iv_tenant (invite_row ''k'')) = None"
    by (simp add: full_db_def role_map_def tbl_lookup_def role_key_def)
  obtain r s' where run: "accept_invitation 5 ''r9'' ''k'' bob full_db = (r, s')"
    by (cases "accept_invitation 5 ''r9'' ''k'' bob full_db")
  from accept_exceeds_plan_limit [OF ok i t plan new run] run show ?thesis by simp
qed

text \<open>A pending invitation that ran out of time is a dead end until somebody tries its token: the
  admin's list no longer shows it, yet a new invitation to the same address is refused as a
  duplicate, at any later time.\<close>

theorem expired_invitation_blocks:
  assumes i: "i \<in> set (invitations s)" "iv_status i = PENDING" "iv_tenant i = tn_id t"
    and later: "iv_expires_at i \<le> now" and email: "strip_lower email = iv_email i"
    and role: "role \<in> set RoleChoices_values"
  shows "i \<notin> set (list_pending now t s) \<and>
    (\<exists>m. send_invitation url now k token t email role u s = (Inl (ConflictServiceError m), s))"
proof -
  have "qs_exists (\<lambda>x. iv_tenant x = tn_id t \<and> iv_email x = strip_lower email \<and> iv_status x = PENDING)
      (invitations s)"
    using i email by auto
  then show ?thesis
    using role later
    by (simp add: send_invitation_def Let_def strip_lower_def list_pending_def del: qs_exists_iff)
qed

theorem expired_invitation_blocks_witness:
  "\<exists>m. send_invitation [] 100 ''i2'' ''k2'' demo_tenant ''k@x.test'' ''admin'' alice
     (demo_db\<lparr>invitations := [invite_row ''k'']\<rparr>) =
   (Inl (ConflictServiceError m), demo_db\<lparr>invitations := [invite_row ''k'']\<rparr>)"
proof -
  have "strip_lower ''k@x.test'' = iv_email (invite_row ''k'')" by code_simp
  then show ?thesis
    by (intro expired_invitation_blocks [where i = "invite_row ''k''", THEN conjunct2])
      (simp_all add: RoleChoices_values_def)
qed

subsection \<open>Authorised for one tenant, acting in another\<close>

lemma send_invitation_fresh:
  assumes "role \<in> set RoleChoices_values" and "check_member_limit t s = Inr ()" and "broker_up s"
    and "\<And>x. x \<in> set (users s) \<Longrightarrow> us_email x = strip_lower email \<Longrightarrow> role_map s (us_pk x, tn_id t) = None"
    and "\<And>x. x \<in> set (invitations s) \<Longrightarrow> iv_id x \<noteq> k \<and> iv_token x \<noteq> token \<and>
      \<not> (iv_tenant x = tn_id t \<and> iv_email x = strip_lower email \<and> iv_status x = PENDING)"
  obtains i where "i = \<lparr>iv_id = k, iv_tenant = tn_id t, iv_email = strip_lower email, iv_role = role,
            iv_token = token, iv_status = PENDING, iv_invited_by = Some (us_pk u),
            iv_accepted_by = None, iv_expires_at = now + 259200, iv_created_at = now\<rparr>"
    and "send_invitation url now k token t email role u s = (Inr i, s\<lparr>invitations := invitations s @ [i],
             queue := queue s @ [Send_invitation_email (strip_lower email) (tn_name t)
                (invited_by_name u) role (url @ ''/invitations/'' @ token @ ''/accept'')]\<rparr>)"
proof -
  have "\<not> (case qs_first (\<lambda>u. int (us_pk u)) (\<lambda>u. us_email u = strip_lower email) (users s) of
           Some u \<Rightarrow> qs_exists (\<lambda>r. role_key r = (us_pk u, tn_id t)) (roles s) | None \<Rightarrow> False)"
    using assms(4)
    by (auto simp: role_map_def tbl_lookup_count simp del: qs_first_None split: option.splits
        dest!: qs_first_Some)
  moreover have "\<not> qs_exists (\<lambda>i. iv_tenant i = tn_id t \<and> iv_email i = strip_lower email \<and> iv_status i = PENDING) (invitations s)"
    "\<not> qs_exists (\<lambda>x. iv_id x = k \<or> iv_token x = token) (invitations s)"
    using assms(5) by auto
  ultimately show thesis
    using assms(1-3)
    by (intro that [OF refl])
      (simp add: send_invitation_def Let_def strip_lower_def [symmetric] default_expires_at_def EXPIRY_HOURS_def
        insert_invitation_def dispatch_email_def delay_def del: qs_exists_iff qs_first_None)
qed


definition takeover_db :: db where
  "takeover_db = demo_db\<lparr>roles := [member_row 2 ''t2'' ''admin'']\<rparr>"


end
