(* ===== verification/Idempotency.thy ===== *)
theory Idempotency
  imports Store
begin

text \<open>
  \<open>services/common/idempotency.py\<close>: run an operation unless its result is in the cache. The
  operation works on a world \<open>'w\<close> of its own and returns the string Celery stores, or
  \<open>None\<close>; \<open>now\<close> and \<open>now'\<close> are the instants of the cache read and of the cache write.
  A cached \<open>None\<close> reads like an absent key, so storing it is deleting the key.

  Sequential callers get at-most-once; \<open>worker_step\<close> interleaves the read, the operation and
  the write of several workers and shows that concurrent callers do not.
\<close>

definition DEFAULT_TTL_SECONDS :: int where "DEFAULT_TTL_SECONDS = 60 * 60 * 24"

definition build_key :: "string \<Rightarrow> string \<Rightarrow> string" where
  "build_key task_name business_id = task_name @ '':'' @ business_id"

definition result_cache_key :: "string \<Rightarrow> string" where
  "result_cache_key idempotency_key = ''celery:idempotent:'' @ idempotency_key"

definition store_result ::
  "instant \<Rightarrow> int \<Rightarrow> string \<Rightarrow> string option \<Rightarrow> (string, string) cache \<Rightarrow> (string, string) cache" where
  "store_result now ttl k r c =
     (case r of Some v \<Rightarrow> cache_set now ttl k v c | None \<Rightarrow> cache_delete k c)"

definition idempotent_run ::
  "instant \<Rightarrow> instant \<Rightarrow> int \<Rightarrow> string \<Rightarrow> ('w, string option) op \<Rightarrow>
   ((string, string) cache \<times> 'w, string option) op" where
  "idempotent_run now now' ttl_seconds idempotency_key operation cw =
     (let full_key = result_cache_key idempotency_key
      in case cache_get now (fst cw) full_key of
           Some cached \<Rightarrow> (Inr (Some cached), cw)
         | None \<Rightarrow>
             (case operation (snd cw) of
                (Inl e, w) \<Rightarrow> (Inl e, (fst cw, w))
              | (Inr r, w) \<Rightarrow> (Inr r, (store_result now' ttl_seconds full_key r (fst cw), w))))"

lemma result_cache_key_inject [simp]: "result_cache_key a = result_cache_key b \<longleftrightarrow> a = b"
  by (simp add: result_cache_key_def)

text \<open>What a run leaves in the cache under a key, at any instant.\<close>

lemma cache_get_store_result:
  "cache_get t (store_result now ttl k r c) k' =
     (if k' = k then (case r of Some v \<Rightarrow> if t < now + ttl then Some v else None | None \<Rightarrow> None)
      else cache_get t c k')"
  by (simp add: store_result_def django_cache.get_set django_cache.get_delete split: option.splits)

subsection \<open>Sequential callers\<close>

text \<open>
  A delivery is the instant it is processed and its key. The world is the list of keys
  whose operation ran, the operation succeeds with a result that depends on the key.
\<close>

definition logged :: "(string \<Rightarrow> string) \<Rightarrow> string \<Rightarrow> (string list, string option) op" where
  "logged f k log = (Inr (Some (f k)), log @ [k])"

definition deliver ::
  "(string \<Rightarrow> string) \<Rightarrow> int \<Rightarrow> (string, string) cache \<times> string list \<Rightarrow> instant \<times> string \<Rightarrow>
   (string, string) cache \<times> string list" where
  "deliver f ttl cw d = snd (idempotent_run (fst d) (fst d) ttl (snd d) (logged f (snd d)) cw)"

text \<open>Every key whose operation ran is in the cache, at least until the end of the window.\<close>

definition window_inv :: "(string \<Rightarrow> string) \<Rightarrow> instant \<Rightarrow> (string, string) cache \<times> string list \<Rightarrow> bool" where
  "window_inv f end cw \<longleftrightarrow> distinct (snd cw) \<and>
     (\<forall>k\<in>set (snd cw). \<forall>t<end. cache_get t (fst cw) (result_cache_key k) = Some (f k))"

lemma window_inv_deliver:
  assumes "window_inv f end cw" and "fst d < end" and "end \<le> fst d + ttl"
  shows "window_inv f end (deliver f ttl cw d)"
proof (cases "cache_get (fst d) (fst cw) (result_cache_key (snd d))")
  case None
  then have "snd d \<notin> set (snd cw)" using assms(1,2) by (auto simp: window_inv_def)
  with None assms show ?thesis
    by (auto simp: deliver_def idempotent_run_def logged_def window_inv_def cache_get_store_result)
next
  case (Some v)
  with assms(1) show ?thesis by (simp add: deliver_def idempotent_run_def)
qed

interpretation deliveries: preserved "deliver f ttl" "\<lambda>_ d. fst d < end \<and> end \<le> fst d + ttl" "window_inv f end"
  for f ttl "end"
  by unfold_locales (blast intro: window_inv_deliver)

lemma deliveries_admitted:
  "\<forall>d\<in>set ds. fst d < end \<and> end \<le> fst d + ttl \<Longrightarrow> deliveries.admitted f ttl end cw ds"
  by (induction ds arbitrary: cw) auto

subsection \<open>Concurrent workers\<close>

datatype worker = Start | Missed | Ran string | Finished string

text \<open>One worker at a time takes one of its three steps; \<open>op\<close> is what its operation returns.\<close>

inductive worker_step ::
  "instant \<Rightarrow> int \<Rightarrow> string \<Rightarrow> (nat \<Rightarrow> string) \<Rightarrow> (string, string) cache \<times> nat list \<times> worker list \<Rightarrow>
   (string, string) cache \<times> nat list \<times> worker list \<Rightarrow> bool"
  for now :: instant and ttl :: int and key :: string and result :: "nat \<Rightarrow> string" where
  hit: "\<lbrakk>w < length ws; ws ! w = Start; cache_get now c (result_cache_key key) = Some v\<rbrakk> \<Longrightarrow>
    worker_step now ttl key result (c, log, ws) (c, log, ws[w := Finished v])"
| miss: "\<lbrakk>w < length ws; ws ! w = Start; cache_get now c (result_cache_key key) = None\<rbrakk> \<Longrightarrow>
    worker_step now ttl key result (c, log, ws) (c, log, ws[w := Missed])"
| execute: "\<lbrakk>w < length ws; ws ! w = Missed\<rbrakk> \<Longrightarrow>
    worker_step now ttl key result (c, log, ws) (c, log @ [w], ws[w := Ran (result w)])"
| store: "\<lbrakk>w < length ws; ws ! w = Ran v\<rbrakk> \<Longrightarrow>
    worker_step now ttl key result (c, log, ws)
      (store_result now ttl (result_cache_key key) (Some v) c, log, ws[w := Finished v])"

definition workers_inv :: "(string, string) cache \<times> nat list \<times> worker list \<Rightarrow> bool" where
  "workers_inv x \<longleftrightarrow> distinct (fst (snd x)) \<and>
     (\<forall>w\<in>set (fst (snd x)). w < length (snd (snd x)) \<and> snd (snd x) ! w \<notin> {Start, Missed})"

lemma workers_inv_step: "worker_step now ttl key result x y \<Longrightarrow> workers_inv x \<Longrightarrow> workers_inv y"
  by (induction rule: worker_step.induct) (auto simp: workers_inv_def nth_list_update)

lemma workers_inv_reachable:
  "(worker_step now ttl key result)\<^sup>*\<^sup>* x y \<Longrightarrow> workers_inv x \<Longrightarrow> workers_inv y"
  by (induction rule: rtranclp_induct) (auto intro: workers_inv_step)

subsection \<open>Properties\<close>



text \<open>Concurrent workers are not exclusive: the cache is read before the operation and written
  after it, so two workers that handle the same key at the same time both run the operation (each
  worker at most once, in every interleaving of any number of workers).\<close>

theorem concurrent_runs_repeat:
  "(\<exists>c. (worker_step now ttl key result)\<^sup>*\<^sup>* (Map.empty, [], [Start, Start])
      (c, [0, 1], [Finished (result 0), Finished (result 1)])) \<and>
   (\<forall>n c log ws. (worker_step now ttl key result)\<^sup>*\<^sup>* (c0, [], replicate n Start) (c, log, ws) \<longrightarrow>
      distinct log \<and> set log \<subseteq> {..<n})"
proof
  let ?step = "worker_step now ttl key result" and ?k = "result_cache_key key"
  let ?c1 = "store_result now ttl ?k (Some (result 0)) Map.empty"
  have s1: "?step (Map.empty, [], [Start, Start]) (Map.empty, [], [Missed, Start])"
    using worker_step.miss [of 0 "[Start, Start]" now Map.empty key ttl result "[]"] by (simp add: cache_get_def)
  have s2: "?step (Map.empty, [], [Missed, Start]) (Map.empty, [], [Missed, Missed])"
    using worker_step.miss [of 1 "[Missed, Start]" now Map.empty key ttl result "[]"] by (simp add: cache_get_def)
  have s3: "?step (Map.empty, [], [Missed, Missed]) (Map.empty, [0], [Ran (result 0), Missed])"
    using worker_step.execute [of 0 "[Missed, Missed]" now ttl key result Map.empty "[]"] by simp
  have s4: "?step (Map.empty, [0], [Ran (result 0), Missed]) (Map.empty, [0, 1], [Ran (result 0), Ran (result 1)])"
    using worker_step.execute [of 1 "[Ran (result 0), Missed]" now ttl key result Map.empty "[0]"] by simp
  have s5: "?step (Map.empty, [0, 1], [Ran (result 0), Ran (result 1)]) (?c1, [0, 1], [Finished (result 0), Ran (result 1)])"
    using worker_step.store [of 0 "[Ran (result 0), Ran (result 1)]" "result 0" now ttl key result Map.empty "[0, 1]"]
    by simp
  have s6: "?step (?c1, [0, 1], [Finished (result 0), Ran (result 1)])
      (store_result now ttl ?k (Some (result 1)) ?c1, [0, 1], [Finished (result 0), Finished (result 1)])"
    using worker_step.store [of 1 "[Finished (result 0), Ran (result 1)]" "result 1" now ttl key result ?c1 "[0, 1]"]
    by simp
  show "\<exists>c. ?step\<^sup>*\<^sup>* (Map.empty, [], [Start, Start]) (c, [0, 1], [Finished (result 0), Finished (result 1)])"
    using s1 s2 s3 s4 s5 s6 by (meson converse_rtranclp_into_rtranclp rtranclp.rtrancl_refl)
next
  have "workers_inv (c0, [], replicate n Start)" for n by (simp add: workers_inv_def)
  moreover have "length (snd (snd y)) = length (snd (snd x))"
    if "(worker_step now ttl key result)\<^sup>*\<^sup>* x y" for x y
    using that by (induction rule: rtranclp_induct) (auto elim!: worker_step.cases)
  ultimately show "\<forall>n c log ws. (worker_step now ttl key result)\<^sup>*\<^sup>* (c0, [], replicate n Start) (c, log, ws) \<longrightarrow>
      distinct log \<and> set log \<subseteq> {..<n}"
    using workers_inv_reachable by (fastforce simp: workers_inv_def)
qed

end
