(* ===== verification/Users.thy ===== *)
theory Users
  imports Rbac Idempotency
begin

text \<open>
  \<open>services/users/\<close> (registration, welcome mail), \<open>services/common/email_service.py\<close> and
  \<open>apps/users/\<close>: the registration endpoint, the user list, the own profile. Parameters: the
  password validators and the password hash of Django (\<open>password_errors\<close>,
  \<open>make_password\<close>), the field validators of its user model (\<open>clean_errors\<close>), the
  serializer's field checks (\<open>valid_input\<close>), template rendering.
\<close>

subsection \<open>UserService\<close>

record create_user_input =
  ci_email :: string
  ci_username :: string
  ci_password :: string
  ci_first_name :: string
  ci_last_name :: string

definition get_display_name :: "user \<Rightarrow> string" where
  "get_display_name u = (if full_name u \<noteq> [] then full_name u else us_username u)"

definition enqueue_welcome_email :: "pk \<Rightarrow> (db, unit) op" where
  "enqueue_welcome_email p = delay (Send_welcome_email p)"

text \<open>\<open>user.full_clean()\<close> and \<open>user.save()\<close> of a new user: the field validators and the
  uniqueness of the username; the row gets the next primary key.\<close>

definition full_clean :: "(user \<Rightarrow> string list) \<Rightarrow> user \<Rightarrow> db \<Rightarrow> exn + unit" where
  "full_clean clean_errors u s =
     (let errors = clean_errors u @
            (if qs_exists (\<lambda>x. us_username x = us_username u) (users s)
             then [''A user with that username already exists.''] else [])
      in if errors = [] then Inr () else Inl (DjangoValidationError errors))"

definition insert_user :: "user \<Rightarrow> (db, user) op" where
  "insert_user u s =
     (if qs_exists (\<lambda>x. us_username x = us_username u) (users s) then (Inl IntegrityError, s)
      else let u' = u\<lparr>us_pk := next_user_pk s\<rparr>
           in (Inr u', s\<lparr>users := users s @ [u'], next_user_pk := next_user_pk s + 1\<rparr>))"

definition create_user ::
  "(string \<Rightarrow> string \<Rightarrow> string \<Rightarrow> string list) \<Rightarrow> (string \<Rightarrow> string) \<Rightarrow> (user \<Rightarrow> string list) \<Rightarrow>
   create_user_input \<Rightarrow> (db, user) op" where
  "create_user password_errors make_password clean_errors data s =
     (let email = py_lower (py_strip (ci_email data));
          username = py_strip (ci_username data)
      in if email = [] \<or> CHR 0x40 \<notin> set email
         then (Inl (ValidationServiceError ''A valid email address is required.''), s)
         else if username = [] then (Inl (ValidationServiceError ''Username is required.''), s)
         else if ci_password data = [] then (Inl (ValidationServiceError ''Password is required.''), s)
         else if password_errors (ci_password data) username email \<noteq> []
         then (Inl (ValidationServiceError
                 (join ''; '' (password_errors (ci_password data) username email))), s)
         else if qs_exists (\<lambda>u. us_username u = username) (users s)
         then (Inl (ConflictServiceError ''An account with that username already exists.''), s)
         else if qs_exists (\<lambda>u. us_email u = email) (users s)
         then (Inl (ConflictServiceError ''An account with that email already exists.''), s)
         else
           (let new = \<lparr>us_pk = 0, us_username = username, us_email = email,
                       us_first_name = py_strip (ci_first_name data),
                       us_last_name = py_strip (ci_last_name data),
                       us_password = make_password (ci_password data),
                       us_is_active = True, us_is_superuser = False\<rparr>
            in case atomic (\<lambda>s. case full_clean clean_errors new s of
                                  Inl e \<Rightarrow> (Inl e, s) | Inr _ \<Rightarrow> insert_user new s) s of
                 (Inl e, s1) \<Rightarrow>
                   (Inl (if e = IntegrityError
                         then ConflictServiceError ''An account with those credentials already exists.''
                         else e), s1)
               | (Inr u, s1) \<Rightarrow>
                   (case enqueue_welcome_email (us_pk u) s1 of
                      (Inl e, s2) \<Rightarrow> (Inl e, s2)
                    | (Inr _, s2) \<Rightarrow> (Inr u, s2))))"

subsection \<open>Serializers\<close>

record user_data =
  ud_id :: string
  ud_username :: string
  ud_email :: string
  ud_first_name :: string
  ud_last_name :: string
  ud_display_name :: string

definition UserSerializer :: "user \<Rightarrow> user_data" where
  "UserSerializer u =
     \<lparr>ud_id = str_nat (us_pk u), ud_username = us_username u, ud_email = us_email u,
      ud_first_name = us_first_name u, ud_last_name = us_last_name u,
      ud_display_name = get_display_name u\<rparr>"

definition two_fa_enabled :: "db \<Rightarrow> user \<Rightarrow> bool" where
  "two_fa_enabled s u = (case totp_of s (us_pk u) of Some t \<Rightarrow> tp_is_enabled t | None \<Rightarrow> False)"

subsection \<open>Registration and user list\<close>

definition UserCreateView_post ::
  "(create_user_input \<Rightarrow> bool) \<Rightarrow> (string \<Rightarrow> string \<Rightarrow> string \<Rightarrow> string list) \<Rightarrow> (string \<Rightarrow> string) \<Rightarrow>
   (user \<Rightarrow> string list) \<Rightarrow> create_user_input \<Rightarrow> db \<Rightarrow> user_data response \<times> db" where
  "UserCreateView_post valid_input password_errors make_password clean_errors data s =
     (if \<not> valid_input data then (Detail 400 ''invalid input'', s)
      else case create_user password_errors make_password clean_errors data s of
             (Inr u, s') \<Rightarrow> (Response 201 (UserSerializer u), s')
           | (Inl e, s') \<Rightarrow>
               (case e of
                  ValidationServiceError m \<Rightarrow> Detail 400 m
                | ConflictServiceError m \<Rightarrow> Detail 409 m
                | _ \<Rightarrow> Uncaught e, s'))"

text \<open>\<open>narrow\<close> is the filtering, searching, ordering and paging the generic view applies to the
  queryset.\<close>

definition users_of_tenant :: "tenant option \<Rightarrow> db \<Rightarrow> user list" where
  "users_of_tenant tn s =
     (case tn of
        None \<Rightarrow> []
      | Some t \<Rightarrow>
          filter (\<lambda>u. qs_exists (\<lambda>r. ur_user r = us_pk u \<and> ur_tenant r = tn_id t) (roles s))
            (rev (users s)))"

definition UserListView_get ::
  "(string \<Rightarrow> uuid option) \<Rightarrow> (user list \<Rightarrow> user list) \<Rightarrow> request \<Rightarrow> db \<Rightarrow> user_data list response \<times> db" where
  "UserListView_get parse_uuid narrow rq =
     authenticated_with_role parse_uuid [''owner'', ''admin''] rq None
       (\<lambda>u s. (Response 200 (map UserSerializer (narrow (users_of_tenant (rq_tenant rq) s))), s))"

subsection \<open>Profiles\<close>

text \<open>\<open>filename.rsplit(".", 1)[-1].lower()\<close> names the extension; \<open>hex\<close> is random.\<close>

definition avatar_upload_path :: "string \<Rightarrow> pk \<Rightarrow> string \<Rightarrow> string" where
  "avatar_upload_path hex user_id filename =
     ''avatars/'' @ str_nat user_id @ ''/'' @ hex @ ''.'' @
     py_lower (rev (takeWhile (\<lambda>c. c \<noteq> CHR ''.'') (rev filename)))"

definition profile_clean :: "string list \<Rightarrow> user_profile \<Rightarrow> exn + unit" where
  "profile_clean valid_timezones p =
     (if pf_timezone p \<noteq> [] \<and> pf_timezone p \<notin> set valid_timezones
      then Inl (DjangoValidationError [''Unknown timezone: '' @ py_repr (pf_timezone p)]) else Inr ())"

text \<open>\<open>self.avatar.url\<close> may raise (\<open>None\<close>).\<close>

definition avatar_url :: "(string \<Rightarrow> string option) \<Rightarrow> user_profile \<Rightarrow> string option" where
  "avatar_url url p =
     (case pf_avatar p of Some a \<Rightarrow> if a = [] then None else url a | None \<Rightarrow> None)"

definition default_profile :: "instant \<Rightarrow> pk \<Rightarrow> user_profile" where
  "default_profile now p = \<lparr>pf_user = p, pf_avatar = None, pf_bio = [], pf_phone = [],
     pf_timezone = ''UTC'', pf_updated_at = now\<rparr>"

definition get_profile :: "instant \<Rightarrow> user \<Rightarrow> (db, user_profile) op" where
  "get_profile now u s =
     (case get_or_create (\<lambda>p. pf_user p = us_pk u) (default_profile now (us_pk u)) (profiles s) of
        (Inl e, _) \<Rightarrow> (Inl e, s)
      | (Inr (p, _), ps) \<Rightarrow> (Inr p, s\<lparr>profiles := ps\<rparr>))"

text \<open>The validated fields of a profile update; \<open>None\<close> is a field that was not sent. All of them
  are optional in the serializer, for a full update too.\<close>

record profile_data =
  pd_bio :: "string option"
  pd_phone :: "string option"
  pd_timezone :: "string option"
  pd_avatar :: "string option option"

definition profile_errors :: "string list \<Rightarrow> profile_data \<Rightarrow> string list" where
  "profile_errors valid_timezones d =
     (case pd_bio d of Some v \<Rightarrow> if length v > 500 then [''bio''] else [] | None \<Rightarrow> []) @
     (case pd_phone d of Some v \<Rightarrow> if length v > 32 then [''phone''] else [] | None \<Rightarrow> []) @
     (case pd_timezone d of
        Some v \<Rightarrow> if length v > 64 \<or> (v \<noteq> [] \<and> v \<notin> set valid_timezones) then [''timezone''] else []
      | None \<Rightarrow> [])"

definition update_profile :: "instant \<Rightarrow> profile_data \<Rightarrow> user_profile \<Rightarrow> user_profile" where
  "update_profile now d p =
     p\<lparr>pf_bio := (case pd_bio d of Some v \<Rightarrow> v | None \<Rightarrow> pf_bio p),
       pf_phone := (case pd_phone d of Some v \<Rightarrow> v | None \<Rightarrow> pf_phone p),
       pf_timezone := (case pd_timezone d of Some v \<Rightarrow> v | None \<Rightarrow> pf_timezone p),
       pf_avatar := (case pd_avatar d of Some v \<Rightarrow> v | None \<Rightarrow> pf_avatar p),
       pf_updated_at := now\<rparr>"

definition MeView_get ::
  "instant \<Rightarrow> request \<Rightarrow> db \<Rightarrow> (user_data \<times> user_profile \<times> bool) response \<times> db" where
  "MeView_get now rq s =
     (case rq_user rq of
        None \<Rightarrow> (Detail 401 [], s)
      | Some u \<Rightarrow>
          (case get_profile now u s of
             (Inl e, s') \<Rightarrow> (Uncaught e, s')
           | (Inr p, s') \<Rightarrow> (Response 200 (UserSerializer u, p, two_fa_enabled s' u), s')))"

definition ProfileView_get :: "instant \<Rightarrow> request \<Rightarrow> db \<Rightarrow> user_profile response \<times> db" where
  "ProfileView_get now rq s =
     (case rq_user rq of
        None \<Rightarrow> (Detail 401 [], s)
      | Some u \<Rightarrow>
          (case get_profile now u s of
             (Inl e, s') \<Rightarrow> (Uncaught e, s') | (Inr p, s') \<Rightarrow> (Response 200 p, s')))"

text \<open>\<open>PATCH\<close> and \<open>PUT\<close>, which differ in the \<open>partial\<close> flag only.\<close>

definition ProfileView_update ::
  "string list \<Rightarrow> instant \<Rightarrow> request \<Rightarrow> profile_data \<Rightarrow> db \<Rightarrow> user_profile response \<times> db" where
  "ProfileView_update valid_timezones now rq d s =
     (case rq_user rq of
        None \<Rightarrow> (Detail 401 [], s)
      | Some u \<Rightarrow>
          (case get_profile now u s of
             (Inl e, s') \<Rightarrow> (Uncaught e, s')
           | (Inr p, s') \<Rightarrow>
               if profile_errors valid_timezones d \<noteq> [] then (Detail 400 (join '', '' (profile_errors valid_timezones d)), s')
               else (Response 200 (update_profile now d p),
                     s'\<lparr>profiles := qs_update (\<lambda>x. pf_user x = us_pk u) (\<lambda>_. update_profile now d p) (profiles s')\<rparr>)))"

definition ProfileView_delete :: "instant \<Rightarrow> request \<Rightarrow> db \<Rightarrow> unit response \<times> db" where
  "ProfileView_delete now rq s =
     (case rq_user rq of
        None \<Rightarrow> (Detail 401 [], s)
      | Some u \<Rightarrow>
          (case get_profile now u s of
             (Inl e, s') \<Rightarrow> (Uncaught e, s')
           | (Inr p, s') \<Rightarrow>
               if (case pf_avatar p of Some a \<Rightarrow> a \<noteq> [] | None \<Rightarrow> False)
               then (Response 204 (), s'\<lparr>profiles := qs_update (\<lambda>x. pf_user x = us_pk u)
                       (\<lambda>x. x\<lparr>pf_avatar := None, pf_updated_at := now\<rparr>) (profiles s')\<rparr>)
               else (Response 204 (), s')))"

subsection \<open>Welcome mail\<close>

text \<open>\<open>render\<close> is \<open>render_to_string\<close>; the world of the task is the outbox.\<close>

definition EmailService_send ::
  "(string \<Rightarrow> (string \<times> string) list \<Rightarrow> string) \<Rightarrow> (mail \<Rightarrow> bool) \<Rightarrow> string \<Rightarrow> string list \<Rightarrow>
   string option \<Rightarrow> string option \<Rightarrow> (string \<times> string) list \<Rightarrow> (exn + unit) \<times> mail list" where
  "EmailService_send render accepts subject recipients template_html template_txt context =
     (if (template_html = None \<or> template_html = Some []) \<and> (template_txt = None \<or> template_txt = Some [])
      then (Inl (PyValueError ''At least one of template_html or template_txt must be provided.''), [])
      else send_mail accepts
             \<lparr>ml_to = recipients, ml_subject = subject,
              ml_body = (case template_txt of
                           Some t \<Rightarrow> if t = [] then [] else render t context | None \<Rightarrow> [])\<rparr> ())"

definition WelcomeEmail_send_to_user ::
  "(string \<Rightarrow> (string \<times> string) list \<Rightarrow> string) \<Rightarrow> (mail \<Rightarrow> bool) \<Rightarrow> pk \<Rightarrow> db \<Rightarrow> (exn + string) \<times> mail list" where
  "WelcomeEmail_send_to_user render accepts user_id s =
     (case qs_get (\<lambda>u. us_pk u = user_id) (users s) of
        Inl e \<Rightarrow>
          (Inl (if e = DoesNotExist
                then ValidationServiceError (''User '' @ str_nat user_id @ '' not found.'') else e), [])
      | Inr u \<Rightarrow>
          (case EmailService_send render accepts ''Welcome to Django SaaS Kit'' [us_email u]
                  (Some ''emails/welcome.html'') (Some ''emails/welcome.txt'')
                  [(''user_name'', str_or (full_name u) (us_username u)), (''email'', us_email u)] of
             (Inl e, ms) \<Rightarrow> (Inl e, ms)
           | (Inr _, ms) \<Rightarrow> (Inr (''welcome_sent:'' @ str_nat user_id), ms)))"

definition welcome_operation ::
  "(string \<Rightarrow> (string \<times> string) list \<Rightarrow> string) \<Rightarrow> (mail \<Rightarrow> bool) \<Rightarrow> pk \<Rightarrow> db \<Rightarrow> (mail list, string option) op" where
  "welcome_operation render accepts user_id s outbox =
     (case WelcomeEmail_send_to_user render accepts user_id s of
        (Inr r, ms) \<Rightarrow> (Inr (Some r), outbox @ ms)
      | (Inl e, ms) \<Rightarrow>
          (case e of
             ValidationServiceError _ \<Rightarrow> (Inr (Some (''welcome_skipped:'' @ str_nat user_id)), outbox @ ms)
           | _ \<Rightarrow> (Inl e, outbox @ ms)))"

text \<open>\<open>TASK_RETRY_DECORATOR_KWARGS\<close>: three retries of any exception.\<close>

definition TASK_MAX_RETRIES :: nat where "TASK_MAX_RETRIES = 3"

text \<open>\<open>apps/common/celery_policy.py\<close>: the policy of the tasks that mail and push; \<open>with_retries\<close> runs it, the
  delays between the attempts are the queue's.\<close>

record retry_policy =
  rp_bind :: bool
  rp_autoretry_for :: "string list"
  rp_max_retries :: nat
  rp_backoff :: bool
  rp_backoff_max :: nat
  rp_jitter :: bool

definition TASK_RETRY_BACKOFF_MAX_SECONDS :: nat where "TASK_RETRY_BACKOFF_MAX_SECONDS = 600"

definition TASK_RETRY_DECORATOR_KWARGS :: retry_policy where
  "TASK_RETRY_DECORATOR_KWARGS =
     \<lparr>rp_bind = True, rp_autoretry_for = [''Exception''], rp_max_retries = TASK_MAX_RETRIES, rp_backoff = True,
      rp_backoff_max = TASK_RETRY_BACKOFF_MAX_SECONDS, rp_jitter = True\<rparr>"

definition send_welcome_email ::
  "(string \<Rightarrow> (string \<times> string) list \<Rightarrow> string) \<Rightarrow> (mail \<Rightarrow> bool) \<Rightarrow> instant \<Rightarrow> pk \<Rightarrow> db \<Rightarrow>
   ((string, string) cache \<times> mail list, string option) op" where
  "send_welcome_email render accepts now user_id s =
     with_retries TASK_MAX_RETRIES
       (idempotent_run now now DEFAULT_TTL_SECONDS (build_key ''welcome_email'' (str_nat user_id))
          (welcome_operation render accepts user_id s))"

subsection \<open>Properties\<close>

interpretation user_tbl: keyed_table us_pk "tbl_lookup us_pk" "tbl_upsert us_pk" "tbl_remove us_pk" "tbl_ok us_pk"
  by (rule list_keyed_table)

definition users_ok :: "db \<Rightarrow> bool" where
  "users_ok s \<longleftrightarrow> tbl_ok us_pk (users s) \<and> tbl_ok us_username (users s) \<and> tbl_ok us_email (users s) \<and>
     (\<forall>u\<in>set (users s). us_pk u < next_user_pk s)"

lemma create_user_cases [consumes 1, case_names rejected field created]:
  assumes run: "create_user pe mk ce data s = (r, s')"
    and "s' = s \<Longrightarrow> (\<exists>m. r = Inl (ValidationServiceError m) \<or> r = Inl (ConflictServiceError m)) \<Longrightarrow> P"
    and "\<And>es. s' = s \<Longrightarrow> r = Inl (DjangoValidationError es) \<Longrightarrow> es \<noteq> [] \<Longrightarrow> P"
    and "\<And>u. u = \<lparr>us_pk = next_user_pk s, us_username = py_strip (ci_username data),
            us_email = strip_lower (ci_email data), us_first_name = py_strip (ci_first_name data),
            us_last_name = py_strip (ci_last_name data), us_password = mk (ci_password data),
            us_is_active = True, us_is_superuser = False\<rparr> \<Longrightarrow>
      pe (ci_password data) (us_username u) (us_email u) = [] \<Longrightarrow> us_username u \<noteq> [] \<Longrightarrow>
      CHR 0x40 \<in> set (us_email u) \<Longrightarrow>
      (\<forall>x\<in>set (users s). us_username x \<noteq> us_username u \<and> us_email x \<noteq> us_email u) \<Longrightarrow>
      s' = s\<lparr>users := users s @ [u], next_user_pk := next_user_pk s + 1,
             queue := queue s @ (if broker_up s then [Send_welcome_email (us_pk u)] else [])\<rparr> \<Longrightarrow>
      r = (if broker_up s then Inr u else Inl BrokerError) \<Longrightarrow> P"
  shows P
proof -
  let ?email = "strip_lower (ci_email data)" and ?name = "py_strip (ci_username data)"
  let ?new = "\<lparr>us_pk = 0, us_username = ?name, us_email = ?email, us_first_name = py_strip (ci_first_name data),
    us_last_name = py_strip (ci_last_name data), us_password = mk (ci_password data),
    us_is_active = True, us_is_superuser = False\<rparr>"
  note def = create_user_def Let_def strip_lower_def [symmetric]
  consider (bad) "?email = [] \<or> CHR 0x40 \<notin> set ?email \<or> ?name = [] \<or> ci_password data = [] \<or>
      pe (ci_password data) ?name ?email \<noteq> [] \<or> qs_exists (\<lambda>u. us_username u = ?name) (users s) \<or>
      qs_exists (\<lambda>u. us_email u = ?email) (users s)"
    | (good) "?email \<noteq> []" "CHR 0x40 \<in> set ?email" "?name \<noteq> []" "ci_password data \<noteq> []"
      "pe (ci_password data) ?name ?email = []" "\<not> qs_exists (\<lambda>u. us_username u = ?name) (users s)"
      "\<not> qs_exists (\<lambda>u. us_email u = ?email) (users s)" by blast
  then show ?thesis
  proof cases
    case bad
    then have "s' = s \<and> (\<exists>m. r = Inl (ValidationServiceError m) \<or> r = Inl (ConflictServiceError m))"
      using run by (auto simp: def split: if_splits)
    with assms(2) show ?thesis by blast
  next
    case good
    show ?thesis
    proof (cases "ce ?new = []")
      case True
      with good run show ?thesis
        by (intro assms(4) [OF refl])
          (auto simp: def atomic_def full_clean_def insert_user_def enqueue_welcome_email_def delay_def
            split: if_splits)
    next
      case False
      with good run have "s' = s" "r = Inl (DjangoValidationError (ce ?new))"
        by (auto simp: def atomic_def full_clean_def split: if_splits)
      with False assms(3) show ?thesis by blast
    qed
  qed
qed

text \<open>Registration either raises with the database unchanged, or adds exactly one user - with
  a fresh key, the trimmed name, the trimmed lower-cased address and the hashed password, active and
  never a superuser - and queues exactly one welcome mail for it; keys, names and addresses stay
  unique. A broker failure is raised after the user was stored, without a welcome mail.\<close>

theorem create_user_correct:
  assumes "users_ok s" and "create_user pe mk ce data s = (r, s')"
  shows "(s' = s \<and> (\<exists>e. r = Inl e)) \<or>
    (users_ok s' \<and> (\<exists>u. users s' = users s @ [u] \<and> us_pk u = next_user_pk s \<and>
       us_pk u \<notin> us_pk ` set (users s) \<and>
       us_username u = py_strip (ci_username data) \<and> us_email u = strip_lower (ci_email data) \<and>
       us_password u = mk (ci_password data) \<and> us_is_active u \<and> \<not> us_is_superuser u \<and>
       (if broker_up s then r = Inr u \<and> queue s' = queue s @ [Send_welcome_email (us_pk u)]
        else r = Inl BrokerError \<and> queue s' = queue s)))"
  using assms(2)
proof (cases rule: create_user_cases)
  case (created u)
  have "users_ok s'"
    using created assms(1) by (auto simp: users_ok_def tbl_ok_def)
  moreover have "us_pk u \<notin> us_pk ` set (users s)"
    using created(1) assms(1) by (auto simp: users_ok_def)
  ultimately show ?thesis using created by (intro disjI2 conjI exI [of _ u]) simp_all
qed auto

definition carol_input :: create_user_input where
  "carol_input = \<lparr>ci_email = '' Carol@X.test'', ci_username = ''carol'', ci_password = ''s3cret'',
     ci_first_name = [], ci_last_name = []\<rparr>"

lemma carol_strings:
  "strip_lower (ci_email carol_input) = ''carol@x.test''" "py_strip (ci_username carol_input) = ''carol''"
  "ci_password carol_input = ''s3cret''"
  by code_simp+

lemma demo_users_ok: "users_ok demo_db"
  by (simp add: users_ok_def tbl_ok_def)

theorem create_user_correct_witness:
  "\<exists>u. fst (create_user (\<lambda>_ _ _. []) (\<lambda>p. ''hash:'' @ p) (\<lambda>_. []) carol_input demo_db) = Inr u \<and>
     us_email u = ''carol@x.test'' \<and> us_pk u = 3"
proof -
  let ?run = "create_user (\<lambda>_ _ _. []) (\<lambda>p. ''hash:'' @ p) (\<lambda>_. []) carol_input demo_db"
  obtain r s' where run: "?run = (r, s')" by (cases ?run)
  have "users s' \<noteq> users demo_db"
    using run
    by (auto simp: create_user_def Let_def strip_lower_def [symmetric] carol_strings atomic_def full_clean_def
        insert_user_def enqueue_welcome_email_def delay_def)
  with create_user_correct [OF demo_users_ok run] run carol_strings show ?thesis by auto
qed

text \<open>A name or address that only the model's own validators reject is not reported as a
  validation failure: the exception of \<open>full_clean\<close> is neither of the two the service converts
  and the endpoint catches, so registration answers 500 (and stores nothing).\<close>

theorem model_validation_answers_500:
  assumes field: "\<And>u. us_username u = py_strip (ci_username data) \<Longrightarrow> ce u \<noteq> []"
    and valid: "valid_input data" "pe (ci_password data) (py_strip (ci_username data)) (strip_lower (ci_email data)) = []"
      "CHR 0x40 \<in> set (strip_lower (ci_email data))" "py_strip (ci_username data) \<noteq> []" "ci_password data \<noteq> []"
    and new: "\<forall>x\<in>set (users s). us_username x \<noteq> py_strip (ci_username data) \<and>
      us_email x \<noteq> strip_lower (ci_email data)"
  shows "status_code (fst (UserCreateView_post valid_input pe mk ce data s)) = 500 \<and>
    snd (UserCreateView_post valid_input pe mk ce data s) = s"
proof -
  obtain r s' where run: "create_user pe mk ce data s = (r, s')" by (cases "create_user pe mk ce data s")
  have "s' = s \<and> (\<exists>es. r = Inl (DjangoValidationError es))"
    using run valid new field
    by (auto simp: create_user_def Let_def strip_lower_def [symmetric] atomic_def full_clean_def split: if_splits)
  with run valid(1) show ?thesis by (auto simp: UserCreateView_post_def)
qed

theorem model_validation_answers_500_witness:
  "status_code (fst (UserCreateView_post (\<lambda>_. True) (\<lambda>_ _ _. []) id
     (\<lambda>u. if CHR '' '' \<in> set (us_username u) then [''username''] else [])
     (carol_input\<lparr>ci_username := ''carol b''\<rparr>) demo_db)) = 500"
proof -
  have strings: "py_strip ''carol b'' = ''carol b''" "strip_lower (ci_email carol_input) = ''carol@x.test''"
    "ci_password carol_input = ''s3cret''" by code_simp+
  show ?thesis
    by (rule conjunct1 [OF model_validation_answers_500]) (simp_all add: strings)
qed

lemma welcome_operation_cases [case_names ok error]:
  assumes "\<And>v ms. welcome_operation render accepts p s outbox = (Inr (Some v), outbox @ ms) \<Longrightarrow> length ms \<le> 1 \<Longrightarrow> P"
    and "\<And>e. welcome_operation render accepts p s outbox = (Inl e, outbox) \<Longrightarrow> P"
  shows P
proof (cases "qs_get (\<lambda>u. us_pk u = p) (users s)")
  case (Inl e)
  show ?thesis
  proof (cases "e = DoesNotExist")
    case True
    with Inl assms(1) [of _ "[]"] show ?thesis by (simp add: welcome_operation_def WelcomeEmail_send_to_user_def)
  next
    case False
    with Inl qs_get_error [OF Inl] assms(2) show ?thesis
      by (simp add: welcome_operation_def WelcomeEmail_send_to_user_def)
  qed
next
  case (Inr u)
  show ?thesis
  proof (cases "accepts \<lparr>ml_to = [us_email u], ml_subject = ''Welcome to Django SaaS Kit'',
      ml_body = render ''emails/welcome.txt''
        [(''user_name'', str_or (full_name u) (us_username u)), (''email'', us_email u)]\<rparr>")
    case True
    with Inr assms(1) show ?thesis
      by (simp add: welcome_operation_def WelcomeEmail_send_to_user_def EmailService_send_def send_mail_def)
  next
    case False
    with Inr assms(2) show ?thesis
      by (simp add: welcome_operation_def WelcomeEmail_send_to_user_def EmailService_send_def send_mail_def)
  qed
qed

definition welcome_key :: "pk \<Rightarrow> string" where
  "welcome_key p = result_cache_key (build_key ''welcome_email'' (str_nat p))"

lemma welcome_retries:
  assumes "cache_get now c (welcome_key p) = None"
  shows "(\<exists>v ms. with_retries n (idempotent_run now now ttl (build_key ''welcome_email'' (str_nat p))
        (welcome_operation render accepts p s)) (c, outbox) =
      (Inr (Some v), (cache_set now ttl (welcome_key p) v c, outbox @ ms)) \<and> length ms \<le> 1) \<or>
    (\<exists>e. with_retries n (idempotent_run now now ttl (build_key ''welcome_email'' (str_nat p))
        (welcome_operation render accepts p s)) (c, outbox) = (Inl e, (c, outbox)))"
  using assms unfolding welcome_key_def
  by (cases render accepts p s outbox rule: welcome_operation_cases; induction n)
    (auto simp: idempotent_run_def Let_def store_result_def)

text \<open>The welcome mail is sent once: if the task succeeded for a user, repeating it within the
  next 24 hours, by a redelivery or a second enqueue, returns the same result and sends nothing; if
  all four attempts failed, nothing was sent or recorded, so a later delivery tries again.\<close>

theorem welcome_mail_once:
  assumes miss: "cache_get now c (welcome_key p) = None"
    and run: "send_welcome_email render accepts now p s (c, outbox) = (r, (c', outbox'))"
  shows "(\<exists>v ms. r = Inr (Some v) \<and> outbox' = outbox @ ms \<and> length ms \<le> 1 \<and>
      (\<forall>t. t < now + 86400 \<longrightarrow> (\<forall>s' accepts' later. send_welcome_email render accepts' t p s' (c', later) =
         (Inr (Some v), (c', later))))) \<or>
    (\<exists>e. r = Inl e \<and> c' = c \<and> outbox' = outbox)"
  using welcome_retries [OF miss, of TASK_MAX_RETRIES DEFAULT_TTL_SECONDS render accepts s outbox]
proof (elim disjE exE conjE)
  fix v ms
  assume ran: "with_retries TASK_MAX_RETRIES (idempotent_run now now DEFAULT_TTL_SECONDS
      (build_key ''welcome_email'' (str_nat p)) (welcome_operation render accepts p s)) (c, outbox) =
      (Inr (Some v), (cache_set now DEFAULT_TTL_SECONDS (welcome_key p) v c, outbox @ ms))" and "length ms \<le> 1"
  have again: "send_welcome_email render accepts' t p s' (cache_set now DEFAULT_TTL_SECONDS (welcome_key p) v c, later) =
      (Inr (Some v), (cache_set now DEFAULT_TTL_SECONDS (welcome_key p) v c, later))"
    if "t < now + 86400" for t s' accepts' later
    unfolding send_welcome_email_def using that
    by (intro with_retries_ok)
      (simp add: idempotent_run_def welcome_key_def django_cache.get_set DEFAULT_TTL_SECONDS_def)
  have "r = Inr (Some v)" "c' = cache_set now DEFAULT_TTL_SECONDS (welcome_key p) v c" "outbox' = outbox @ ms"
    using ran run by (simp_all add: send_welcome_email_def)
  with again \<open>length ms \<le> 1\<close> show ?thesis by blast
next
  fix e
  assume "with_retries TASK_MAX_RETRIES (idempotent_run now now DEFAULT_TTL_SECONDS
      (build_key ''welcome_email'' (str_nat p)) (welcome_operation render accepts p s)) (c, outbox) = (Inl e, (c, outbox))"
  then have "r = Inl e \<and> c' = c \<and> outbox' = outbox" using run by (simp add: send_welcome_email_def)
  then show ?thesis by blast
qed

theorem welcome_mail_once_witness:
  "\<exists>c' v. fst (send_welcome_email (\<lambda>_ _. ''hello'') (\<lambda>_. True) 5 2 demo_db (Map.empty, [])) = Inr (Some v) \<and>
     send_welcome_email (\<lambda>_ _. ''hello'') (\<lambda>_. True) 9 2 demo_db (c', []) = (Inr (Some v), (c', []))"
proof -
  let ?run = "send_welcome_email (\<lambda>_ _. ''hello'') (\<lambda>_. True) 5 2 demo_db (Map.empty, [])"
  obtain r c' outbox' where run: "?run = (r, (c', outbox'))" by (metis prod.exhaust)
  have miss: "cache_get 5 Map.empty (welcome_key 2) = None" by (simp add: cache_get_def)
  have r: "r = Inr (Some (''welcome_sent:'' @ str_nat 2))"
    using run
    by (simp add: send_welcome_email_def TASK_MAX_RETRIES_def numeral_eq_Suc idempotent_run_def cache_get_def
        welcome_operation_def WelcomeEmail_send_to_user_def EmailService_send_def send_mail_def qs_get_def Let_def)
  have "\<exists>v. r = Inr (Some v) \<and> send_welcome_email (\<lambda>_ _. ''hello'') (\<lambda>_. True) 9 2 demo_db (c', []) =
      (Inr (Some v), (c', []))"
    using welcome_mail_once [OF miss run]
  proof (elim disjE exE conjE)
    fix v ms
    assume "r = Inr (Some v)" and
      again: "\<forall>t<5 + 86400. \<forall>s' accepts' later. send_welcome_email (\<lambda>_ _. ''hello'') accepts' t 2 s' (c', later) =
        (Inr (Some v), (c', later))"
    then show ?thesis using again [rule_format, of 9] by auto
  qed (use r in simp)
  with run show ?thesis by auto
qed

end
