(* ===== verification/Gdpr.thy ===== *)
theory Gdpr
  imports Users
begin

text \<open>
  \<open>services/users/gdpr_service.py\<close> and the \<open>delete_user_data\<close> command: anonymising a user
  and deleting one, with the counts reported. The random tag and the unusable password of the
  placeholder are arguments. \<open>delete_user\<close> is Django's cascade over the foreign keys the
  models declare: owned rows go, other references become null.
\<close>

record erasure_result =
  er_user_id :: pk
  er_mode :: string
  er_notifications_deleted :: nat
  er_roles_deleted :: nat
  er_tokens_deleted :: nat

text \<open>The count of a queryset's \<open>delete()\<close> includes the cascaded blacklist rows.\<close>

definition revoke_tokens :: "user \<Rightarrow> db \<Rightarrow> nat \<times> db" where
  "revoke_tokens u s =
     (qs_count (\<lambda>t. ot_user t = Some (us_pk u)) (outstanding_tokens s) +
      qs_count (\<lambda>t. ot_user t = Some (us_pk u) \<and> ot_blacklisted t) (outstanding_tokens s),
      s\<lparr>outstanding_tokens := qs_delete (\<lambda>t. ot_user t = Some (us_pk u)) (outstanding_tokens s)\<rparr>)"

definition delete_notifications :: "user \<Rightarrow> db \<Rightarrow> nat \<times> db" where
  "delete_notifications u s =
     (qs_count (\<lambda>n. nt_user n = us_pk u) (notifications s),
      s\<lparr>notifications := qs_delete (\<lambda>n. nt_user n = us_pk u) (notifications s)\<rparr>)"

definition delete_roles :: "user \<Rightarrow> db \<Rightarrow> nat \<times> db" where
  "delete_roles u s =
     (qs_count (\<lambda>r. ur_user r = us_pk u) (roles s),
      s\<lparr>roles := qs_delete (\<lambda>r. ur_user r = us_pk u) (roles s)\<rparr>)"

definition save_user :: "user \<Rightarrow> (db, unit) op" where
  "save_user u s =
     (if qs_exists (\<lambda>x. us_pk x \<noteq> us_pk u \<and> us_username x = us_username u) (users s)
      then (Inl IntegrityError, s)
      else (Inr (), s\<lparr>users := qs_update (\<lambda>x. us_pk x = us_pk u)
              (\<lambda>x. x\<lparr>us_username := us_username u, us_email := us_email u,
                     us_first_name := us_first_name u, us_last_name := us_last_name u,
                     us_is_active := us_is_active u, us_password := us_password u\<rparr>) (users s)\<rparr>))"

definition anonymize :: "string \<Rightarrow> string \<Rightarrow> user \<Rightarrow> (db, erasure_result) op" where
  "anonymize tag unusable_password u =
     atomic (\<lambda>s.
       let (n_tokens, s1) = revoke_tokens u s;
           (n_notifs, s2) = delete_notifications u s1;
           (n_roles, s3) = delete_roles u s2;
           u' = u\<lparr>us_username := ''deleted_'' @ tag,
                  us_email := ''deleted_'' @ tag @ [CHR 0x40] @ ''deleted.invalid'',
                  us_first_name := [], us_last_name := [], us_is_active := False,
                  us_password := unusable_password\<rparr>
       in case save_user u' s3 of
            (Inl e, s4) \<Rightarrow> (Inl e, s4)
          | (Inr _, s4) \<Rightarrow>
              (Inr \<lparr>er_user_id = us_pk u, er_mode = ''anonymize'', er_notifications_deleted = n_notifs,
                    er_roles_deleted = n_roles, er_tokens_deleted = n_tokens\<rparr>, s4))"

definition null_if :: "pk \<Rightarrow> pk option \<Rightarrow> pk option" where
  "null_if p x = (if x = Some p then None else x)"

definition delete_user :: "pk \<Rightarrow> db \<Rightarrow> db" where
  "delete_user p s =
     s\<lparr>users := qs_delete (\<lambda>u. us_pk u = p) (users s),
       profiles := qs_delete (\<lambda>x. pf_user x = p) (profiles s),
       totps := qs_delete (\<lambda>x. tp_user x = p) (totps s),
       notifications := qs_delete (\<lambda>x. nt_user x = p) (notifications s),
       roles := map (\<lambda>r. r\<lparr>ur_assigned_by := null_if p (ur_assigned_by r)\<rparr>)
                  (qs_delete (\<lambda>r. ur_user r = p) (roles s)),
       invitations := map (\<lambda>i. i\<lparr>iv_invited_by := null_if p (iv_invited_by i),
                                   iv_accepted_by := null_if p (iv_accepted_by i)\<rparr>) (invitations s),
       audit_logs := map (\<lambda>a. a\<lparr>al_actor := null_if p (al_actor a)\<rparr>) (audit_logs s),
       outstanding_tokens := map (\<lambda>t. t\<lparr>ot_user := null_if p (ot_user t)\<rparr>) (outstanding_tokens s)\<rparr>"

definition hard_delete :: "user \<Rightarrow> (db, erasure_result) op" where
  "hard_delete u =
     atomic (\<lambda>s.
       let (n_tokens, s1) = revoke_tokens u s;
           (n_notifs, s2) = delete_notifications u s1;
           (n_roles, s3) = delete_roles u s2
       in (Inr \<lparr>er_user_id = us_pk u, er_mode = ''hard_delete'', er_notifications_deleted = n_notifs,
                er_roles_deleted = n_roles, er_tokens_deleted = n_tokens\<rparr>,
           delete_user (us_pk u) s3))"

datatype command_result = Command_error string | Aborted | Completed erasure_result | Crashed exn

text \<open>\<open>parse_pk\<close> is the conversion of the argument to a primary key (\<open>None\<close> when it raises);
  \<open>confirm\<close> is what the operator types at the prompt.\<close>

definition delete_user_data ::
  "(string \<Rightarrow> pk option) \<Rightarrow> string \<Rightarrow> string \<Rightarrow> string \<Rightarrow> bool \<Rightarrow> bool \<Rightarrow> string \<Rightarrow> db \<Rightarrow> command_result \<times> db" where
  "delete_user_data parse_pk tag unusable_password user_id hard no_input confirm s =
     (case (case parse_pk user_id of None \<Rightarrow> None | Some p \<Rightarrow> user_of s p) of
        None \<Rightarrow> (Command_error (''No user found with id '' @ quoted user_id @ ''.''), s)
      | Some u \<Rightarrow>
          if \<not> no_input \<and> py_lower (py_strip confirm) \<noteq> ''yes'' then (Aborted, s)
          else (case (if hard then hard_delete u else anonymize tag unusable_password u) s of
                  (Inl e, s') \<Rightarrow> (Crashed e, s')
                | (Inr r, s') \<Rightarrow> (Completed r, s')))"

subsection \<open>Properties\<close>

text \<open>No row of a personal table names the user.\<close>

definition no_personal_rows :: "pk \<Rightarrow> db \<Rightarrow> bool" where
  "no_personal_rows p s \<longleftrightarrow>
     (\<forall>t\<in>set (outstanding_tokens s). ot_user t \<noteq> Some p) \<and>
     (\<forall>n\<in>set (notifications s). nt_user n \<noteq> p) \<and> (\<forall>r\<in>set (roles s). ur_user r \<noteq> p)"

text \<open>The rows of the other users, in every personal table.\<close>

definition others_unchanged :: "pk \<Rightarrow> db \<Rightarrow> db \<Rightarrow> bool" where
  "others_unchanged p s s' \<longleftrightarrow>
     filter (\<lambda>u. us_pk u \<noteq> p) (users s') = filter (\<lambda>u. us_pk u \<noteq> p) (users s) \<and>
     filter (\<lambda>x. pf_user x \<noteq> p) (profiles s') = filter (\<lambda>x. pf_user x \<noteq> p) (profiles s) \<and>
     filter (\<lambda>x. tp_user x \<noteq> p) (totps s') = filter (\<lambda>x. tp_user x \<noteq> p) (totps s) \<and>
     filter (\<lambda>t. ot_user t \<noteq> Some p) (outstanding_tokens s') =
       filter (\<lambda>t. ot_user t \<noteq> Some p) (outstanding_tokens s) \<and>
     filter (\<lambda>n. nt_user n \<noteq> p) (notifications s') = filter (\<lambda>n. nt_user n \<noteq> p) (notifications s) \<and>
     map (\<lambda>r. (ur_user r, ur_tenant r, ur_role r)) (filter (\<lambda>r. ur_user r \<noteq> p) (roles s')) =
       map (\<lambda>r. (ur_user r, ur_tenant r, ur_role r)) (filter (\<lambda>r. ur_user r \<noteq> p) (roles s))"

lemma anonymize_ok:
  assumes "\<not> qs_exists (\<lambda>x. us_pk x \<noteq> us_pk u \<and> us_username x = ''deleted_'' @ tag) (users s)"
  shows "anonymize tag pw u s =
    (Inr \<lparr>er_user_id = us_pk u, er_mode = ''anonymize'',
          er_notifications_deleted = qs_count (\<lambda>n. nt_user n = us_pk u) (notifications s),
          er_roles_deleted = qs_count (\<lambda>r. ur_user r = us_pk u) (roles s),
          er_tokens_deleted = fst (revoke_tokens u s)\<rparr>,
     s\<lparr>outstanding_tokens := qs_delete (\<lambda>t. ot_user t = Some (us_pk u)) (outstanding_tokens s),
       notifications := qs_delete (\<lambda>n. nt_user n = us_pk u) (notifications s),
       roles := qs_delete (\<lambda>r. ur_user r = us_pk u) (roles s),
       users := qs_update (\<lambda>x. us_pk x = us_pk u)
         (\<lambda>x. x\<lparr>us_username := ''deleted_'' @ tag, us_email := ''deleted_'' @ tag @ [CHR 0x40] @ ''deleted.invalid'',
                us_first_name := [], us_last_name := [], us_is_active := False, us_password := pw\<rparr>) (users s)\<rparr>)"
  using assms
  by (simp add: anonymize_def atomic_def revoke_tokens_def delete_notifications_def delete_roles_def
      save_user_def Let_def del: qs_exists_iff)

text \<open>C16. Anonymising either fails as a whole, changing nothing, when the random name is taken, or
  deletes exactly the user's tokens, notifications and roles, reports how many, replaces his name,
  address and password and deactivates him, and touches no row of any other user.\<close>

theorem anonymize_correct:
  assumes ok: "users_ok s" and u: "u \<in> set (users s)" and run: "anonymize tag pw u s = (r, s')"
  shows "(r = Inl IntegrityError \<and> s' = s \<and> (\<exists>x\<in>set (users s). us_username x = ''deleted_'' @ tag)) \<or>
    (r = Inr \<lparr>er_user_id = us_pk u, er_mode = ''anonymize'',
       er_notifications_deleted = length (notifications s) - length (notifications s'),
       er_roles_deleted = length (roles s) - length (roles s'),
       er_tokens_deleted = length (outstanding_tokens s) - length (outstanding_tokens s') +
         qs_count (\<lambda>t. ot_user t = Some (us_pk u) \<and> ot_blacklisted t) (outstanding_tokens s)\<rparr> \<and>
     no_personal_rows (us_pk u) s' \<and> others_unchanged (us_pk u) s s' \<and>
     user_of s' (us_pk u) = Some (u\<lparr>us_username := ''deleted_'' @ tag,
       us_email := ''deleted_'' @ tag @ [CHR 0x40] @ ''deleted.invalid'', us_first_name := [], us_last_name := [],
       us_is_active := False, us_password := pw\<rparr>))"
proof (cases "qs_exists (\<lambda>x. us_pk x \<noteq> us_pk u \<and> us_username x = ''deleted_'' @ tag) (users s)")
  case True
  then have "anonymize tag pw u s = (Inl IntegrityError, s)"
    by (simp add: anonymize_def atomic_def revoke_tokens_def delete_notifications_def delete_roles_def
        save_user_def Let_def del: qs_exists_iff)
  with True run show ?thesis by auto
next
  case False
  let ?f = "\<lambda>x. x\<lparr>us_username := ''deleted_'' @ tag, us_email := ''deleted_'' @ tag @ [CHR 0x40] @ ''deleted.invalid'',
      us_first_name := [], us_last_name := [], us_is_active := False, us_password := pw\<rparr>"
  from anonymize_ok [OF False, of pw] run
  have r: "r = Inr \<lparr>er_user_id = us_pk u, er_mode = ''anonymize'',
          er_notifications_deleted = qs_count (\<lambda>n. nt_user n = us_pk u) (notifications s),
          er_roles_deleted = qs_count (\<lambda>r. ur_user r = us_pk u) (roles s),
          er_tokens_deleted = fst (revoke_tokens u s)\<rparr>"
    and s': "s' = s\<lparr>outstanding_tokens := qs_delete (\<lambda>t. ot_user t = Some (us_pk u)) (outstanding_tokens s),
       notifications := qs_delete (\<lambda>n. nt_user n = us_pk u) (notifications s),
       roles := qs_delete (\<lambda>r. ur_user r = us_pk u) (roles s),
       users := qs_update (\<lambda>x. us_pk x = us_pk u) ?f (users s)\<rparr>"
    by simp_all
  have count: "qs_count P t = length t - length (qs_delete P t)" for P :: "'r \<Rightarrow> bool" and t
    using length_qs_delete [of P t] by simp
  have at: "tbl_lookup us_pk (users s) (us_pk u) = Some u"
    using u ok by (simp add: users_ok_def tbl_lookup_Some)
  have "tbl_lookup us_pk (qs_update (\<lambda>x. us_pk x = us_pk u) ?f (users s)) (us_pk u) = Some (?f u)"
    by (subst tbl_lookup_update) (simp_all add: at)
  then have "tbl_lookup us_pk (users s') (us_pk u) = Some (?f u)" by (simp add: s')
  then have "user_of s' (us_pk u) = Some (?f u)" by (simp add: user_of_def tbl_lookup_def)
  moreover have "others_unchanged (us_pk u) s s'"
    by (simp add: others_unchanged_def s' filter_qs_update_other) (simp add: qs_delete_def)
  moreover have "no_personal_rows (us_pk u) s'" by (simp add: no_personal_rows_def s')
  ultimately show ?thesis
    using r by (simp add: s' revoke_tokens_def count [symmetric])
qed

definition gdpr_db :: db where
  "gdpr_db = demo_db\<lparr>roles := [member_row 1 ''t1'' ''owner'', member_row 2 ''t1'' ''admin''],
     profiles := [\<lparr>pf_user = 2, pf_avatar = None, pf_bio = ''I am Bob'', pf_phone = ''+1'', pf_timezone = ''UTC'',
                   pf_updated_at = 0\<rparr>],
     outstanding_tokens := [\<lparr>ot_jti = ''j1'', ot_user = Some 2, ot_blacklisted = True\<rparr>]\<rparr>"

lemma gdpr_users [simp]: "users gdpr_db = [alice, bob]" "users_ok gdpr_db"
  by (simp_all add: gdpr_db_def users_ok_def tbl_ok_def)

theorem anonymize_correct_witness:
  "no_personal_rows 2 (snd (anonymize ''ab12'' ''!x'' bob gdpr_db)) \<and>
   others_unchanged 2 gdpr_db (snd (anonymize ''ab12'' ''!x'' bob gdpr_db))"
proof -
  have mem: "bob \<in> set (users gdpr_db)" by simp
  obtain r s' where run: "anonymize ''ab12'' ''!x'' bob gdpr_db = (r, s')"
    by (cases "anonymize ''ab12'' ''!x'' bob gdpr_db")
  from anonymize_correct [OF gdpr_users(2) mem run] run show ?thesis by auto
qed

text \<open>Hard deletion always succeeds and leaves no reference to the user anywhere: his rows in
  every table that cascades are gone, every other reference is null, and no other user's row, role,
  profile, token or notification is lost.\<close>

theorem hard_delete_correct:
  assumes "hard_delete u s = (r, s')"
  shows "\<not> isl r \<and> user_of s' (us_pk u) = None \<and> no_personal_rows (us_pk u) s' \<and>
    others_unchanged (us_pk u) s s' \<and>
    (\<forall>x\<in>set (profiles s'). pf_user x \<noteq> us_pk u) \<and> (\<forall>x\<in>set (totps s'). tp_user x \<noteq> us_pk u) \<and>
    (\<forall>x\<in>set (roles s'). ur_assigned_by x \<noteq> Some (us_pk u)) \<and>
    (\<forall>x\<in>set (audit_logs s'). al_actor x \<noteq> Some (us_pk u)) \<and>
    (\<forall>x\<in>set (invitations s'). iv_invited_by x \<noteq> Some (us_pk u) \<and> iv_accepted_by x \<noteq> Some (us_pk u))"
proof -
  let ?p = "us_pk u"
  from assms have r: "\<not> isl r" and s': "s' = delete_user ?p
      (s\<lparr>outstanding_tokens := qs_delete (\<lambda>t. ot_user t = Some ?p) (outstanding_tokens s),
         notifications := qs_delete (\<lambda>n. nt_user n = ?p) (notifications s),
         roles := qs_delete (\<lambda>r. ur_user r = ?p) (roles s)\<rparr>)"
    by (auto simp: hard_delete_def atomic_def revoke_tokens_def delete_notifications_def delete_roles_def Let_def)
  have null: "null_if ?p x \<noteq> Some ?p" for x by (simp add: null_if_def)
  have tokens: "map (\<lambda>t. t\<lparr>ot_user := null_if ?p (ot_user t)\<rparr>) (qs_delete (\<lambda>t. ot_user t = Some ?p) (outstanding_tokens s)) =
      qs_delete (\<lambda>t. ot_user t = Some ?p) (outstanding_tokens s)"
    by (rule map_idI) (auto simp: null_if_def)
  have twice: "qs_delete P (qs_delete P t) = qs_delete P t" for P :: "'r \<Rightarrow> bool" and t
    by (simp add: qs_delete_def)
  have roles: "map (\<lambda>r. (ur_user r, ur_tenant r, ur_role r)) (filter (\<lambda>r. ur_user r \<noteq> ?p)
        (map (\<lambda>r. r\<lparr>ur_assigned_by := null_if ?p (ur_assigned_by r)\<rparr>) t)) =
      map (\<lambda>r. (ur_user r, ur_tenant r, ur_role r)) (filter (\<lambda>r. ur_user r \<noteq> ?p) t)" for t
    by (induction t) auto
  have "user_of s' ?p = None" by (simp add: user_of_def s' delete_user_def find_None_iff)
  moreover have "no_personal_rows ?p s'"
    by (auto simp: no_personal_rows_def s' delete_user_def null)
  moreover have "others_unchanged ?p s s'"
    unfolding others_unchanged_def s' delete_user_def
    by (simp add: tokens) (simp add: qs_delete_def comp_def)
  ultimately show ?thesis using r by (auto simp: s' delete_user_def null)
qed

theorem hard_delete_correct_witness:
  "user_of (snd (hard_delete bob gdpr_db)) 2 = None"
  using hard_delete_correct [OF surjective_pairing, of bob gdpr_db] by simp

text \<open>The blacklist check of the JWT library.\<close>

definition token_blacklisted :: "db \<Rightarrow> string \<Rightarrow> bool" where
  "token_blacklisted s jti \<longleftrightarrow> (\<exists>t\<in>set (outstanding_tokens s). ot_jti t = jti \<and> ot_blacklisted t)"

text \<open>Anonymising does not wipe all personal data: the user's profile (biography, phone, avatar),
  his two-factor secret, every audit entry with his address, client address and user agent, and
  every invitation to his address are exactly as before. And deleting a token is not revoking it: a
  refresh token he had blacklisted by logging out is not blacklisted any more.\<close>

theorem anonymize_keeps_personal_data:
  assumes run: "anonymize tag pw u s = (Inr er, s')"
  shows "profiles s' = profiles s \<and> totps s' = totps s \<and> audit_logs s' = audit_logs s \<and>
    invitations s' = invitations s \<and>
    (\<forall>t\<in>set (outstanding_tokens s). ot_user t = Some (us_pk u) \<and> tbl_ok ot_jti (outstanding_tokens s) \<longrightarrow>
       \<not> token_blacklisted s' (ot_jti t))"
proof (cases "qs_exists (\<lambda>x. us_pk x \<noteq> us_pk u \<and> us_username x = ''deleted_'' @ tag) (users s)")
  case True
  with run show ?thesis
    by (simp add: anonymize_def atomic_def revoke_tokens_def delete_notifications_def delete_roles_def
        save_user_def Let_def del: qs_exists_iff)
next
  case False
  from anonymize_ok [OF False, of pw] run
  have eq: "profiles s' = profiles s" "totps s' = totps s" "audit_logs s' = audit_logs s"
      "invitations s' = invitations s"
      "outstanding_tokens s' = qs_delete (\<lambda>t. ot_user t = Some (us_pk u)) (outstanding_tokens s)"
    by auto
  have "\<not> token_blacklisted s' (ot_jti t)"
    if "t \<in> set (outstanding_tokens s)" "ot_user t = Some (us_pk u)" "tbl_ok ot_jti (outstanding_tokens s)" for t
    using that by (auto simp: token_blacklisted_def eq tbl_ok_def distinct_map dest: inj_onD)
  with eq show ?thesis by blast
qed

theorem anonymize_keeps_personal_data_witness:
  "profiles (snd (anonymize ''ab12'' ''!x'' bob gdpr_db)) = profiles gdpr_db \<and>
   token_blacklisted gdpr_db ''j1'' \<and> \<not> token_blacklisted (snd (anonymize ''ab12'' ''!x'' bob gdpr_db)) ''j1''"
proof -
  have free: "\<not> qs_exists (\<lambda>x. us_pk x \<noteq> us_pk bob \<and> us_username x = ''deleted_'' @ ''ab12'') (users gdpr_db)"
    by simp
  then obtain er s' where run: "anonymize ''ab12'' ''!x'' bob gdpr_db = (Inr er, s')"
    using anonymize_ok by blast
  let ?t = "\<lparr>ot_jti = ''j1'', ot_user = Some 2, ot_blacklisted = True\<rparr>"
  have "?t \<in> set (outstanding_tokens gdpr_db)" "ot_user ?t = Some (us_pk bob)" "tbl_ok ot_jti (outstanding_tokens gdpr_db)"
    by (simp_all add: gdpr_db_def tbl_ok_def)
  with anonymize_keeps_personal_data [OF run] run show ?thesis
    by (auto simp: token_blacklisted_def gdpr_db_def)
qed

end
