(* ===== verification/Two_Factor.thy ===== *)
theory Two_Factor
  imports Samples
begin

text \<open>
  \<open>apps/authentication/two_factor_views.py\<close>, \<open>apps/authentication/models.py\<close> and the login
  view of \<open>apps/authentication/views.py\<close>: setting up, enabling and disabling TOTP, the
  password step of a login, and the second step with its session and backup codes.
  Parameters: \<open>totp_verify secret code\<close> (pyotp, at the time of the request), the credential
  check, the URI and QR rendering, \<open>mint\<close> (the signed token pair of a user for a fresh
  token id). Issuing a pair stores a row in the table of outstanding tokens.
\<close>

subsection \<open>Backup codes\<close>

definition py_upper_char :: "char \<Rightarrow> string" where
  "py_upper_char c =
     (let n = (of_char c :: nat)
      in if n = 223 then ''SS''
         else if (97 \<le> n \<and> n \<le> 122) \<or> (224 \<le> n \<and> n \<le> 254 \<and> n \<noteq> 247) then [char_of (n - 32)] else [c])"

definition py_upper :: "string \<Rightarrow> string" where
  "py_upper s = concat (map py_upper_char s)"

text \<open>\<open>hex_codes\<close> are eight random five-byte hexadecimal strings.\<close>

definition generate_backup_codes :: "string list \<Rightarrow> string list" where
  "generate_backup_codes hex_codes = map py_upper (take 8 hex_codes)"

definition save_totp :: "user_totp \<Rightarrow> db \<Rightarrow> db" where
  "save_totp t s = s\<lparr>totps := qs_update (\<lambda>x. tp_id x = tp_id t) (\<lambda>_. t) (totps s)\<rparr>"

definition use_backup_code :: "instant \<Rightarrow> string \<Rightarrow> user_totp \<Rightarrow> (db, bool) op" where
  "use_backup_code now code0 t s =
     (let code = py_upper (py_strip code0)
      in if code \<in> set (tp_backup_codes t)
         then (Inr True, save_totp (t\<lparr>tp_backup_codes := filter (\<lambda>c. c \<noteq> code) (tp_backup_codes t),
                                        tp_updated_at := now\<rparr>) s)
         else (Inr False, s))"

subsection \<open>Tokens and sessions\<close>

definition CACHE_TTL :: int where "CACHE_TTL = 300"

definition session_key_of :: "string \<Rightarrow> string" where
  "session_key_of k = ''2fa_pre_auth:'' @ k"

definition refresh_token_for_user ::
  "(user \<Rightarrow> string \<Rightarrow> string \<times> string) \<Rightarrow> string \<Rightarrow> user \<Rightarrow> db \<Rightarrow> (string \<times> string) \<times> db" where
  "refresh_token_for_user mint jti u s =
     (mint u jti, s\<lparr>outstanding_tokens := outstanding_tokens s @
        [\<lparr>ot_jti = jti, ot_user = Some (us_pk u), ot_blacklisted = False\<rparr>]\<rparr>)"

datatype login_result = Tokens string string | Two_fa_required string

subsection \<open>Setup, enable, disable\<close>

definition TwoFactorSetupView_get ::
  "(user \<Rightarrow> string \<Rightarrow> string) \<Rightarrow> (string \<Rightarrow> string) \<Rightarrow> instant \<Rightarrow> uuid \<Rightarrow> string \<Rightarrow> string list \<Rightarrow> request \<Rightarrow> db \<Rightarrow>
   (string \<times> string \<times> string) response \<times> db" where
  "TwoFactorSetupView_get provisioning_uri qr_svg now new_id secret hex_codes rq s =
     (case rq_user rq of
        None \<Rightarrow> (Detail 401 [], s)
      | Some u \<Rightarrow>
          if (case totp_of s (us_pk u) of Some t \<Rightarrow> tp_is_enabled t | None \<Rightarrow> False)
          then (Detail 400 ''2FA is already enabled.'', s)
          else
            case update_or_create (\<lambda>t. tp_user t = us_pk u)
                   (\<lambda>t. t\<lparr>tp_secret := secret, tp_is_enabled := False, tp_updated_at := now\<rparr>)
                   \<lparr>tp_id = new_id, tp_user = us_pk u, tp_secret = secret, tp_is_enabled = False,
                    tp_backup_codes = generate_backup_codes hex_codes, tp_created_at = now,
                    tp_updated_at = now\<rparr> (totps s) of
              (Inl e, _) \<Rightarrow> (Uncaught e, s)
            | (Inr _, ts) \<Rightarrow>
                (let uri = provisioning_uri u secret
                 in (Response 200 (secret, uri, qr_svg uri), s\<lparr>totps := ts\<rparr>)))"

definition TwoFactorVerifyEnableView_post ::
  "(string \<Rightarrow> string \<Rightarrow> bool) \<Rightarrow> instant \<Rightarrow> request \<Rightarrow> string \<Rightarrow> db \<Rightarrow> string list response \<times> db" where
  "TwoFactorVerifyEnableView_post totp_verify now rq code0 s =
     (case rq_user rq of
        None \<Rightarrow> (Detail 401 [], s)
      | Some u \<Rightarrow>
          (let code = py_strip code0
           in if code = [] then (Detail 400 ''code is required.'', s)
              else case totp_of s (us_pk u) of
                     None \<Rightarrow> (Detail 400 ''2FA setup not initiated. Call GET /auth/2fa/setup/ first.'', s)
                   | Some t \<Rightarrow>
                       if tp_is_enabled t then (Detail 400 ''2FA is already enabled.'', s)
                       else if \<not> totp_verify (tp_secret t) code then (Detail 400 ''Invalid TOTP code.'', s)
                       else (Response 200 (tp_backup_codes t),
                             save_totp (t\<lparr>tp_is_enabled := True, tp_updated_at := now\<rparr>) s)))"

text \<open>\<open>valid_totp\<close>, or else \<open>valid_backup\<close> with the code consumed.\<close>

definition second_factor ::
  "(string \<Rightarrow> string \<Rightarrow> bool) \<Rightarrow> instant \<Rightarrow> string \<Rightarrow> user_totp \<Rightarrow> (db, bool) op" where
  "second_factor totp_verify now code t s =
     (if totp_verify (tp_secret t) code then (Inr True, s) else use_backup_code now code t s)"

definition TwoFactorDisableView_post ::
  "(string \<Rightarrow> string \<Rightarrow> bool) \<Rightarrow> instant \<Rightarrow> request \<Rightarrow> string \<Rightarrow> db \<Rightarrow> unit response \<times> db" where
  "TwoFactorDisableView_post totp_verify now rq code0 s =
     (case rq_user rq of
        None \<Rightarrow> (Detail 401 [], s)
      | Some u \<Rightarrow>
          (let code = py_strip code0
           in if code = [] then (Detail 400 ''code is required.'', s)
              else case totp_of s (us_pk u) of
                     None \<Rightarrow> (Detail 400 ''2FA is not enabled for this account.'', s)
                   | Some t \<Rightarrow>
                       if \<not> tp_is_enabled t then (Detail 400 ''2FA is not enabled for this account.'', s)
                       else (case second_factor totp_verify now code t s of
                               (Inl e, s1) \<Rightarrow> (Uncaught e, s1)
                             | (Inr ok, s1) \<Rightarrow>
                                 if \<not> ok then (Detail 400 ''Invalid code.'', s1)
                                 else (Response 200 (),
                                       s1\<lparr>totps := qs_delete (\<lambda>x. tp_id x = tp_id t) (totps s1)\<rparr>))))"

subsection \<open>The two steps of a login\<close>

text \<open>
  \<open>super().post\<close> checks the credentials and mints a pair; the serializer that is built again
  to find the user mints a second one, so the password step stores two token rows.
\<close>

definition ThrottledTokenObtainPairView_post ::
  "(string \<Rightarrow> string \<Rightarrow> db \<Rightarrow> user option) \<Rightarrow> (user \<Rightarrow> string \<Rightarrow> string \<times> string) \<Rightarrow> instant \<Rightarrow> string \<Rightarrow> string \<Rightarrow>
   string \<Rightarrow> string \<Rightarrow> string \<Rightarrow> site \<Rightarrow> login_result response \<times> site" where
  "ThrottledTokenObtainPairView_post authenticate mint now jti1 jti2 session_key username password st =
     (case authenticate username password (site_db st) of
        None \<Rightarrow> (Detail 401 [], st)
      | Some u \<Rightarrow>
          (let (pair, s1) = refresh_token_for_user mint jti1 u (site_db st);
               (_, s2) = refresh_token_for_user mint jti2 u s1;
               st2 = st\<lparr>site_db := s2\<rparr>
           in if (case totp_of s2 (us_pk u) of Some t \<Rightarrow> tp_is_enabled t | None \<Rightarrow> False)
              then (Response 200 (Two_fa_required session_key),
                    st2\<lparr>session_cache := cache_set now CACHE_TTL (session_key_of session_key) (us_pk u)
                          (session_cache st2)\<rparr>)
              else (Response 200 (Tokens (fst pair) (snd pair)), st2)))"

definition TwoFactorCompleteView_post ::
  "(string \<Rightarrow> string \<Rightarrow> bool) \<Rightarrow> (user \<Rightarrow> string \<Rightarrow> string \<times> string) \<Rightarrow> instant \<Rightarrow> string \<Rightarrow> string \<Rightarrow> string \<Rightarrow>
   site \<Rightarrow> login_result response \<times> site" where
  "TwoFactorCompleteView_post totp_verify mint now jti session_key0 code0 st =
     (let session_key = py_strip session_key0; code = py_strip code0
      in if session_key = [] \<or> code = []
         then (Detail 400 ''session_key and code are required.'', st)
         else
           let cache_key = session_key_of session_key
           in case cache_get now (session_cache st) cache_key of
                None \<Rightarrow> (Detail 400 ''Invalid or expired session. Please log in again.'', st)
              | Some user_pk \<Rightarrow>
                  if user_pk = 0
                  then (Detail 400 ''Invalid or expired session. Please log in again.'', st)
                  else
                    case user_of (site_db st) user_pk of
                      None \<Rightarrow> (Detail 400 ''User not found.'', st)
                    | Some u \<Rightarrow>
                        (case totp_of (site_db st) (us_pk u) of
                           None \<Rightarrow>
                             (Detail 400 ''2FA is not enabled for this account.'',
                              st\<lparr>session_cache := cache_delete cache_key (session_cache st)\<rparr>)
                         | Some t \<Rightarrow>
                             if \<not> tp_is_enabled t
                             then (Detail 400 ''2FA is not enabled for this account.'',
                                   st\<lparr>session_cache := cache_delete cache_key (session_cache st)\<rparr>)
                             else
                               (case second_factor totp_verify now code t (site_db st) of
                                  (Inl e, s1) \<Rightarrow> (Uncaught e, st\<lparr>site_db := s1\<rparr>)
                                | (Inr ok, s1) \<Rightarrow>
                                    if \<not> ok then (Detail 400 ''Invalid TOTP code.'', st\<lparr>site_db := s1\<rparr>)
                                    else
                                      (let (pair, s2) = refresh_token_for_user mint jti u s1
                                       in (Response 200 (Tokens (fst pair) (snd pair)),
                                           st\<lparr>site_db := s2,
                                              session_cache := cache_delete cache_key (session_cache st)\<rparr>)))))"

subsection \<open>Lemmas\<close>

interpretation totp_tbl: keyed_table tp_user "tbl_lookup tp_user" "tbl_upsert tp_user"
  "tbl_remove tp_user" "tbl_ok tp_user"
  by (rule list_keyed_table)

definition totps_ok :: "db \<Rightarrow> bool" where
  "totps_ok s \<longleftrightarrow> tbl_ok tp_user (totps s) \<and> tbl_ok tp_id (totps s)"

lemma totp_of_lookup: "totp_of s p = tbl_lookup tp_user (totps s) p"
  by (simp add: totp_of_def tbl_lookup_def)

lemma save_totp_effect:
  assumes ok: "totps_ok s" and t: "totp_of s p = Some t"
    and new: "tp_id t' = tp_id t" "tp_user t' = tp_user t"
  shows "totps_ok (save_totp t' s) \<and> totp_of (save_totp t' s) = (totp_of s)(p \<mapsto> t')"
proof -
  have t': "t \<in> set (totps s)" "tp_user t = p"
    using ok t by (auto simp: totps_ok_def totp_of_lookup tbl_lookup_Some)
  have same: "x \<in> set (totps s) \<Longrightarrow> tp_id x = tp_id t \<longleftrightarrow> tp_user x = p" for x
    using ok t' unfolding totps_ok_def tbl_ok_def by (metis distinct_map inj_onD)
  have upd: "totps (save_totp t' s) = qs_update (\<lambda>x. tp_user x = p) (\<lambda>_. t') (totps s)"
    using same new(1) by (auto simp: save_totp_def qs_update_def)
  have "tbl_lookup tp_user (qs_update (\<lambda>x. tp_user x = p) (\<lambda>_. t') (totps s)) q =
      ((tbl_lookup tp_user (totps s))(p \<mapsto> t')) q" for q
    using t t' new(2) totp_tbl.lookup_key [of "totps s" q]
    by (subst tbl_lookup_update; cases "tbl_lookup tp_user (totps s) q") (auto simp: totp_of_lookup)
  moreover have "tbl_ok tp_user (qs_update (\<lambda>x. tp_user x = p) (\<lambda>_. t') (totps s))"
    using ok new(2) t'(2) by (intro tbl_ok_update) (auto simp: totps_ok_def)
  moreover have "tbl_ok tp_id (qs_update (\<lambda>x. tp_user x = p) (\<lambda>_. t') (totps s))"
  proof (rule tbl_ok_update)
    show "tp_id t' = tp_id r" if "r \<in> set (totps s)" "tp_user r = p" for r
      using same [OF that(1)] that(2) new(1) by simp
  qed (use ok in \<open>simp add: totps_ok_def\<close>)
  ultimately show ?thesis by (simp add: totps_ok_def totp_of_lookup upd fun_eq_iff)
qed

lemma second_factor_cases [consumes 2, case_names totp backup wrong]:
  assumes run: "second_factor totp_verify now code t s = (r, s1)" and nothing: "True"
    and "totp_verify (tp_secret t) code \<Longrightarrow> r = Inr True \<Longrightarrow> s1 = s \<Longrightarrow> P"
    and "\<not> totp_verify (tp_secret t) code \<Longrightarrow> py_upper (py_strip code) \<in> set (tp_backup_codes t) \<Longrightarrow>
      r = Inr True \<Longrightarrow> s1 = save_totp (t\<lparr>tp_backup_codes :=
         filter (\<lambda>c. c \<noteq> py_upper (py_strip code)) (tp_backup_codes t), tp_updated_at := now\<rparr>) s \<Longrightarrow> P"
    and "\<not> totp_verify (tp_secret t) code \<Longrightarrow> py_upper (py_strip code) \<notin> set (tp_backup_codes t) \<Longrightarrow>
      r = Inr False \<Longrightarrow> s1 = s \<Longrightarrow> P"
  shows P
  using run assms(3-5)
  by (cases "totp_verify (tp_secret t) code"; cases "py_upper (py_strip code) \<in> set (tp_backup_codes t)")
    (auto simp: second_factor_def use_backup_code_def Let_def)

text \<open>The only way a second step answers with tokens.\<close>

definition factor_ok :: "(string \<Rightarrow> string \<Rightarrow> bool) \<Rightarrow> string \<Rightarrow> user_totp \<Rightarrow> bool" where
  "factor_ok totp_verify code t \<longleftrightarrow>
     totp_verify (tp_secret t) code \<or> py_upper (py_strip code) \<in> set (tp_backup_codes t)"

lemma complete_cases [consumes 1, case_names refused closed completed]:
  assumes run: "TwoFactorCompleteView_post totp_verify mint now jti k code st = (resp, st')"
    and refused: "\<And>m. resp = Detail 400 m \<Longrightarrow> st' = st \<Longrightarrow> P"
    and closed: "\<And>m. resp = Detail 400 m \<Longrightarrow>
      st' = st\<lparr>session_cache := cache_delete (session_key_of (py_strip k)) (session_cache st)\<rparr> \<Longrightarrow> P"
    and completed: "\<And>p u t s1. py_strip k \<noteq> [] \<Longrightarrow>
      cache_get now (session_cache st) (session_key_of (py_strip k)) = Some p \<Longrightarrow>
      user_of (site_db st) p = Some u \<Longrightarrow> totp_of (site_db st) (us_pk u) = Some t \<Longrightarrow>
      tp_is_enabled t \<Longrightarrow> second_factor totp_verify now (py_strip code) t (site_db st) = (Inr True, s1) \<Longrightarrow>
      resp = Response 200 (Tokens (fst (mint u jti)) (snd (mint u jti))) \<Longrightarrow>
      st' = st\<lparr>site_db := snd (refresh_token_for_user mint jti u s1),
               session_cache := cache_delete (session_key_of (py_strip k)) (session_cache st)\<rparr> \<Longrightarrow> P"
  shows P
proof (cases "py_strip k = [] \<or> py_strip code = []")
  case True
  then show ?thesis
    using run refused by (auto simp: TwoFactorCompleteView_post_def Let_def)
next
  case ne: False
  note run = run [unfolded TwoFactorCompleteView_post_def Let_def]
  show ?thesis
  proof (cases "cache_get now (session_cache st) (session_key_of (py_strip k))")
    case None
    with ne show ?thesis using run refused by auto
  next
    case (Some p)
    show ?thesis
    proof (cases "p = 0 \<or> user_of (site_db st) p = None")
      case True
      with ne Some show ?thesis using run refused by (auto split: if_splits)
    next
      case False
      then obtain u where u: "p \<noteq> 0" "user_of (site_db st) p = Some u" by auto
      show ?thesis
      proof (cases "\<exists>t. totp_of (site_db st) (us_pk u) = Some t \<and> tp_is_enabled t")
        case False
        with ne Some u show ?thesis using run closed by (auto split: if_splits option.splits)
      next
        case True
        then obtain t where t: "totp_of (site_db st) (us_pk u) = Some t" "tp_is_enabled t" by blast
        have "\<exists>ok s1. second_factor totp_verify now (py_strip code) t (site_db st) = (Inr ok, s1) \<and>
            (\<not> ok \<longrightarrow> s1 = site_db st)"
          by (auto simp: second_factor_def use_backup_code_def Let_def)
        then obtain ok s1 where f: "second_factor totp_verify now (py_strip code) t (site_db st) = (Inr ok, s1)"
          and s1: "\<not> ok \<Longrightarrow> s1 = site_db st" by blast
        show ?thesis
        proof (cases ok)
          case False
          with ne Some u t f s1 show ?thesis using run refused by auto
        next
          case True
          with f have f': "second_factor totp_verify now (py_strip code) t (site_db st) = (Inr True, s1)" by simp
          from ne Some u t f' run
          have "resp = Response 200 (Tokens (fst (mint u jti)) (snd (mint u jti)))"
            "st' = st\<lparr>site_db := snd (refresh_token_for_user mint jti u s1),
               session_cache := cache_delete (session_key_of (py_strip k)) (session_cache st)\<rparr>"
            by (auto simp: refresh_token_for_user_def)
          with completed [OF _ Some u(2) t f'] ne show ?thesis by simp
        qed
      qed
    qed
  qed
qed

lemma no_session_refused:
  assumes "cache_get now (session_cache st) (session_key_of (py_strip k)) = None"
  shows "\<exists>m. TwoFactorCompleteView_post v mint now jti k code st = (Detail 400 m, st)"
  using assms by (simp add: TwoFactorCompleteView_post_def Let_def)

lemma second_factor_true:
  "second_factor totp_verify now code t s = (Inr True, s1) \<Longrightarrow> factor_ok totp_verify code t"
  by (auto simp: second_factor_def use_backup_code_def factor_ok_def Let_def split: if_splits)

subsection \<open>Properties\<close>

text \<open>C6. The second factor gates the tokens. For an account with 2FA enabled the password step never
  answers with a token pair but opens a session of 300 seconds; the second step answers with a pair
  only inside such a session, for an enabled account, with a currently valid TOTP code or an unused
  backup code; it then closes the session, so the same session key is refused ever after.\<close>

theorem second_factor_gates_tokens:
  "(authenticate name pw (site_db st) = Some u \<and> totp_of (site_db st) (us_pk u) = Some t \<and> tp_is_enabled t \<longrightarrow>
     (\<exists>st1. ThrottledTokenObtainPairView_post authenticate mint now j1 j2 k name pw st =
        (Response 200 (Two_fa_required k), st1) \<and>
        (\<forall>later. cache_get later (session_cache st1) (session_key_of k) =
           (if later < now + 300 then Some (us_pk u) else None)))) \<and>
   (TwoFactorCompleteView_post totp_verify mint now jti key code st = (Response 200 (Tokens a r), st2) \<longrightarrow>
     (\<exists>p u t. cache_get now (session_cache st) (session_key_of (py_strip key)) = Some p \<and>
         user_of (site_db st) p = Some u \<and> totp_of (site_db st) (us_pk u) = Some t \<and> tp_is_enabled t \<and>
         factor_ok totp_verify (py_strip code) t \<and> (a, r) = mint u jti) \<and>
     (\<forall>later v jti' code'. \<exists>m. TwoFactorCompleteView_post v mint later jti' key code' st2 = (Detail 400 m, st2)))"
proof (intro conjI impI)
  assume "authenticate name pw (site_db st) = Some u \<and> totp_of (site_db st) (us_pk u) = Some t \<and> tp_is_enabled t"
  then show "\<exists>st1. ThrottledTokenObtainPairView_post authenticate mint now j1 j2 k name pw st =
        (Response 200 (Two_fa_required k), st1) \<and>
        (\<forall>later. cache_get later (session_cache st1) (session_key_of k) =
           (if later < now + 300 then Some (us_pk u) else None))"
    by (simp add: ThrottledTokenObtainPairView_post_def refresh_token_for_user_def totp_of_def
        django_cache.get_set CACHE_TTL_def)
next
  assume run: "TwoFactorCompleteView_post totp_verify mint now jti key code st = (Response 200 (Tokens a r), st2)"
  then show "\<exists>p u t. cache_get now (session_cache st) (session_key_of (py_strip key)) = Some p \<and>
         user_of (site_db st) p = Some u \<and> totp_of (site_db st) (us_pk u) = Some t \<and> tp_is_enabled t \<and>
         factor_ok totp_verify (py_strip code) t \<and> (a, r) = mint u jti"
  proof (cases rule: complete_cases)
    case (completed p u t s1)
    with second_factor_true [OF completed(6)] show ?thesis by (auto simp: prod_eq_iff)
  qed simp_all
  from run have "session_cache st2 = cache_delete (session_key_of (py_strip key)) (session_cache st)"
    by (cases rule: complete_cases) simp_all
  then show "\<forall>later v jti' code'. \<exists>m. TwoFactorCompleteView_post v mint later jti' key code' st2 = (Detail 400 m, st2)"
    by (auto intro: no_session_refused)
qed

definition bob_totp :: user_totp where
  "bob_totp = \<lparr>tp_id = ''tp'', tp_user = 2, tp_secret = ''SECRET'', tp_is_enabled = True,
     tp_backup_codes = [''AB12'', ''CD34''], tp_created_at = 0, tp_updated_at = 0\<rparr>"

lemma bob_totp_simps [simp]:
  "tp_id bob_totp = ''tp''" "tp_user bob_totp = 2" "tp_secret bob_totp = ''SECRET''"
  "tp_is_enabled bob_totp" "tp_backup_codes bob_totp = [''AB12'', ''CD34'']"
  by (simp_all add: bob_totp_def)

definition totp_site :: site where
  "totp_site = (demo_site (demo_db\<lparr>totps := [bob_totp]\<rparr>))
     \<lparr>session_cache := cache_set 0 CACHE_TTL (session_key_of ''k'') 2 Map.empty\<rparr>"

lemma totp_site_simps [simp]:
  "totp_of (site_db totp_site) 2 = Some bob_totp" "totps_ok (site_db totp_site)"
  "user_of (site_db totp_site) 2 = Some bob"
  "cache_get t (session_cache totp_site) (session_key_of ''k'') = (if t < 300 then Some 2 else None)"
  by (simp_all add: totp_site_def totp_of_def totps_ok_def tbl_ok_def user_of_def CACHE_TTL_def
      django_cache.get_set)

lemma code_strings: "py_strip ''k'' = ''k''" "py_strip '' ab12'' = ''ab12''" "py_strip ''ab12'' = ''ab12''"
  "py_upper ''ab12'' = ''AB12''" "py_strip ''zz'' = ''zz''" "py_upper ''zz'' = ''ZZ''"
  by code_simp+

theorem second_factor_gates_tokens_witness:
  "\<exists>st1. ThrottledTokenObtainPairView_post (\<lambda>_ _ _. Some bob) (\<lambda>_ j. (''a'' @ j, ''r'' @ j)) 5 ''1'' ''2'' ''k2''
     ''bob'' ''pw2'' totp_site = (Response 200 (Two_fa_required ''k2''), st1)"
  using second_factor_gates_tokens [where authenticate = "\<lambda>_ _ _. Some bob" and st = totp_site and u = bob
      and t = bob_totp] by fastforce

lemma wrong_code_refused:
  assumes "user_of (site_db st) p = Some u" and "totp_of (site_db st) (us_pk u) = Some t"
    and "tp_is_enabled t" and "\<not> factor_ok totp_verify (py_strip code) t"
    and "\<And>t. cache_get t (session_cache st) (session_key_of (py_strip k)) \<in> {None, Some p}"
  shows "snd (TwoFactorCompleteView_post totp_verify mint now jti k code st) = st"
proof -
  obtain resp st' where run: "TwoFactorCompleteView_post totp_verify mint now jti k code st = (resp, st')"
    by (cases "TwoFactorCompleteView_post totp_verify mint now jti k code st")
  have same: "q = p" if "cache_get now (session_cache st) (session_key_of (py_strip k)) = Some q" for q
    using assms(5) [of now] that by auto
  have "st' = st"
  proof (cases "cache_get now (session_cache st) (session_key_of (py_strip k)) = None \<or> py_strip k = [] \<or>
      py_strip code = [] \<or> p = 0")
    case True
    with run same show ?thesis
      by (auto simp: TwoFactorCompleteView_post_def Let_def split: option.splits if_splits)
  next
    case False
    with assms(5) [of now] have "cache_get now (session_cache st) (session_key_of (py_strip k)) = Some p" by auto
    moreover from assms(4) have "second_factor totp_verify now (py_strip code) t (site_db st) = (Inr False, site_db st)"
      by (simp add: second_factor_def use_backup_code_def factor_ok_def)
    ultimately show ?thesis
      using run False assms(1-3) by (simp add: TwoFactorCompleteView_post_def Let_def)
  qed
  with run show ?thesis by simp
qed

text \<open>Guessing the code is not limited by the service: any number of wrong codes, at any times,
  leaves the session and the account exactly as they were, so a right code sent after them while
  the session lasts still completes the login.\<close>

theorem wrong_codes_keep_session:
  assumes u: "user_of (site_db st) p = Some u" "p \<noteq> 0"
    and t: "totp_of (site_db st) (us_pk u) = Some t" "tp_is_enabled t"
    and session: "py_strip k \<noteq> []"
      "\<And>t. cache_get t (session_cache st) (session_key_of (py_strip k)) = (if t < expiry then Some p else None)"
    and wrong: "\<forall>g\<in>set guesses. \<not> factor_ok totp_verify (py_strip (snd g)) t"
    and right: "py_strip code \<noteq> []" "totp_verify (tp_secret t) (py_strip code)" "now < expiry"
  shows "foldl (\<lambda>st g. snd (TwoFactorCompleteView_post totp_verify mint (fst g) j k (snd g) st)) st guesses = st \<and>
    fst (TwoFactorCompleteView_post totp_verify mint now jti k code
      (foldl (\<lambda>st g. snd (TwoFactorCompleteView_post totp_verify mint (fst g) j k (snd g) st)) st guesses)) =
    Response 200 (Tokens (fst (mint u jti)) (snd (mint u jti)))"
proof -
  have "foldl (\<lambda>st g. snd (TwoFactorCompleteView_post totp_verify mint (fst g) j k (snd g) st)) st guesses = st"
    using wrong
  proof (induction guesses)
    case (Cons g guesses)
    have "snd (TwoFactorCompleteView_post totp_verify mint (fst g) j k (snd g) st) = st"
      by (rule wrong_code_refused [OF u(1) t]) (use Cons.prems session(2) in auto)
    with Cons show ?case by simp
  qed simp
  moreover have "fst (TwoFactorCompleteView_post totp_verify mint now jti k code st) =
      Response 200 (Tokens (fst (mint u jti)) (snd (mint u jti)))"
    using u t session right
    by (simp add: TwoFactorCompleteView_post_def Let_def second_factor_def refresh_token_for_user_def)
  ultimately show ?thesis by simp
qed

theorem wrong_codes_keep_session_witness:
  "fst (TwoFactorCompleteView_post (\<lambda>_ c. c = ''ab12'') (\<lambda>_ j. (''a'' @ j, ''r'' @ j)) 299 ''9'' ''k'' '' ab12''
     (foldl (\<lambda>st g. snd (TwoFactorCompleteView_post (\<lambda>_ c. c = ''ab12'') (\<lambda>_ j. (''a'' @ j, ''r'' @ j)) (fst g) ''8''
        ''k'' (snd g) st)) totp_site [(1, ''zz''), (2, ''zz''), (3, ''zz'')])) = Response 200 (Tokens ''a9'' ''r9'')"
proof -
  have u: "user_of (site_db totp_site) 2 = Some bob" "(2::nat) \<noteq> 0"
    and t: "totp_of (site_db totp_site) (us_pk bob) = Some bob_totp" by simp_all
  note held = wrong_codes_keep_session [where k = "''k''" and expiry = 300 and now = 299 and code = "'' ab12''" and
      totp_verify = "\<lambda>_ c. c = ''ab12''" and mint = "\<lambda>_ j. (''a'' @ j, ''r'' @ j)" and j = "''8''" and jti = "''9''" and
      guesses = "[(1, ''zz''), (2, ''zz''), (3, ''zz'')]",
      OF u t bob_totp_simps(4), THEN conjunct2]
  have "fst (TwoFactorCompleteView_post (\<lambda>_ c. c = ''ab12'') (\<lambda>_ j. (''a'' @ j, ''r'' @ j)) 299 ''9'' ''k'' '' ab12''
     (foldl (\<lambda>st g. snd (TwoFactorCompleteView_post (\<lambda>_ c. c = ''ab12'') (\<lambda>_ j. (''a'' @ j, ''r'' @ j)) (fst g) ''8''
        ''k'' (snd g) st)) totp_site [(1, ''zz''), (2, ''zz''), (3, ''zz'')])) =
     Response 200 (Tokens (fst (''a'' @ ''9'', ''r'' @ ''9'')) (snd (''a'' @ ''9'', ''r'' @ ''9'')))"
    by (rule held) (simp_all add: code_strings factor_ok_def)
  then show ?thesis by (simp only: fst_conv snd_conv append.simps)
qed

subsection \<open>Backup codes over a history\<close>

datatype login_event =
    Password instant string string string string string
  | Second instant string string string
  | Setup instant uuid string "string list" request
  | Enable instant request string
  | Disable instant request string

definition login_step ::
  "(string \<Rightarrow> string \<Rightarrow> db \<Rightarrow> user option) \<Rightarrow> (user \<Rightarrow> string \<Rightarrow> string \<times> string) \<Rightarrow> (string \<Rightarrow> string \<Rightarrow> bool) \<Rightarrow>
   (user \<Rightarrow> string \<Rightarrow> string) \<Rightarrow> (string \<Rightarrow> string) \<Rightarrow> site \<Rightarrow> login_event \<Rightarrow> site" where
  "login_step authenticate mint totp_verify uri svg st e =
     (case e of
        Password now j1 j2 k name pw \<Rightarrow>
          snd (ThrottledTokenObtainPairView_post authenticate mint now j1 j2 k name pw st)
      | Second now j k code \<Rightarrow> snd (TwoFactorCompleteView_post totp_verify mint now j k code st)
      | Setup now i secret codes rq \<Rightarrow>
          st\<lparr>site_db := snd (TwoFactorSetupView_get uri svg now i secret codes rq (site_db st))\<rparr>
      | Enable now rq code \<Rightarrow>
          st\<lparr>site_db := snd (TwoFactorVerifyEnableView_post totp_verify now rq code (site_db st))\<rparr>
      | Disable now rq code \<Rightarrow>
          st\<lparr>site_db := snd (TwoFactorDisableView_post totp_verify now rq code (site_db st))\<rparr>)"

text \<open>Fresh row ids, and fresh random codes: a setup does not draw \<open>c\<close> again.\<close>

definition login_admits :: "string \<Rightarrow> site \<Rightarrow> login_event \<Rightarrow> bool" where
  "login_admits c st e =
     (case e of
        Setup now i secret codes rq \<Rightarrow>
          i \<notin> tp_id ` set (totps (site_db st)) \<and> c \<notin> set (generate_backup_codes codes)
      | _ \<Rightarrow> True)"

definition spent :: "pk \<Rightarrow> string \<Rightarrow> site \<Rightarrow> bool" where
  "spent p c st \<longleftrightarrow> totps_ok (site_db st) \<and>
     (\<forall>t. totp_of (site_db st) p = Some t \<longrightarrow> c \<notin> set (tp_backup_codes t))"

lemma spent_db:
  "\<lbrakk>spent p c st; totps (site_db st') = totps (site_db st)\<rbrakk> \<Longrightarrow> spent p c st'"
  by (simp add: spent_def totps_ok_def totp_of_def)

lemma spent_save:
  assumes "spent p c st" and "totp_of (site_db st) q = Some t"
    and "tp_id t' = tp_id t" "tp_user t' = tp_user t" "set (tp_backup_codes t') \<subseteq> set (tp_backup_codes t)"
  shows "spent p c (st\<lparr>site_db := save_totp t' (site_db st)\<rparr>)"
proof -
  have "totps_ok (site_db st)" using assms(1) by (simp add: spent_def)
  from save_totp_effect [OF this assms(2-4)] show ?thesis
    using assms(1,2,5) by (auto simp: spent_def)
qed

lemma second_factor_spent:
  assumes "spent p c st" and "totp_of (site_db st) q = Some t"
    and run: "second_factor totp_verify now code t (site_db st) = (r, s1)"
  shows "spent p c (st\<lparr>site_db := s1\<rparr>)"
  using run TrueI
proof (cases rule: second_factor_cases)
  case backup
  with spent_save [OF assms(1,2)] show ?thesis by simp
qed (use assms(1) in simp_all)

lemma spent_remove:
  "spent p c st \<Longrightarrow> spent p c (st\<lparr>site_db := (site_db st)\<lparr>totps := qs_delete P (totps (site_db st))\<rparr>\<rparr>)"
  by (auto simp: spent_def totps_ok_def totp_of_lookup tbl_lookup_Some tbl_ok_def distinct_map_delete
      qs_delete_def [symmetric])

lemma spent_setup:
  assumes sp: "spent p c st" and fresh: "new_id \<notin> tp_id ` set (totps (site_db st))"
    and codes: "c \<notin> set (generate_backup_codes codes)"
  shows "spent p c (st\<lparr>site_db := snd (TwoFactorSetupView_get uri svg now new_id secret codes rq (site_db st))\<rparr>)"
proof (cases "rq_user rq")
  case None
  with sp show ?thesis by (simp add: TwoFactorSetupView_get_def)
next
  case (Some u)
  have ok: "totps_ok (site_db st)" using sp by (simp add: spent_def)
  show ?thesis
  proof (cases "totp_of (site_db st) (us_pk u)")
    case None
    with ok have "qs_get (\<lambda>t. tp_user t = us_pk u) (totps (site_db st)) = Inl DoesNotExist"
      by (simp add: totps_ok_def qs_get_tbl_lookup totp_of_lookup)
    with Some None sp fresh codes show ?thesis
      by (auto simp: TwoFactorSetupView_get_def update_or_create_def spent_def totps_ok_def totp_of_lookup
          tbl_lookup_None tbl_lookup_Some tbl_ok_def Let_def)
  next
    case ex: (Some t)
    let ?f = "\<lambda>t. t\<lparr>tp_secret := secret, tp_is_enabled := False, tp_updated_at := now\<rparr>"
    from ok ex have get: "qs_get (\<lambda>t. tp_user t = us_pk u) (totps (site_db st)) = Inr t"
      by (simp add: totps_ok_def qs_get_tbl_lookup totp_of_lookup)
    have "spent p c (st\<lparr>site_db := (site_db st)\<lparr>totps := qs_update (\<lambda>t. tp_user t = us_pk u) ?f (totps (site_db st))\<rparr>\<rparr>)"
      using sp by (auto simp: spent_def totps_ok_def totp_of_lookup tbl_lookup_update tbl_ok_update)
    with Some ex get sp show ?thesis
      by (simp add: TwoFactorSetupView_get_def update_or_create_def Let_def)
  qed
qed

lemma spent_enable:
  assumes sp: "spent p c st"
  shows "spent p c (st\<lparr>site_db := snd (TwoFactorVerifyEnableView_post totp_verify now rq code (site_db st))\<rparr>)"
  using sp spent_save [OF sp]
  by (auto simp: TwoFactorVerifyEnableView_post_def Let_def split: option.splits)

lemma spent_disable:
  assumes sp: "spent p c st"
  shows "spent p c (st\<lparr>site_db := snd (TwoFactorDisableView_post totp_verify now rq code (site_db st))\<rparr>)"
proof (cases "\<exists>u t. rq_user rq = Some u \<and> totp_of (site_db st) (us_pk u) = Some t")
  case True
  then obtain u t where ut: "rq_user rq = Some u" "totp_of (site_db st) (us_pk u) = Some t" by blast
  obtain r s1 where run: "second_factor totp_verify now (py_strip code) t (site_db st) = (r, s1)"
    by (cases "second_factor totp_verify now (py_strip code) t (site_db st)")
  note kept = second_factor_spent [OF sp ut(2) run]
  from ut run sp kept spent_remove [OF kept] show ?thesis
    by (auto simp: TwoFactorDisableView_post_def Let_def split: sum.splits)
qed (use sp in \<open>auto simp: TwoFactorDisableView_post_def Let_def split: option.splits\<close>)

lemma spent_step:
  assumes sp: "spent p c st" and adm: "login_admits c st e"
  shows "spent p c (login_step authenticate mint totp_verify uri svg st e)"
proof (cases e)
  case (Password now j1 j2 k name pw)
  have "totps (site_db (snd (ThrottledTokenObtainPairView_post authenticate mint now j1 j2 k name pw st))) = totps (site_db st)"
    by (auto simp: ThrottledTokenObtainPairView_post_def refresh_token_for_user_def Let_def split: option.splits)
  with Password sp show ?thesis by (simp add: login_step_def spent_db)
next
  case (Second now j k code)
  obtain resp st' where run: "TwoFactorCompleteView_post totp_verify mint now j k code st = (resp, st')"
    by (cases "TwoFactorCompleteView_post totp_verify mint now j k code st")
  then have "spent p c st'"
  proof (cases rule: complete_cases)
    case (completed q u t s1)
    from second_factor_spent [OF sp completed(4,6)] show ?thesis
      by (rule spent_db) (simp add: completed(8) refresh_token_for_user_def)
  qed (use sp spent_db in simp_all)
  with run Second show ?thesis by (simp add: login_step_def)
qed (use sp adm spent_setup spent_enable spent_disable in \<open>auto simp: login_step_def login_admits_def\<close>)

interpretation login_machine: preserved "login_step authenticate mint totp_verify uri svg" "login_admits c"
  "spent p c" for authenticate mint totp_verify uri svg c p
  by unfold_locales (rule spent_step)

text \<open>C25. A backup code is good for one login. A second step that is passed by a backup code (the TOTP
  check refusing the text) takes the code out of the account's list and no other; after any further
  history of password steps, second steps, setups, enables and disables of anybody, in which no
  setup draws the same code again, that text is not accepted as a backup code of the account.\<close>

theorem backup_code_single_use:
  assumes ok: "totps_ok (site_db st)" "user_of (site_db st) p = Some u" "p \<noteq> 0"
      "totp_of (site_db st) p = Some t" "tp_is_enabled t"
    and session: "py_strip k \<noteq> []"
      "cache_get now (session_cache st) (session_key_of (py_strip k)) = Some p"
    and code: "py_strip code \<noteq> []" "\<not> totp_verify (tp_secret t) (py_strip code)"
      "py_upper (py_strip code) \<in> set (tp_backup_codes t)"
    and step: "TwoFactorCompleteView_post totp_verify mint now jti k code st = (resp, st1)"
    and run: "login_machine.admitted authenticate mint totp_verify uri svg (py_upper (py_strip code)) st1 es"
    and run_end: "st2 = foldl (login_step authenticate mint totp_verify uri svg) st1 es"
  shows "resp = Response 200 (Tokens (fst (mint u jti)) (snd (mint u jti))) \<and>
    totp_of (site_db st1) = (totp_of (site_db st))(p \<mapsto> t\<lparr>tp_backup_codes :=
       filter (\<lambda>c. c \<noteq> py_upper (py_strip code)) (tp_backup_codes t), tp_updated_at := now\<rparr>) \<and>
    (\<forall>t' later. totp_of (site_db st2) p = Some t' \<longrightarrow>
       use_backup_code later code t' (site_db st2) = (Inr False, site_db st2))"
proof -
  have pk: "us_pk u = p" using ok(2) by (auto simp: user_of_def find_Some_iff)
  let ?c = "py_upper (py_strip code)"
  let ?t = "t\<lparr>tp_backup_codes := filter (\<lambda>c. c \<noteq> ?c) (tp_backup_codes t), tp_updated_at := now\<rparr>"
  have st1: "resp = Response 200 (Tokens (fst (mint u jti)) (snd (mint u jti)))"
    "totps (site_db st1) = totps (save_totp ?t (site_db st))"
    using step ok session code
    by (auto simp: TwoFactorCompleteView_post_def Let_def second_factor_def use_backup_code_def
        refresh_token_for_user_def pk)
  have "totps_ok (save_totp ?t (site_db st)) \<and>
      totp_of (save_totp ?t (site_db st)) = (totp_of (site_db st))(p \<mapsto> ?t)"
    by (rule save_totp_effect) (use ok in simp_all)
  with st1(2) have eff: "totps_ok (site_db st1)" "totp_of (site_db st1) = (totp_of (site_db st))(p \<mapsto> ?t)"
    by (simp_all add: totps_ok_def totp_of_def fun_eq_iff)
  then have "spent p ?c st1" by (simp add: spent_def)
  with run have "spent p ?c st2" unfolding run_end by (intro login_machine.inv_run)
  with st1(1) eff(2) show ?thesis by (simp add: spent_def use_backup_code_def)
qed

theorem backup_code_single_use_witness:
  "\<exists>st1. TwoFactorCompleteView_post (\<lambda>_ _. False) (\<lambda>_ j. (''a'', ''r'')) 5 ''9'' ''k'' ''ab12'' totp_site
     = (Response 200 (Tokens ''a'' ''r''), st1) \<and>
   map_option tp_backup_codes (totp_of (site_db st1) 2) = Some [''CD34'']"
proof -
  have u: "totps_ok (site_db totp_site)" "user_of (site_db totp_site) 2 = Some bob" "(2::nat) \<noteq> 0"
    "totp_of (site_db totp_site) 2 = Some bob_totp" "tp_is_enabled bob_totp" by simp_all
  obtain resp st1 where step: "TwoFactorCompleteView_post (\<lambda>_ _. False) (\<lambda>_ j. (''a'', ''r'')) 5 ''9'' ''k'' ''ab12'' totp_site
      = (resp, st1)" by fastforce
  have "resp = Response 200 (Tokens (fst (''a'', ''r'')) (snd (''a'', ''r''))) \<and>
    totp_of (site_db st1) = (totp_of (site_db totp_site))(2 \<mapsto> bob_totp\<lparr>tp_backup_codes :=
       filter (\<lambda>c. c \<noteq> py_upper (py_strip ''ab12'')) (tp_backup_codes bob_totp), tp_updated_at := 5\<rparr>) \<and>
    (\<forall>t' later. totp_of (site_db st1) 2 = Some t' \<longrightarrow>
       use_backup_code later ''ab12'' t' (site_db st1) = (Inr False, site_db st1))"
    by (rule backup_code_single_use [where es = "[]" and authenticate = "\<lambda>_ _ _. None" and uri = "\<lambda>_ _. []" and svg = id,
          OF u _ _ _ _ _ step])
      (simp_all add: code_strings)
  then have "resp = Response 200 (Tokens ''a'' ''r'')"
    "map_option tp_backup_codes (totp_of (site_db st1) 2) = Some [''CD34'']"
    by (simp_all add: code_strings)
  with step show ?thesis by blast
qed

end
