(* ===== verification/Social_Auth.thy ===== *)
theory Social_Auth
  imports Users Two_Factor
begin

text \<open>
  \<open>services/auth/social_auth_service.py\<close> and \<open>apps/authentication/social_views.py\<close>: login with
  a Google or GitHub access token. The providers are parameters: what their documented
  endpoints answer to a token, \<open>None\<close> where the request (or its JSON) fails. \<open>unusable\<close> is the
  password Django stores for "no password". Column widths are the database's; that the
  names made here fit them is shown below.
\<close>

subsection \<open>Usernames\<close>

text \<open>The regular expression class \<open>\w\<close>.\<close>

definition word_char :: "char \<Rightarrow> bool" where
  "word_char c =
     (let n = (of_char c :: nat)
      in (48 \<le> n \<and> n \<le> 57) \<or> (65 \<le> n \<and> n \<le> 90) \<or> n = 95 \<or> (97 \<le> n \<and> n \<le> 122) \<or>
         n \<in> {170, 178, 179, 181, 185, 186, 188, 189, 190} \<or> (192 \<le> n \<and> n \<noteq> 215 \<and> n \<noteq> 247))"

definition make_username :: "string \<Rightarrow> string \<Rightarrow> string" where
  "make_username provider base =
     (let clean = take 30 (strip_by (\<lambda>c. c = CHR ''_'') (map (\<lambda>c. if word_char c then c else CHR ''_'') base))
      in str_or clean (provider @ ''_user''))"

definition suffixed :: "string \<Rightarrow> nat \<Rightarrow> string" where
  "suffixed base n = base @ ''_'' @ str_nat n"

text \<open>The loop of \<open>_unique_username\<close> over the taken names. It ends: each name tried from the second
  on is a different \<open>base_n\<close>, and only finitely many names are taken.\<close>

definition taken_from :: "string list \<Rightarrow> string \<Rightarrow> nat \<Rightarrow> nat set" where
  "taken_from names base n = {k. n \<le> k \<and> suffixed base k \<in> set names}"

lemma suffixed_inject [simp]: "suffixed base m = suffixed base n \<longleftrightarrow> m = n"
  by (simp add: suffixed_def)

lemma taken_finite: "finite (taken_from names base n)"
proof (rule finite_imageD)
  show "finite (suffixed base ` taken_from names base n)"
    by (rule finite_subset [of _ "set names"]) (auto simp: taken_from_def)
qed (simp add: inj_on_def)

lemma taken_step:
  "card (taken_from names base n) =
     card (taken_from names base (Suc n)) + (if suffixed base n \<in> set names then 1 else 0)"
proof -
  have "taken_from names base n =
      (if suffixed base n \<in> set names then insert n (taken_from names base (Suc n))
       else taken_from names base (Suc n))"
    by (auto simp: taken_from_def Suc_le_eq) (metis le_neq_implies_less)+
  moreover have "n \<notin> taken_from names base (Suc n)" by (simp add: taken_from_def)
  ultimately show ?thesis by (simp add: taken_finite)
qed

function unique_loop :: "string list \<Rightarrow> string \<Rightarrow> nat \<Rightarrow> string \<Rightarrow> string" where
  "unique_loop names base counter username =
     (if username \<in> set names then unique_loop names base (counter + 1) (suffixed base counter) else username)"
  by pat_completeness auto

termination
proof (relation "measure (\<lambda>(names, base, counter, username).
    card (taken_from names base counter) + (if username \<in> set names then 1 else 0))")
  fix names :: "string list" and base counter username
  assume "username \<in> set names"
  then show "((names, base, counter + 1, suffixed base counter), (names, base, counter, username))
      \<in> measure (\<lambda>(names, base, counter, username).
           card (taken_from names base counter) + (if username \<in> set names then 1 else 0))"
    using taken_step [of names base counter] by simp
qed simp

declare unique_loop.simps [simp del]

definition unique_username :: "string \<Rightarrow> db \<Rightarrow> string" where
  "unique_username base s = unique_loop (map us_username (users s)) base 1 base"

text \<open>The name found is free, and every name tried before it was taken.\<close>

lemma unique_loop_spec:
  "unique_loop names base n username \<notin> set names \<and>
    (unique_loop names base n username = username \<or>
     (username \<in> set names \<and> (\<exists>k\<ge>n. unique_loop names base n username = suffixed base k \<and>
        (\<forall>j. n \<le> j \<and> j < k \<longrightarrow> suffixed base j \<in> set names))))"
proof (induction names base n username rule: unique_loop.induct)
  case (1 names base n username)
  show ?case
  proof (cases "username \<in> set names")
    case True
    then have step: "unique_loop names base n username = unique_loop names base (n + 1) (suffixed base n)"
      by (subst unique_loop.simps) simp
    let ?u = "unique_loop names base (n + 1) (suffixed base n)"
    from 1 [OF True] have ih: "?u \<notin> set names" "?u = suffixed base n \<or>
        (suffixed base n \<in> set names \<and> (\<exists>k\<ge>n + 1. ?u = suffixed base k \<and>
           (\<forall>j. n + 1 \<le> j \<and> j < k \<longrightarrow> suffixed base j \<in> set names)))" by blast+
    have "\<exists>k\<ge>n. ?u = suffixed base k \<and> (\<forall>j. n \<le> j \<and> j < k \<longrightarrow> suffixed base j \<in> set names)"
      using ih(2)
    proof (elim disjE conjE exE)
      assume "?u = suffixed base n"
      then show ?thesis by (intro exI [of _ n]) auto
    next
      fix k assume k: "suffixed base n \<in> set names" "n + 1 \<le> k" "?u = suffixed base k"
        "\<forall>j. n + 1 \<le> j \<and> j < k \<longrightarrow> suffixed base j \<in> set names"
      have "suffixed base j \<in> set names" if "n \<le> j" "j < k" for j
        using k(1,4) that by (cases "j = n") auto
      with k(2,3) show ?thesis by (intro exI [of _ k]) simp
    qed
    with True ih(1) show ?thesis unfolding step by blast
  next
    case False
    then show ?thesis by (subst (1 2 3) unique_loop.simps) simp
  qed
qed

lemma unique_username_free: "unique_username base s \<notin> us_username ` set (users s)"
  using unique_loop_spec [of "map us_username (users s)" base 1 base] by (simp add: unique_username_def)

subsection \<open>The providers\<close>

record social_user_info =
  si_email :: string
  si_username :: string
  si_first_name :: string
  si_last_name :: string
  si_provider :: string
  si_provider_id :: string

text \<open>The keys the code reads of the providers' answers; \<open>None\<close> is an absent key, of
  GitHub's \<open>email\<close> and \<open>name\<close> also a null.\<close>

record google_userinfo =
  gi_email :: "string option"
  gi_email_verified :: "bool option"
  gi_given_name :: "string option"
  gi_family_name :: "string option"
  gi_sub :: "string option"

record github_user =
  gu_email :: "string option"
  gu_login :: "string option"
  gu_name :: "string option"
  gu_id :: "nat option"

record github_email =
  ge_email :: string
  ge_primary :: bool
  ge_verified :: bool

record providers =
  google :: "string \<Rightarrow> google_userinfo option"
  github_profile :: "string \<Rightarrow> github_user option"
  github_emails :: "string \<Rightarrow> github_email list option"

definition get_str :: "string option \<Rightarrow> string" where
  "get_str v = (case v of Some x \<Rightarrow> x | None \<Rightarrow> [])"

definition fetch_google :: "providers \<Rightarrow> string \<Rightarrow> exn + social_user_info" where
  "fetch_google web access_token =
     (case google web access_token of
        None \<Rightarrow> Inl (ValidationServiceError ''Google token validation failed.'')
      | Some data \<Rightarrow>
          (let email = py_lower (py_strip (get_str (gi_email data)))
           in if email = [] then Inl (ValidationServiceError ''Google did not return an email address.'')
              else if gi_email_verified data \<noteq> Some True
              then Inl (ValidationServiceError ''Google email is not verified.'')
              else Inr \<lparr>si_email = email, si_username = make_username ''google'' email,
                        si_first_name = get_str (gi_given_name data), si_last_name = get_str (gi_family_name data),
                        si_provider = ''google'', si_provider_id = get_str (gi_sub data)\<rparr>))"

text \<open>\<open>name.split(" ", 1)\<close>: the parts before and after the first space.\<close>

definition first_word :: "string \<Rightarrow> string" where
  "first_word s = takeWhile (\<lambda>c. c \<noteq> CHR '' '') s"

definition after_space :: "string \<Rightarrow> string" where
  "after_space s = drop 1 (dropWhile (\<lambda>c. c \<noteq> CHR '' '') s)"

definition fetch_github :: "providers \<Rightarrow> string \<Rightarrow> exn + social_user_info" where
  "fetch_github web access_token =
     (case github_profile web access_token of
        None \<Rightarrow> Inl (ValidationServiceError ''GitHub token validation failed.'')
      | Some user_data \<Rightarrow>
          (let public = py_lower (py_strip (get_str (gu_email user_data)));
               fetched = (if public \<noteq> [] then Some public
                          else case github_emails web access_token of
                                 None \<Rightarrow> None
                               | Some entries \<Rightarrow>
                                   (case find (\<lambda>e. ge_primary e \<and> ge_verified e) entries of
                                      Some e \<Rightarrow> Some (py_lower (py_strip (ge_email e))) | None \<Rightarrow> Some []))
           in case fetched of
                None \<Rightarrow> Inl (ValidationServiceError ''GitHub token validation failed.'')
              | Some email \<Rightarrow>
                  if email = []
                  then Inl (ValidationServiceError ''GitHub did not return a verified primary email.'')
                  else
                    (let login = get_str (gu_login user_data); name = get_str (gu_name user_data)
                     in Inr \<lparr>si_email = email, si_username = make_username ''github'' (str_or login email),
                             si_first_name = first_word name, si_last_name = after_space name,
                             si_provider = ''github'',
                             si_provider_id = (case gu_id user_data of Some n \<Rightarrow> str_nat n | None \<Rightarrow> [])\<rparr>)))"

subsection \<open>The account\<close>

definition get_or_create_user :: "string \<Rightarrow> social_user_info \<Rightarrow> (db, user) op" where
  "get_or_create_user unusable info s =
     (case qs_first (\<lambda>u. int (us_pk u)) (\<lambda>u. us_email u = si_email info) (users s) of
        Some existing \<Rightarrow> (Inr existing, s)
      | None \<Rightarrow>
          (let username = unique_username (si_username info) s
           in case atomic (insert_user \<lparr>us_pk = 0, us_username = username, us_email = si_email info,
                        us_first_name = si_first_name info, us_last_name = si_last_name info,
                        us_password = unusable, us_is_active = True, us_is_superuser = False\<rparr>) s of
                (Inl e, s1) \<Rightarrow>
                  (Inl (if e = IntegrityError
                        then ConflictServiceError ''An account with those credentials already exists.''
                        else e), s1)
              | (Inr u, s1) \<Rightarrow> (Inr u, s1)))"

definition social_info :: "providers \<Rightarrow> string \<Rightarrow> string \<Rightarrow> exn + social_user_info" where
  "social_info web provider0 access_token =
     (let provider = py_lower provider0
      in if provider = ''google'' then fetch_google web access_token
         else if provider = ''github'' then fetch_github web access_token
         else Inl (ValidationServiceError (''Unsupported provider: '' @ py_repr provider)))"

definition social_authenticate :: "providers \<Rightarrow> string \<Rightarrow> string \<Rightarrow> string \<Rightarrow> (db, user) op" where
  "social_authenticate web unusable provider access_token s =
     (case social_info web provider access_token of
        Inl e \<Rightarrow> (Inl e, s)
      | Inr info \<Rightarrow> get_or_create_user unusable info s)"

text \<open>No code sets \<open>_pre_existing\<close> on a user, so \<open>getattr(user, "_pre_existing", True)\<close> is true.\<close>

definition SocialAuthView_post ::
  "providers \<Rightarrow> (user \<Rightarrow> string \<Rightarrow> string \<times> string) \<Rightarrow> string \<Rightarrow> string \<Rightarrow> string \<Rightarrow> string \<Rightarrow> db \<Rightarrow>
   (string \<times> string \<times> bool) response \<times> db" where
  "SocialAuthView_post web mint unusable jti provider0 access_token0 s =
     (let provider = py_strip provider0; access_token = py_strip access_token0
      in if provider = [] then (Detail 400 ''provider is required.'', s)
         else if access_token = [] then (Detail 400 ''access_token is required.'', s)
         else case social_authenticate web unusable provider access_token s of
                (Inl e, s1) \<Rightarrow>
                  (case e of
                     ValidationServiceError m \<Rightarrow> Detail 401 (user_message e)
                   | ConflictServiceError m \<Rightarrow> Detail 409 (user_message e)
                   | _ \<Rightarrow> Uncaught e, s1)
              | (Inr u, s1) \<Rightarrow>
                  (let created = (\<not> True); (pair, s2) = refresh_token_for_user mint jti u s1
                   in (Response 200 (fst pair, snd pair, created), s2)))"

subsection \<open>Lemmas\<close>

lemma make_username_bound:
  "length provider \<le> 25 \<Longrightarrow> length (make_username provider base) \<le> 30"
  by (auto simp: make_username_def str_or_def Let_def)

lemma make_username_chars:
  assumes "\<forall>c\<in>set provider. word_char c" and "c \<in> set (make_username provider base)"
  shows "word_char c"
proof -
  have us: "word_char CHR ''_''" by code_simp
  have suffix: "\<forall>c\<in>set ''_user''. word_char c" by code_simp
  let ?m = "map (\<lambda>c. if word_char c then c else CHR ''_'') base"
  let ?clean = "take 30 (strip_by (\<lambda>c. c = CHR ''_'') ?m)"
  have "set ?clean \<subseteq> set ?m"
    by (rule subset_trans [OF set_take_subset set_strip_by])
  moreover have "\<forall>c\<in>set ?m. word_char c" using us by auto
  ultimately have clean: "\<forall>c\<in>set ?clean. word_char c" by blast
  show ?thesis
  proof (cases "?clean = []")
    case True
    then have "make_username provider base = provider @ ''_user''"
      by (simp only: make_username_def str_or_def Let_def simp_thms if_True)
    with assms suffix show ?thesis by (metis UnE set_append)
  next
    case False
    then have "make_username provider base = ?clean"
      by (simp only: make_username_def str_or_def Let_def simp_thms if_False)
    with assms(2) clean show ?thesis by metis
  qed
qed

text \<open>What every identified login carries.\<close>

definition info_ok :: "social_user_info \<Rightarrow> bool" where
  "info_ok info \<longleftrightarrow> si_email info \<noteq> [] \<and> strip_lower (si_email info) = si_email info \<and>
     si_username info \<noteq> [] \<and> length (si_username info) \<le> 30 \<and> (\<forall>c\<in>set (si_username info). word_char c)"

lemma make_username_nonempty: "make_username provider base \<noteq> []"
  by (simp add: make_username_def str_or_def Let_def)

lemma provider_username:
  assumes "provider = ''google'' \<or> provider = ''github''"
  shows "make_username provider base \<noteq> [] \<and> length (make_username provider base) \<le> 30 \<and>
    (\<forall>c\<in>set (make_username provider base). word_char c)"
proof -
  have google: "\<forall>c\<in>set ''google''. word_char c" "length ''google'' \<le> 25" by code_simp+
  have github: "\<forall>c\<in>set ''github''. word_char c" "length ''github'' \<le> 25" by code_simp+
  have "(\<forall>c\<in>set provider. word_char c) \<and> length provider \<le> 25" using assms google github by metis
  then show ?thesis using make_username_nonempty make_username_bound make_username_chars by blast
qed

lemma py_lower_strip_normal: "strip_lower (py_lower (py_strip s)) = py_lower (py_strip s)"
  unfolding strip_lower_def [symmetric] by (rule strip_lower_idem)

lemma fetch_google_info:
  assumes "fetch_google web tok = Inr info"
  shows "info_ok info"
proof -
  obtain data where data: "google web tok = Some data"
    using assms by (cases "google web tok") (simp_all add: fetch_google_def)
  let ?email = "py_lower (py_strip (get_str (gi_email data)))"
  have ne: "?email \<noteq> []" using assms by (auto simp: fetch_google_def data)
  have "gi_email_verified data = Some True"
    using assms ne by (cases "gi_email_verified data = Some True") (simp_all add: fetch_google_def data Let_def)
  with assms ne have "si_email info = ?email" "si_username info = make_username ''google'' ?email"
    by (auto simp: fetch_google_def data Let_def)
  with ne provider_username [of "''google''" ?email] show ?thesis
    by (simp add: info_ok_def py_lower_strip_normal)
qed

lemma fetch_github_info:
  assumes "fetch_github web tok = Inr info"
  shows "info_ok info"
proof -
  obtain data where data: "github_profile web tok = Some data"
    using assms by (cases "github_profile web tok") (simp_all add: fetch_github_def)
  let ?public = "py_lower (py_strip (get_str (gu_email data)))"
  let ?find = "find (\<lambda>e. ge_primary e \<and> ge_verified e)"
  define fetched where "fetched = (if ?public \<noteq> [] then Some ?public
      else case github_emails web tok of None \<Rightarrow> None
        | Some entries \<Rightarrow> (case ?find entries of
            Some e \<Rightarrow> Some (py_lower (py_strip (ge_email e))) | None \<Rightarrow> Some []))"
  note def = fetch_github_def data Let_def fetched_def [symmetric]
  obtain email where email: "fetched = Some email"
    using assms by (cases fetched) (simp_all add: def)
  have ne: "email \<noteq> []" using assms email by (cases email) (simp_all add: def)
  have info: "si_email info = email"
    "si_username info = make_username ''github'' (str_or (get_str (gu_login data)) email)"
    using assms email ne by (auto simp: def)
  have "\<exists>raw. email = py_lower (py_strip raw)"
  proof (cases "?public \<noteq> []")
    case True
    with email show ?thesis by (auto simp: fetched_def)
  next
    case False
    with email ne show ?thesis by (force simp: fetched_def split: option.splits)
  qed
  then have "strip_lower email = email" using py_lower_strip_normal by auto
  with ne info provider_username [of "''github''" "str_or (get_str (gu_login data)) email"] show ?thesis
    by (simp add: info_ok_def)
qed

lemma fetch_errors:
  "fetch_google web tok = Inl e \<Longrightarrow> \<exists>m. e = ValidationServiceError m"
  "fetch_github web tok = Inl e \<Longrightarrow> \<exists>m. e = ValidationServiceError m"
  by (auto simp: fetch_google_def fetch_github_def Let_def split: option.splits if_splits)

lemma social_info_Inr: "social_info web p tok = Inr info \<Longrightarrow> info_ok info"
  using fetch_google_info fetch_github_info by (simp add: social_info_def Let_def split: if_splits)

lemma social_info_Inl: "social_info web p tok = Inl e \<Longrightarrow> \<exists>m. e = ValidationServiceError m"
  using fetch_errors [of web tok e] by (auto simp: social_info_def Let_def split: if_splits)

text \<open>The two branches of the account lookup; the conflict branch is never taken.\<close>

lemma get_or_create_user_cases [consumes 2, case_names existing created]:
  assumes ok: "users_ok s" and run: "get_or_create_user unusable info s = (r, s')"
    and existing: "\<And>u. u \<in> set (users s) \<Longrightarrow> us_email u = si_email info \<Longrightarrow> r = Inr u \<Longrightarrow> s' = s \<Longrightarrow> P"
    and created: "\<And>u. si_email info \<notin> us_email ` set (users s) \<Longrightarrow> r = Inr u \<Longrightarrow>
      u = \<lparr>us_pk = next_user_pk s, us_username = unique_username (si_username info) s, us_email = si_email info,
            us_first_name = si_first_name info, us_last_name = si_last_name info,
            us_password = unusable, us_is_active = True, us_is_superuser = False\<rparr> \<Longrightarrow>
      s' = s\<lparr>users := users s @ [u], next_user_pk := next_user_pk s + 1\<rparr> \<Longrightarrow> P"
  shows P
proof (cases "qs_first (\<lambda>u. int (us_pk u)) (\<lambda>u. us_email u = si_email info) (users s)")
  case None
  then have fresh: "si_email info \<notin> us_email ` set (users s)" by auto
  have free: "\<not> qs_exists (\<lambda>x. us_username x = unique_username (si_username info) s) (users s)"
    unfolding qs_exists_iff using unique_username_free [of "si_username info" s] by (metis imageI)
  let ?u = "\<lparr>us_pk = next_user_pk s, us_username = unique_username (si_username info) s,
     us_email = si_email info, us_first_name = si_first_name info, us_last_name = si_last_name info,
     us_password = unusable, us_is_active = True, us_is_superuser = False\<rparr>"
  have "r = Inr ?u" "s' = s\<lparr>users := users s @ [?u], next_user_pk := next_user_pk s + 1\<rparr>"
    using run None free
    by (simp_all add: get_or_create_user_def Let_def atomic_def insert_user_def
        del: qs_first_None qs_exists_iff)
  with fresh show ?thesis by (intro created [OF _ _ refl])
next
  case (Some u)
  with run have "r = Inr u" "s' = s" by (simp_all add: get_or_create_user_def)
  with qs_first_Some [OF Some] show ?thesis by (intro existing [of u]) simp_all
qed

lemma get_or_create_again:
  assumes "users_ok s" and "u \<in> set (users s)" "us_email u = si_email info"
  shows "get_or_create_user unusable info s = (Inr u, s)"
proof -
  obtain r s' where run: "get_or_create_user unusable info s = (r, s')"
    by (cases "get_or_create_user unusable info s")
  from assms(1) run show ?thesis
  proof (cases rule: get_or_create_user_cases)
    case (existing v)
    with assms have "v = u"
      unfolding users_ok_def tbl_ok_def by (metis distinct_map inj_onD)
    with existing run show ?thesis by simp
  next
    case created
    with assms(2,3) show ?thesis by (metis imageI)
  qed
qed

subsection \<open>Properties\<close>

text \<open>C26. Social login finds or creates the account of the provider's e-mail address. If the provider
  does not vouch for the token the service raises a validation error and nothing changes. Otherwise it
  returns an account with that address, which is the existing one, untouched, if there is one; a new
  account gets a fresh key, an unusable password, no privileges and the free username with the least
  suffix. The names stay unique, and from then on every login with that address, through any provider,
  returns this account.\<close>

theorem social_login_correct:
  assumes ok: "users_ok s" and run: "social_authenticate web unusable p tok s = (r, s')"
  shows "(\<exists>m. social_info web p tok = Inl (ValidationServiceError m) \<and> r = Inl (ValidationServiceError m) \<and> s' = s) \<or>
    (\<exists>info u. social_info web p tok = Inr info \<and> info_ok info \<and> r = Inr u \<and> us_email u = si_email info \<and>
       users_ok s' \<and> u \<in> set (users s') \<and>
       (if si_email info \<in> us_email ` set (users s) then s' = s
        else s' = s\<lparr>users := users s @ [u], next_user_pk := next_user_pk s + 1\<rparr> \<and>
          us_pk u = next_user_pk s \<and> us_password u = unusable \<and> \<not> us_is_superuser u \<and>
          us_username u \<notin> us_username ` set (users s) \<and>
          (us_username u = si_username info \<or>
           (\<exists>k\<ge>1. us_username u = suffixed (si_username info) k \<and>
              insert (si_username info) (suffixed (si_username info) ` {1..<k}) \<subseteq> us_username ` set (users s)))) \<and>
       (\<forall>web' unusable' p' tok' info'. social_info web' p' tok' = Inr info' \<and> si_email info' = si_email info \<longrightarrow>
          social_authenticate web' unusable' p' tok' s' = (Inr u, s')))"
proof (cases "social_info web p tok" rule: isl_cases)
  case (Error e)
  with run social_info_Inl [OF Error] show ?thesis by (auto simp: social_authenticate_def)
next
  case identified: (Ok info)
  with run have goc: "get_or_create_user unusable info s = (r, s')" by (simp add: social_authenticate_def)
  have again: "social_authenticate web' unusable' p' tok' s' = (Inr u, s')"
    if "users_ok s'" "u \<in> set (users s')" "us_email u = si_email info"
      "social_info web' p' tok' = Inr info' \<and> si_email info' = si_email info" for u web' unusable' p' tok' info'
    using that get_or_create_again [of s' u info'] by (simp add: social_authenticate_def)
  from ok goc show ?thesis
  proof (cases rule: get_or_create_user_cases)
    case (existing u)
    then have "si_email info \<in> us_email ` set (users s)" by (metis imageI)
    with existing identified social_info_Inr [OF identified] ok again show ?thesis
      by (intro disjI2 exI [of _ info] exI [of _ u]) auto
  next
    case (created u)
    have free: "us_username u \<notin> us_username ` set (users s)"
      using unique_username_free created(3) by simp
    have least: "us_username u = si_username info \<or> (\<exists>k\<ge>1. us_username u = suffixed (si_username info) k \<and>
        insert (si_username info) (suffixed (si_username info) ` {1..<k}) \<subseteq> us_username ` set (users s))"
      using unique_loop_spec [of "map us_username (users s)" "si_username info" 1 "si_username info"] created(3)
      by (auto simp: unique_username_def)
    have "users_ok s'"
      using ok created(1) free by (auto simp: created(3,4) users_ok_def tbl_ok_def)
    with created free least again [of u] identified social_info_Inr [OF identified] show ?thesis
      by (intro disjI2 exI [of _ info] exI [of _ u]) auto
  qed
qed

definition demo_web :: providers where
  "demo_web = \<lparr>google = (\<lambda>tok. if tok = ''gtok'' then Some \<lparr>gi_email = Some '' Bob@acme.test'',
       gi_email_verified = Some True, gi_given_name = None, gi_family_name = None, gi_sub = Some ''7''\<rparr> else None),
     github_profile = (\<lambda>tok. Some \<lparr>gu_email = None, gu_login = Some ''bob'', gu_name = Some ''Bo B Z'',
       gu_id = Some 9\<rparr>),
     github_emails = (\<lambda>tok. Some [\<lparr>ge_email = ''x@x.test'', ge_primary = True, ge_verified = False\<rparr>,
       \<lparr>ge_email = ''New@x.test '', ge_primary = True, ge_verified = True\<rparr>])\<rparr>"

lemma demo_web_info:
  "social_info demo_web ''google'' ''gtok'' = Inr \<lparr>si_email = ''bob@acme.test'', si_username = ''bob_acme_test'',
     si_first_name = [], si_last_name = [], si_provider = ''google'', si_provider_id = ''7''\<rparr>"
  "social_info demo_web ''GitHub'' ''tok'' = Inr \<lparr>si_email = ''new@x.test'', si_username = ''bob'',
     si_first_name = ''Bo'', si_last_name = ''B Z'', si_provider = ''github'', si_provider_id = ''9''\<rparr>"
  by code_simp+

theorem social_login_correct_witness:
  "\<exists>u s'. social_authenticate demo_web ''!'' ''GitHub'' ''tok'' demo_db = (Inr u, s') \<and> users_ok s' \<and>
     us_email u = ''new@x.test'' \<and> users s' = [alice, bob, u] \<and> us_username u \<noteq> ''bob''"
proof -
  obtain r s' where run: "social_authenticate demo_web ''!'' ''GitHub'' ''tok'' demo_db = (r, s')"
    by (cases "social_authenticate demo_web ''!'' ''GitHub'' ''tok'' demo_db")
  from social_login_correct [OF demo_users_ok run] run show ?thesis
    by (auto simp: demo_web_info)
qed

text \<open>The answers of the social login endpoint. A rejected token answers 401 with nothing changed;
  every vouched one answers 200 with a token pair of its account and \<open>created\<close> false, for a new
  account as for an existing one - the 409 branch is dead. The answer is the same whatever the table of
  second factors holds: an account with 2FA enabled gets its tokens without a code.\<close>

theorem social_endpoint_answers:
  assumes ok: "users_ok s" and given: "py_strip p \<noteq> []" "py_strip tok \<noteq> []"
  shows "(case social_info web (py_strip p) (py_strip tok) of
       Inl e \<Rightarrow> SocialAuthView_post web mint unusable jti p tok s = (Detail 401 (user_message e), s)
     | Inr info \<Rightarrow> \<exists>u s1. social_authenticate web unusable (py_strip p) (py_strip tok) s = (Inr u, s1) \<and>
         us_email u = si_email info \<and> outstanding_tokens s1 = outstanding_tokens s \<and>
         SocialAuthView_post web mint unusable jti p tok s =
           (Response 200 (fst (mint u jti), snd (mint u jti), False),
            s1\<lparr>outstanding_tokens := outstanding_tokens s @
               [\<lparr>ot_jti = jti, ot_user = Some (us_pk u), ot_blacklisted = False\<rparr>]\<rparr>)) \<and>
    (\<forall>ts. fst (SocialAuthView_post web mint unusable jti p tok (s\<lparr>totps := ts\<rparr>)) =
       fst (SocialAuthView_post web mint unusable jti p tok s))"
proof (cases "social_info web (py_strip p) (py_strip tok)" rule: isl_cases)
  case (Error e)
  with given social_info_Inl [OF Error] show ?thesis
    by (auto simp: SocialAuthView_post_def social_authenticate_def)
next
  case (Ok info)
  have auth: "social_authenticate web unusable (py_strip p) (py_strip tok) s' = get_or_create_user unusable info s'"
    for s' using Ok by (simp add: social_authenticate_def)
  obtain r s1 where goc: "get_or_create_user unusable info s = (r, s1)"
    by (cases "get_or_create_user unusable info s")
  from ok goc obtain u where u: "r = Inr u" "us_email u = si_email info"
      "outstanding_tokens s1 = outstanding_tokens s"
    by (cases rule: get_or_create_user_cases) auto
  have same: "fst (get_or_create_user unusable info (s\<lparr>totps := ts\<rparr>)) = r" for ts
    using goc by (auto simp: get_or_create_user_def unique_username_def insert_user_def atomic_def Let_def
        simp del: qs_exists_iff qs_first_None split: option.splits if_splits)
  have answer: "SocialAuthView_post web mint unusable jti p tok s' =
      (Response 200 (fst (mint u jti), snd (mint u jti), False),
       s2\<lparr>outstanding_tokens := outstanding_tokens s2 @
         [\<lparr>ot_jti = jti, ot_user = Some (us_pk u), ot_blacklisted = False\<rparr>]\<rparr>)"
    if "get_or_create_user unusable info s' = (Inr u, s2)" for s' s2
    using that given auth [of s'] by (simp add: SocialAuthView_post_def refresh_token_for_user_def Let_def)
  have "fst (SocialAuthView_post web mint unusable jti p tok (s\<lparr>totps := ts\<rparr>)) =
      Response 200 (fst (mint u jti), snd (mint u jti), False)" for ts
    using answer [of "s\<lparr>totps := ts\<rparr>" "snd (get_or_create_user unusable info (s\<lparr>totps := ts\<rparr>))"] same [of ts] u(1)
    by (simp add: prod_eq_iff)
  with answer [of s s1] goc u auth [of s] Ok show ?thesis by simp
qed

theorem social_endpoint_answers_witness:
  "\<exists>s'. SocialAuthView_post demo_web (\<lambda>u j. (''a'', ''r'')) ''!'' ''j'' ''google'' ''gtok'' demo_db =
     (Response 200 (''a'', ''r'', False), s')"
proof -
  have given: "py_strip ''google'' = ''google''" "py_strip ''gtok'' = ''gtok''" by code_simp+
  then have "py_strip ''google'' \<noteq> []" "py_strip ''gtok'' \<noteq> []" by simp_all
  from social_endpoint_answers [OF demo_users_ok this, of demo_web "\<lambda>u j. (''a'', ''r'')" "''!''" "''j''"]
  show ?thesis by (auto simp: given demo_web_info)
qed

text \<open>The loop cut after \<open>n\<close> queries.\<close>

fun unique_tries :: "nat \<Rightarrow> string list \<Rightarrow> string \<Rightarrow> nat \<Rightarrow> string \<Rightarrow> string option" where
  "unique_tries 0 names base counter username = None"
| "unique_tries (Suc n) names base counter username =
     (if username \<in> set names then unique_tries n names base (counter + 1) (suffixed base counter) else Some username)"

lemma unique_tries_loop:
  "card (taken_from names base counter) + (if username \<in> set names then 1 else 0) < n \<Longrightarrow>
     unique_tries n names base counter username = Some (unique_loop names base counter username)"
proof (induction n arbitrary: counter username)
  case (Suc n)
  then show ?case
    using taken_step [of names base counter] by (subst unique_loop.simps) (auto split: if_splits)
qed simp

lemma taken_bound: "card (taken_from names base n) + (if base \<in> set names then 1 else 0) \<le> length names"
proof -
  let ?taken = "suffixed base ` taken_from names base n" and ?own = "if base \<in> set names then {base} else {}"
  have "card (taken_from names base n) = card ?taken" by (simp add: card_image inj_on_def)
  moreover have "?taken \<inter> ?own = {}" by (auto simp: suffixed_def)
  moreover have "finite ?taken" by (simp add: taken_finite)
  ultimately have "card (taken_from names base n) + (if base \<in> set names then 1 else 0) = card (?taken \<union> ?own)"
    by (simp add: card_Un_disjoint)
  also have "\<dots> \<le> card (set names)" by (intro card_mono) (auto simp: taken_from_def)
  also have "\<dots> \<le> length names" by (rule card_length)
  finally show ?thesis .
qed

lemma suffix_bound:
  assumes "insert base (suffixed base ` {1..<k}) \<subseteq> set names"
  shows "k \<le> length names"
proof -
  have "base \<notin> suffixed base ` {1..<k}" by (auto simp: suffixed_def)
  then have "card (insert base (suffixed base ` {1..<k})) = Suc (k - 1)" by (simp add: card_image inj_on_def)
  moreover have "card (insert base (suffixed base ` {1..<k})) \<le> length names"
    using card_mono [OF _ assms] card_length [of names] by simp
  ultimately show ?thesis by simp
qed

lemma length_str_nat: "0 < d \<Longrightarrow> n < 10 ^ d \<Longrightarrow> length (str_nat n) \<le> d"
proof (induction n arbitrary: d rule: str_nat.induct)
  case (1 n)
  show ?case
  proof (cases "n < 10")
    case False
    with "1.prems" obtain d' where d: "d = Suc d'" "0 < d'" by (cases d; cases "d - 1") auto
    with "1.prems" have "n div 10 < 10 ^ d'" by (simp add: less_mult_imp_div_less mult.commute)
    with 1(1) [OF False d(2)] False d show ?thesis by (simp add: str_nat.simps [of n])
  qed (use 1 in \<open>simp add: str_nat.simps [of n]\<close>)
qed

text \<open>C36. The search for a free username ends: with \<open>n\<close> accounts at most \<open>n + 1\<close> existence queries are made, the
  name returned is free, and it is the base or the base with the least number whose predecessors are all
  taken, a number that is at most \<open>n\<close>.\<close>

theorem unique_username_terminates:
  "unique_tries (length (users s) + 1) (map us_username (users s)) base 1 base = Some (unique_username base s) \<and>
   unique_username base s \<notin> us_username ` set (users s) \<and>
   (unique_username base s = base \<or>
    (\<exists>k. 1 \<le> k \<and> k \<le> length (users s) \<and> unique_username base s = suffixed base k \<and>
       insert base (suffixed base ` {1..<k}) \<subseteq> us_username ` set (users s)))"
proof (intro conjI)
  let ?names = "map us_username (users s)"
  show "unique_tries (length (users s) + 1) ?names base 1 base = Some (unique_username base s)"
    using taken_bound [of ?names base 1] unfolding unique_username_def by (intro unique_tries_loop) simp
  show "unique_username base s \<notin> us_username ` set (users s)" by (rule unique_username_free)
  show "unique_username base s = base \<or>
    (\<exists>k. 1 \<le> k \<and> k \<le> length (users s) \<and> unique_username base s = suffixed base k \<and>
       insert base (suffixed base ` {1..<k}) \<subseteq> us_username ` set (users s))"
    using unique_loop_spec [of ?names base 1 base]
  proof (elim conjE disjE exE)
    fix k assume k: "base \<in> set ?names" "1 \<le> k" "unique_loop ?names base 1 base = suffixed base k"
      "\<forall>j. 1 \<le> j \<and> j < k \<longrightarrow> suffixed base j \<in> set ?names"
    then have taken: "insert base (suffixed base ` {1..<k}) \<subseteq> set ?names" by auto
    with suffix_bound [OF taken] k show ?thesis
      by (intro disjI2 exI [of _ k]) (simp add: unique_username_def)
  qed (simp add: unique_username_def)
qed

text \<open>The username of an account created by a social login fits: whatever the provider answers it consists of
  letters, digits and underscores, it is not empty, and it has at most 150 characters, the width of the column,
  as long as there are fewer than \<open>10 ^ 119\<close> accounts.\<close>

theorem social_username_fits:
  assumes "social_info web provider token = Inr info" and "length (users s) < 10 ^ 119"
  shows "length (unique_username (si_username info) s) \<le> 150 \<and> unique_username (si_username info) s \<noteq> [] \<and>
    (\<forall>c\<in>set (unique_username (si_username info) s). word_char c)"
proof -
  let ?base = "si_username info"
  have base: "length ?base \<le> 30" "?base \<noteq> []" "\<forall>c\<in>set ?base. word_char c"
    using social_info_Inr [OF assms(1)] by (auto simp: info_ok_def)
  have digits: "word_char c" if "c \<in> set (str_nat k)" for c k
    using str_nat_digits [OF that] by (simp add: word_char_def)
  consider (own) "unique_username ?base s = ?base"
    | (numbered) k where "k \<le> length (users s)" "unique_username ?base s = suffixed ?base k"
    using unique_loop_spec [of "map us_username (users s)" ?base 1 ?base] suffix_bound [of ?base _ "map us_username (users s)"]
    unfolding unique_username_def by fastforce
  then show ?thesis
  proof cases
    case numbered
    with assms(2) have "length (str_nat k) \<le> 119" by (intro length_str_nat) auto
    with numbered base digits show ?thesis by (auto simp: suffixed_def word_char_def)
  qed (use base in simp)
qed

theorem social_username_fits_witness:
  "length (unique_username ''bob_acme_test'' demo_db) \<le> 150 \<and> unique_username ''bob_acme_test'' demo_db \<noteq> []"
proof -
  have "length (users demo_db) < 10 ^ 119" by (simp add: demo_db_def)
  from social_username_fits [OF demo_web_info(1) this] show ?thesis by simp
qed

end
