(* ===== verification/Password_Reset.thy ===== *)
theory Password_Reset
  imports Users
begin

text \<open>
  \<open>services/auth/password_reset_service.py\<close> and the registration and reset endpoints of
  \<open>apps/authentication/views.py\<close>. Parameters, with Django's documented behaviour as named
  hypotheses where a property needs it: the coding of a primary key in a link (\<open>encode_uid\<close>,
  \<open>decode_uid\<close>; \<open>None\<close> for a text that is malformed or no key), the signed tokens
  (\<open>make_token\<close>, \<open>check_token\<close>), password hash and validators, the serializers' field checks,
  template rendering.
\<close>

subsection \<open>PasswordResetService\<close>

definition user_from_uid :: "(string \<Rightarrow> pk option) \<Rightarrow> string \<Rightarrow> db \<Rightarrow> exn + user" where
  "user_from_uid decode_uid uid s =
     (case (case decode_uid uid of
              None \<Rightarrow> Inl (PyValueError uid)
            | Some p \<Rightarrow> qs_get (\<lambda>u. us_pk u = p) (users s)) of
        Inr u \<Rightarrow> Inr u
      | Inl e \<Rightarrow>
          Inl (case e of
                 DoesNotExist \<Rightarrow> ValidationServiceError ''Invalid or malformed reset link.''
               | PyValueError _ \<Rightarrow> ValidationServiceError ''Invalid or malformed reset link.''
               | _ \<Rightarrow> e))"

definition reset_link :: "string \<Rightarrow> string \<Rightarrow> string \<Rightarrow> string" where
  "reset_link frontend_url uid token =
     rstrip_by (\<lambda>c. c = CHR ''/'') frontend_url @ ''/reset-password/?uid='' @ uid @ ''&token='' @ token"

text \<open>\<open>timeout\<close> is \<open>settings.PASSWORD_RESET_TIMEOUT\<close>, in seconds.\<close>

definition request_reset ::
  "(pk \<Rightarrow> string) \<Rightarrow> (instant \<Rightarrow> user \<Rightarrow> string) \<Rightarrow> string \<Rightarrow> int \<Rightarrow> instant \<Rightarrow> string \<Rightarrow> (db, unit) op" where
  "request_reset encode_uid make_token frontend_url timeout now email s =
     (case qs_get (\<lambda>u. us_email u = py_lower (py_strip email)) (users s) of
        Inl e \<Rightarrow> if e = DoesNotExist then (Inr (), s) else (Inl e, s)
      | Inr u \<Rightarrow>
          (let uid = encode_uid (us_pk u); token = make_token now u
           in delay (Send_password_reset_email (us_email u) (str_or (full_name u) (us_username u))
                (reset_link frontend_url uid token) uid token (timeout div 3600)) s))"

definition confirm_reset ::
  "(string \<Rightarrow> pk option) \<Rightarrow> (instant \<Rightarrow> user \<Rightarrow> string \<Rightarrow> bool) \<Rightarrow> (string \<Rightarrow> user \<Rightarrow> string list) \<Rightarrow>
   (string \<Rightarrow> string) \<Rightarrow> instant \<Rightarrow> string \<Rightarrow> string \<Rightarrow> string \<Rightarrow> (db, unit) op" where
  "confirm_reset decode_uid check_token password_errors make_password now uid token new_password s =
     (case user_from_uid decode_uid uid s of
        Inl e \<Rightarrow> (Inl e, s)
      | Inr u \<Rightarrow>
          if \<not> check_token now u token
          then (Inl (ValidationServiceError ''This password-reset link is invalid or has already been used.''), s)
          else if password_errors new_password u \<noteq> []
          then (Inl (ValidationServiceError (join ''; '' (password_errors new_password u))), s)
          else (Inr (), s\<lparr>users := qs_update (\<lambda>x. us_pk x = us_pk u)
                     (\<lambda>x. x\<lparr>us_password := make_password new_password\<rparr>) (users s)\<rparr>))"

subsection \<open>Endpoints\<close>

definition RegisterView_post ::
  "(create_user_input \<Rightarrow> bool) \<Rightarrow> (string \<Rightarrow> string \<Rightarrow> string \<Rightarrow> string list) \<Rightarrow> (string \<Rightarrow> string) \<Rightarrow>
   (user \<Rightarrow> string list) \<Rightarrow> instant \<Rightarrow> request \<Rightarrow> create_user_input \<Rightarrow> db \<Rightarrow> user_data response \<times> db" where
  "RegisterView_post valid_input password_errors make_password clean_errors now rq data s =
     (if \<not> valid_input data then (Detail 400 ''invalid input'', s)
      else case create_user password_errors make_password clean_errors data s of
             (Inr u, s1) \<Rightarrow>
               (Response 201 (UserSerializer u),
                AuditService_log now ''user_registered'' (Some rq) None None ''User'' (str_nat (us_pk u))
                  [(''username'', us_username u)] s1)
           | (Inl e, s1) \<Rightarrow>
               (case e of
                  ValidationServiceError m \<Rightarrow> Detail 400 m
                | ConflictServiceError m \<Rightarrow> Detail 409 m
                | _ \<Rightarrow> Uncaught e, s1))"

definition PasswordResetRequestView_post ::
  "(string \<Rightarrow> bool) \<Rightarrow> (pk \<Rightarrow> string) \<Rightarrow> (instant \<Rightarrow> user \<Rightarrow> string) \<Rightarrow> string \<Rightarrow> int \<Rightarrow> instant \<Rightarrow> request \<Rightarrow>
   string \<Rightarrow> db \<Rightarrow> string response \<times> db" where
  "PasswordResetRequestView_post valid_email encode_uid make_token frontend_url timeout now rq email s =
     (if \<not> valid_email email then (Detail 400 ''invalid input'', s)
      else case request_reset encode_uid make_token frontend_url timeout now email s of
             (Inl e, s1) \<Rightarrow> (Uncaught e, s1)
           | (Inr _, s1) \<Rightarrow>
               (Response 200 ''If that email is registered, a reset link has been sent.'',
                AuditService_log now ''password_reset_requested'' (Some rq) None None [] []
                  [(''email'', email)] s1))"

definition PasswordResetConfirmView_post ::
  "(string \<Rightarrow> bool) \<Rightarrow> (string \<Rightarrow> pk option) \<Rightarrow> (instant \<Rightarrow> user \<Rightarrow> string \<Rightarrow> bool) \<Rightarrow>
   (string \<Rightarrow> user \<Rightarrow> string list) \<Rightarrow> (string \<Rightarrow> string) \<Rightarrow> instant \<Rightarrow> string \<Rightarrow> string \<Rightarrow> string \<Rightarrow> db \<Rightarrow>
   string response \<times> db" where
  "PasswordResetConfirmView_post valid_input decode_uid check_token password_errors make_password now
       uid token new_password s =
     (if \<not> (valid_input uid \<and> valid_input token \<and> valid_input new_password \<and> 8 \<le> length new_password)
      then (Detail 400 ''invalid input'', s)
      else case confirm_reset decode_uid check_token password_errors make_password now uid token new_password s of
             (Inr _, s1) \<Rightarrow> (Response 200 ''Password reset successful.'', s1)
           | (Inl e, s1) \<Rightarrow>
               (case e of ValidationServiceError m \<Rightarrow> Detail 400 m | _ \<Rightarrow> Uncaught e, s1))"

definition send_password_reset_email ::
  "(string \<Rightarrow> (string \<times> string) list \<Rightarrow> int \<Rightarrow> string) \<Rightarrow> (mail \<Rightarrow> bool) \<Rightarrow> string \<Rightarrow> string \<Rightarrow> string \<Rightarrow> string \<Rightarrow>
   string \<Rightarrow> int \<Rightarrow> (mail list, string) op" where
  "send_password_reset_email render accepts recipient_email user_name link uid token hours_valid =
     with_retries 3 (\<lambda>outbox.
       case send_mail accepts
              \<lparr>ml_to = [recipient_email], ml_subject = ''Password Reset Request'',
               ml_body = render ''emails/password_reset.txt''
                 [(''user_name'', user_name), (''reset_link'', link), (''uid'', uid), (''token'', token)]
                 hours_valid\<rparr>
              (''password_reset_email:sent:'' @ recipient_email) of
         (r, sent) \<Rightarrow> (r, outbox @ sent))"

subsection \<open>Lemmas\<close>

lemma user_from_uid_cases [consumes 2, case_names unknown known]:
  assumes "users_ok s" and "user_from_uid decode_uid uid s = r"
    and "r = Inl (ValidationServiceError ''Invalid or malformed reset link.'') \<Longrightarrow> P"
    and "\<And>u. r = Inr u \<Longrightarrow> decode_uid uid = Some (us_pk u) \<Longrightarrow> user_of s (us_pk u) = Some u \<Longrightarrow> P"
  shows P
proof (cases "decode_uid uid")
  case None
  with assms(2,3) show ?thesis by (simp add: user_from_uid_def)
next
  case (Some p)
  have ok: "tbl_ok us_pk (users s)" using assms(1) by (simp add: users_ok_def)
  have lookup: "user_of s p = tbl_lookup us_pk (users s) p" by (simp add: user_of_def tbl_lookup_def)
  show ?thesis
  proof (cases "tbl_lookup us_pk (users s) p")
    case None
    with Some ok assms(2,3) show ?thesis by (simp add: user_from_uid_def qs_get_tbl_lookup)
  next
    case (Some u)
    with ok have "us_pk u = p" by (simp add: tbl_lookup_Some)
    with Some ok lookup \<open>decode_uid uid = Some p\<close> assms(2) show ?thesis
      by (intro assms(4) [of u]) (simp_all add: user_from_uid_def qs_get_tbl_lookup)
  qed
qed

lemma users_by_email:
  assumes "users_ok s"
  shows "(qs_get (\<lambda>u. us_email u = e) (users s) = Inl DoesNotExist \<and> e \<notin> us_email ` set (users s)) \<or>
    (\<exists>u\<in>set (users s). us_email u = e \<and> qs_get (\<lambda>u. us_email u = e) (users s) = Inr u)"
proof -
  have ok: "tbl_ok us_email (users s)" using assms by (simp add: users_ok_def)
  show ?thesis
  proof (cases "tbl_lookup us_email (users s) e")
    case None
    then have "e \<notin> us_email ` set (users s)" by (simp add: tbl_lookup_None)
    with None ok show ?thesis by (simp add: qs_get_tbl_lookup)
  next
    case (Some u)
    then have "u \<in> set (users s)" "us_email u = e" using ok by (simp_all add: tbl_lookup_Some)
    with Some ok show ?thesis by (auto simp: qs_get_tbl_lookup)
  qed
qed

lemma user_of_set_password:
  assumes "user_of s p = Some u"
  shows "user_of (s\<lparr>users := qs_update (\<lambda>x. us_pk x = p) (\<lambda>x. x\<lparr>us_password := h\<rparr>) (users s)\<rparr>) p =
    Some (u\<lparr>us_password := h\<rparr>)"
proof -
  have "us_pk u = p" using assms by (auto simp: user_of_def find_Some_iff)
  with assms show ?thesis
    by (simp add: user_of_def tbl_lookup_update [unfolded tbl_lookup_def])
qed

lemma users_ok_set_password:
  "users_ok s \<Longrightarrow> users_ok (s\<lparr>users := qs_update (\<lambda>x. us_pk x = p) (\<lambda>x. x\<lparr>us_password := h\<rparr>) (users s)\<rparr>)"
  by (auto simp: users_ok_def intro!: tbl_ok_update)

subsection \<open>Properties\<close>

text \<open>A reset request says nothing about who has an account, as long as the queue works: the answer
  is the same whether or not the address is registered; exactly one mail is queued for a registered one,
  to the stored address of that account with a link built from its key and a token made for it, and none
  otherwise; no user changes. With the broker down the registered addresses answer 500 and the others 200.\<close>

theorem reset_request_hides_accounts:
  assumes ok: "users_ok s" and valid: "valid_email email"
    and run: "PasswordResetRequestView_post valid_email enc mk_token url timeout now rq email s = (resp, s')"
  shows "resp = (if strip_lower email \<in> us_email ` set (users s) \<and> \<not> broker_up s then Uncaught BrokerError
       else Response 200 ''If that email is registered, a reset link has been sent.'') \<and>
    users s' = users s \<and>
    (if strip_lower email \<in> us_email ` set (users s) \<and> broker_up s
     then \<exists>u\<in>set (users s). us_email u = strip_lower email \<and>
       queue s' = queue s @ [Send_password_reset_email (us_email u) (str_or (full_name u) (us_username u))
         (reset_link url (enc (us_pk u)) (mk_token now u)) (enc (us_pk u)) (mk_token now u) (timeout div 3600)]
     else queue s' = queue s)"
  using users_by_email [OF ok, of "strip_lower email"]
proof (elim disjE conjE bexE)
  assume "qs_get (\<lambda>u. us_email u = strip_lower email) (users s) = Inl DoesNotExist"
    and "strip_lower email \<notin> us_email ` set (users s)"
  with run valid show ?thesis
    by (auto simp: PasswordResetRequestView_post_def request_reset_def strip_lower_def [symmetric])
next
  fix u assume u: "u \<in> set (users s)" "us_email u = strip_lower email"
    and get: "qs_get (\<lambda>u. us_email u = strip_lower email) (users s) = Inr u"
  then have "strip_lower email \<in> us_email ` set (users s)" by (metis imageI)
  with run valid u get show ?thesis
    by (auto simp: PasswordResetRequestView_post_def request_reset_def strip_lower_def [symmetric]
        delay_def Let_def split: if_splits)
qed

lemma bob_mail_normal: "strip_lower ''Bob@acme.test '' = ''bob@acme.test''"
  by code_simp

theorem reset_request_hides_accounts_witness:
  "\<exists>m s'. PasswordResetRequestView_post (\<lambda>_. True) str_nat (\<lambda>_ _. ''tok'') ''https://app/'' 7200 5 demo_request
     ''Bob@acme.test '' demo_db = (Response 200 m, s') \<and>
     queue s' = [Send_password_reset_email ''bob@acme.test'' (str_or (full_name bob) ''bob'')
       (reset_link ''https://app/'' (str_nat 2) ''tok'') (str_nat 2) ''tok'' 2]"
proof -
  obtain resp s' where run: "PasswordResetRequestView_post (\<lambda>_. True) str_nat (\<lambda>_ _. ''tok'') ''https://app/'' 7200 5
      demo_request ''Bob@acme.test '' demo_db = (resp, s')"
    by (cases "PasswordResetRequestView_post (\<lambda>_. True) str_nat (\<lambda>_ _. ''tok'') ''https://app/'' 7200 5
      demo_request ''Bob@acme.test '' demo_db")
  from reset_request_hides_accounts [OF demo_users_ok _ run] run show ?thesis
    by (auto simp: bob_mail_normal)
qed

text \<open>C17. Confirming a reset. It raises a validation error with nothing changed, or replaces the password
  of exactly the account the link names, whose token it checked, and nothing else. After that every
  token that account had been issued before is refused, the used one included, at any time and in
  whatever spelling of the link. The hypotheses are Django's: a token is signed over the stored
  password, so it does not verify against another one, and a new salt gives another hash.\<close>

theorem confirm_reset_correct:
  assumes ok: "users_ok s"
    and signed: "\<And>t v tok h t'. check_token t v tok \<Longrightarrow> h \<noteq> us_password v \<Longrightarrow>
      \<not> check_token t' (v\<lparr>us_password := h\<rparr>) tok"
    and salted: "\<And>v. v \<in> set (users s) \<Longrightarrow> mk pw \<noteq> us_password v"
    and run: "confirm_reset dec check_token pe mk now uid tok pw s = (r, s')"
  shows "(s' = s \<and> (\<exists>m. r = Inl (ValidationServiceError m))) \<or>
    (r = Inr () \<and> (\<exists>u. dec uid = Some (us_pk u) \<and> user_of s (us_pk u) = Some u \<and> check_token now u tok \<and>
       pe pw u = [] \<and> users_ok s' \<and>
       s' = s\<lparr>users := map (\<lambda>x. if us_pk x = us_pk u then x\<lparr>us_password := mk pw\<rparr> else x) (users s)\<rparr> \<and>
       (\<forall>uid' tok' issued later pw'. dec uid' = Some (us_pk u) \<and> check_token issued u tok' \<longrightarrow>
          (\<exists>m. confirm_reset dec check_token pe mk later uid' tok' pw' s' = (Inl (ValidationServiceError m), s')))))"
proof -
  show ?thesis
    using ok refl
  proof (cases rule: user_from_uid_cases [where r = "user_from_uid dec uid s" and decode_uid = dec and uid = uid])
    case unknown
    with run show ?thesis by (auto simp: confirm_reset_def)
  next
    case (known u)
    show ?thesis
    proof (cases "check_token now u tok \<and> pe pw u = []")
      case False
      with known run show ?thesis by (auto simp: confirm_reset_def split: if_splits)
    next
      case True
      let ?s = "s\<lparr>users := qs_update (\<lambda>x. us_pk x = us_pk u) (\<lambda>x. x\<lparr>us_password := mk pw\<rparr>) (users s)\<rparr>"
      have s': "r = Inr ()" "s' = ?s" using True known run by (auto simp: confirm_reset_def)
      have u: "u \<in> set (users s)" using known(3) by (auto simp: user_of_def find_Some_iff)
      have new: "user_of ?s (us_pk u) = Some (u\<lparr>us_password := mk pw\<rparr>)"
        by (rule user_of_set_password [OF known(3)])
      have ok': "users_ok ?s" using ok by (rule users_ok_set_password)
      have "\<exists>m. confirm_reset dec check_token pe mk later uid' tok' pw' ?s = (Inl (ValidationServiceError m), ?s)"
        if "dec uid' = Some (us_pk u)" "check_token issued u tok'" for uid' tok' issued later pw'
        using ok' refl
      proof (cases rule: user_from_uid_cases [where r = "user_from_uid dec uid' ?s" and decode_uid = dec and uid = uid'])
        case unknown
        then show ?thesis by (simp add: confirm_reset_def)
      next
        case (known v)
        with that(1) new have "v = u\<lparr>us_password := mk pw\<rparr>" by simp
        with signed [OF that(2) salted [OF u], of later] known(1) show ?thesis by (simp add: confirm_reset_def)
      qed
      with True known(2,3) s' ok' show ?thesis
        by (intro disjI2 conjI exI [of _ u]) (auto simp: qs_update_def)
    qed
  qed
qed

text \<open>A token scheme of the documented kind: the token is the stored password.\<close>

theorem confirm_reset_correct_witness:
  "\<exists>s'. confirm_reset (\<lambda>uid. if uid = ''Mg'' then Some 2 else None) (\<lambda>_ u tok. tok = us_password u) (\<lambda>_ _. [])
     (\<lambda>p. ''hash:'' @ p) 5 ''Mg'' ''pw2'' ''new-secret'' demo_db = (Inr (), s') \<and>
   (\<exists>m. confirm_reset (\<lambda>uid. if uid = ''Mg'' then Some 2 else None) (\<lambda>_ u tok. tok = us_password u) (\<lambda>_ _. [])
     (\<lambda>p. ''hash:'' @ p) 6 ''Mg'' ''pw2'' ''other-secret'' s' = (Inl (ValidationServiceError m), s'))"
proof -
  let ?dec = "\<lambda>uid. if uid = ''Mg'' then Some 2 else None" and ?check = "\<lambda>_ u tok. tok = us_password u"
  obtain r s' where run: "confirm_reset ?dec ?check (\<lambda>_ _. []) (\<lambda>p. ''hash:'' @ p) 5 ''Mg'' ''pw2'' ''new-secret''
      demo_db = (r, s')"
    by (cases "confirm_reset ?dec ?check (\<lambda>_ _. []) (\<lambda>p. ''hash:'' @ p) 5 ''Mg'' ''pw2'' ''new-secret'' demo_db")
  then have "r = Inr ()"
    by (auto simp: confirm_reset_def user_from_uid_def qs_get_def)
  moreover from confirm_reset_correct [OF demo_users_ok _ _ run]
  have "r = Inr () \<Longrightarrow> \<exists>m. confirm_reset ?dec ?check (\<lambda>_ _. []) (\<lambda>p. ''hash:'' @ p) 6 ''Mg'' ''pw2'' ''other-secret'' s' =
      (Inl (ValidationServiceError m), s')"
    by (force simp: user_of_def)
  ultimately show ?thesis using run by blast
qed

end
