(* ===== verification/Notifications.thy ===== *)
theory Notifications
  imports Users
begin

text \<open>
  \<open>services/notifications/notification_service.py\<close> and \<open>apps/notifications/\<close>: creating, listing
  and reading notifications, the two endpoints, the WebSocket consumer and the mail task. The
  channel layer is a parameter: its state \<open>'l\<close>, \<open>gadd\<close> and \<open>gdiscard\<close> (\<open>group_add\<close>,
  \<open>group_discard\<close>), \<open>gsend\<close> (\<open>group_send\<close>, whether it succeeded, and the layer it left) and, where
  a property needs them, its documented laws as hypotheses. Paging is a parameter too.
\<close>

subsection \<open>NotificationService\<close>

definition notification_group :: "pk \<Rightarrow> string" where
  "notification_group user_pk = ''notifications_'' @ str_nat user_pk"

text \<open>The row is stored first; \<open>layer = None\<close> is a process without a channel layer, and a failing
  broadcast is swallowed.\<close>

definition create_notification ::
  "(string \<Rightarrow> notification \<Rightarrow> 'l \<Rightarrow> bool \<times> 'l) \<Rightarrow> instant \<Rightarrow> uuid \<Rightarrow> user \<Rightarrow> string \<Rightarrow> string \<Rightarrow>
   (db \<times> 'l option, notification) op" where
  "create_notification gsend now new_id u title body = (\<lambda>(s, layer).
     (let n = \<lparr>nt_id = new_id, nt_user = us_pk u, nt_title = title, nt_body = body,
               nt_is_read = False, nt_created_at = now\<rparr>
      in (Inr n, (s\<lparr>notifications := notifications s @ [n]\<rparr>,
            map_option (\<lambda>l. snd (gsend (notification_group (us_pk u)) n l)) layer))))"

definition mark_read :: "uuid \<Rightarrow> user \<Rightarrow> (db, notification) op" where
  "mark_read notification_id u s =
     (case qs_get (\<lambda>n. nt_id n = notification_id \<and> nt_user n = us_pk u) (notifications s) of
        Inl e \<Rightarrow>
          (Inl (if e = DoesNotExist
                then ValidationServiceError (''Notification '' @ notification_id @ '' not found.'') else e), s)
      | Inr n \<Rightarrow>
          if nt_is_read n then (Inr n, s)
          else (Inr (n\<lparr>nt_is_read := True\<rparr>),
                s\<lparr>notifications := qs_update (\<lambda>x. nt_id x = nt_id n) (\<lambda>x. x\<lparr>nt_is_read := True\<rparr>) (notifications s)\<rparr>))"

text \<open>\<open>Meta.ordering\<close> is newest first.\<close>

definition list_unread :: "user \<Rightarrow> db \<Rightarrow> notification list" where
  "list_unread u s = sort_key (\<lambda>n. - nt_created_at n)
     (filter (\<lambda>n. nt_user n = us_pk u \<and> \<not> nt_is_read n) (notifications s))"

definition list_all_notifications :: "user \<Rightarrow> db \<Rightarrow> notification list" where
  "list_all_notifications u s = sort_key (\<lambda>n. - nt_created_at n)
     (filter (\<lambda>n. nt_user n = us_pk u) (notifications s))"

subsection \<open>Endpoints\<close>

definition NotificationListView_get ::
  "(notification list \<Rightarrow> notification list) \<Rightarrow> string option \<Rightarrow> request \<Rightarrow> db \<Rightarrow> notification list response \<times> db" where
  "NotificationListView_get paginate unread_param rq s =
     (case rq_user rq of
        None \<Rightarrow> (Detail 401 [], s)
      | Some u \<Rightarrow>
          (let unread_only =
                 (py_lower (case unread_param of Some v \<Rightarrow> v | None \<Rightarrow> []) = ''true'')
           in (Response 200 (paginate (if unread_only then list_unread u s else list_all_notifications u s)), s)))"

definition MarkNotificationReadView_patch ::
  "request \<Rightarrow> uuid \<Rightarrow> db \<Rightarrow> notification response \<times> db" where
  "MarkNotificationReadView_patch rq notification_id s =
     (case rq_user rq of
        None \<Rightarrow> (Detail 401 [], s)
      | Some u \<Rightarrow>
          (case mark_read notification_id u s of
             (Inl e, s1) \<Rightarrow>
               (case e of ValidationServiceError m \<Rightarrow> Detail 404 m | _ \<Rightarrow> Uncaught e, s1)
           | (Inr n, s1) \<Rightarrow> (Response 200 n, s1)))"

subsection \<open>The WebSocket consumer\<close>

text \<open>\<open>sockets\<close> holds the \<open>group_name\<close> attribute of each consumer, by its channel name.\<close>

datatype accept_result = Accepted | Closed nat

record 'l hub =
  sockets :: "string \<Rightarrow> string option"
  channel_layer :: 'l

definition consumer_connect ::
  "(string \<Rightarrow> string \<Rightarrow> 'l \<Rightarrow> 'l) \<Rightarrow> string \<Rightarrow> user option \<Rightarrow> 'l hub \<Rightarrow> accept_result \<times> 'l hub" where
  "consumer_connect gadd channel_name scope_user h =
     (case scope_user of
        None \<Rightarrow> (Closed 4001, h)
      | Some u \<Rightarrow>
          (let group_name = notification_group (us_pk u)
           in (Accepted, h\<lparr>sockets := (sockets h)(channel_name \<mapsto> group_name),
                 channel_layer := gadd group_name channel_name (channel_layer h)\<rparr>)))"

definition consumer_disconnect ::
  "(string \<Rightarrow> string \<Rightarrow> 'l \<Rightarrow> 'l) \<Rightarrow> string \<Rightarrow> 'l hub \<Rightarrow> 'l hub" where
  "consumer_disconnect gdiscard channel_name h =
     (case sockets h channel_name of
        None \<Rightarrow> h
      | Some g \<Rightarrow> if g = [] then h else
          h\<lparr>channel_layer := gdiscard g channel_name (channel_layer h)\<rparr>)"

text \<open>The JSON object sent to the client.\<close>

definition notification_message :: "notification \<Rightarrow> (string \<times> string) list \<times> instant" where
  "notification_message event =
     ([(''id'', nt_id event), (''title'', nt_title event), (''body'', nt_body event)], nt_created_at event)"

subsection \<open>The mail task\<close>

definition notification_operation ::
  "(string \<Rightarrow> (string \<times> string) list \<Rightarrow> string) \<Rightarrow> (mail \<Rightarrow> bool) \<Rightarrow> string \<Rightarrow> uuid \<Rightarrow> db \<Rightarrow>
   (mail list, string option) op" where
  "notification_operation render accepts frontend_url notification_id s outbox =
     (case qs_get (\<lambda>n. nt_id n = notification_id) (notifications s) of
        Inl e \<Rightarrow>
          (if e = DoesNotExist then Inr (Some (''email_notification_skipped:'' @ notification_id)) else Inl e, outbox)
      | Inr n \<Rightarrow>
          (case user_of s (nt_user n) of
             None \<Rightarrow> (Inr (Some (''email_notification_skipped:'' @ notification_id)), outbox)
           | Some u \<Rightarrow>
               (case EmailService_send render accepts (nt_title n) [us_email u]
                       (Some ''emails/notification.html'') (Some ''emails/notification.txt'')
                       [(''user_name'', str_or (full_name u) (us_username u)), (''title'', nt_title n),
                        (''body'', nt_body n), (''frontend_url'', frontend_url)] of
                  (Inl e, ms) \<Rightarrow> (Inl e, outbox @ ms)
                | (Inr _, ms) \<Rightarrow> (Inr (Some (''email_notification_sent:'' @ notification_id)), outbox @ ms))))"

definition send_email_notification ::
  "(string \<Rightarrow> (string \<times> string) list \<Rightarrow> string) \<Rightarrow> (mail \<Rightarrow> bool) \<Rightarrow> string \<Rightarrow> instant \<Rightarrow> uuid \<Rightarrow> db \<Rightarrow>
   ((string, string) cache \<times> mail list, string option) op" where
  "send_email_notification render accepts frontend_url now notification_id s =
     with_retries TASK_MAX_RETRIES
       (idempotent_run now now DEFAULT_TTL_SECONDS (build_key ''send_email_notification'' notification_id)
          (notification_operation render accepts frontend_url notification_id s))"

subsection \<open>Lemmas\<close>

interpretation notification_tbl: keyed_table nt_id "tbl_lookup nt_id" "tbl_upsert nt_id"
  "tbl_remove nt_id" "tbl_ok nt_id"
  by (rule list_keyed_table)

lemma notification_group_inject [simp]: "notification_group p = notification_group q \<longleftrightarrow> p = q"
  by (simp add: notification_group_def)

lemma notification_group_not_Nil [simp]: "notification_group p \<noteq> []"
  by (simp add: notification_group_def)

lemma mark_read_cases [consumes 2, case_names missing found]:
  assumes ok: "tbl_ok nt_id (notifications s)" and run: "mark_read i u s = (r, s')"
    and missing: "(\<forall>n\<in>set (notifications s). nt_id n = i \<longrightarrow> nt_user n \<noteq> us_pk u) \<Longrightarrow>
      r = Inl (ValidationServiceError (''Notification '' @ i @ '' not found.'')) \<Longrightarrow> s' = s \<Longrightarrow> P"
    and found: "\<And>n. n \<in> set (notifications s) \<Longrightarrow> nt_id n = i \<Longrightarrow> nt_user n = us_pk u \<Longrightarrow>
      r = Inr (n\<lparr>nt_is_read := True\<rparr>) \<Longrightarrow>
      s' = s\<lparr>notifications := qs_update (\<lambda>x. nt_id x = i) (\<lambda>x. x\<lparr>nt_is_read := True\<rparr>) (notifications s)\<rparr> \<Longrightarrow> P"
  shows P
proof (cases "\<exists>n\<in>set (notifications s). nt_id n = i \<and> nt_user n = us_pk u")
  case False
  then have "qs_get (\<lambda>n. nt_id n = i \<and> nt_user n = us_pk u) (notifications s) = Inl DoesNotExist"
    by (auto simp: qs_get_DoesNotExist)
  with False run show ?thesis by (intro missing) (auto simp: mark_read_def)
next
  case True
  then obtain n where n: "n \<in> set (notifications s)" "nt_id n = i" "nt_user n = us_pk u" by blast
  have same: "x = n" if "x \<in> set (notifications s)" "nt_id x = i" for x
    using that n ok unfolding tbl_ok_def by (metis distinct_map inj_onD)
  have get: "qs_get (\<lambda>n. nt_id n = i \<and> nt_user n = us_pk u) (notifications s) = Inr n"
  proof (rule qs_get_unique_cases [where key = nt_id and t = "notifications s" and
        P = "\<lambda>n. nt_id n = i \<and> nt_user n = us_pk u", OF ok [unfolded tbl_ok_def]])
    show "qs_get (\<lambda>n. nt_id n = i \<and> nt_user n = us_pk u) (notifications s) = Inr n"
      if "\<forall>r\<in>set (notifications s). \<not> (nt_id r = i \<and> nt_user r = us_pk u)"
      using that n by blast
    show "qs_get (\<lambda>n. nt_id n = i \<and> nt_user n = us_pk u) (notifications s) = Inr n"
      if "qs_get (\<lambda>n. nt_id n = i \<and> nt_user n = us_pk u) (notifications s) = Inr r"
        "r \<in> set (notifications s)" "nt_id r = i \<and> nt_user r = us_pk u" for r
      using that same [of r] by simp
  qed simp
  show ?thesis
  proof (cases "nt_is_read n")
    case False
    with get n run show ?thesis by (intro found [of n]) (auto simp: mark_read_def)
  next
    case read: True
    have "qs_update (\<lambda>x. nt_id x = i) (\<lambda>x. x\<lparr>nt_is_read := True\<rparr>) (notifications s) = notifications s"
      unfolding qs_update_def by (rule map_idI) (use same read in auto)
    moreover have "n\<lparr>nt_is_read := True\<rparr> = n" using read by simp
    moreover have "r = Inr n" "s' = s" using get run read by (simp_all add: mark_read_def)
    ultimately show ?thesis using n by (intro found [of n]) simp_all
  qed
qed

text \<open>Who holds which channel, according to the history of connections.\<close>

datatype socket_event = Connect string "user option" | Disconnect string

fun socket_step ::
  "(string \<Rightarrow> string \<Rightarrow> 'l \<Rightarrow> 'l) \<Rightarrow> (string \<Rightarrow> string \<Rightarrow> 'l \<Rightarrow> 'l) \<Rightarrow> 'l hub \<Rightarrow> socket_event \<Rightarrow> 'l hub" where
  "socket_step gadd gdiscard h (Connect c u) = snd (consumer_connect gadd c u h)"
| "socket_step gadd gdiscard h (Disconnect c) = consumer_disconnect gdiscard c h"

fun holder :: "(string \<Rightarrow> pk option) \<Rightarrow> socket_event \<Rightarrow> string \<Rightarrow> pk option" where
  "holder who (Connect c (Some u)) = who(c \<mapsto> us_pk u)"
| "holder who (Connect c None) = who"
| "holder who (Disconnect c) = who(c := None)"

fun connects :: "socket_event \<Rightarrow> string option" where
  "connects (Connect c (Some u)) = Some c"
| "connects e = None"

text \<open>The layer's documented laws, and the invariant they give.\<close>

definition layer_laws ::
  "(string \<Rightarrow> string \<Rightarrow> 'l \<Rightarrow> 'l) \<Rightarrow> (string \<Rightarrow> string \<Rightarrow> 'l \<Rightarrow> 'l) \<Rightarrow> ('l \<Rightarrow> string \<Rightarrow> string \<Rightarrow> bool) \<Rightarrow> bool" where
  "layer_laws gadd gdiscard mem \<longleftrightarrow>
     (\<forall>g c l g' c'. mem (gadd g c l) g' c' \<longleftrightarrow> mem l g' c' \<or> (g' = g \<and> c' = c)) \<and>
     (\<forall>g c l g' c'. mem (gdiscard g c l) g' c' \<longleftrightarrow> mem l g' c' \<and> \<not> (g' = g \<and> c' = c))"

definition hub_inv :: "('l \<Rightarrow> string \<Rightarrow> string \<Rightarrow> bool) \<Rightarrow> 'l hub \<times> (string \<Rightarrow> pk option) \<Rightarrow> bool" where
  "hub_inv mem = (\<lambda>(h, who).
     (\<forall>g c. mem (channel_layer h) g c \<longleftrightarrow> (\<exists>p. who c = Some p \<and> g = notification_group p)) \<and>
     (\<forall>c p. who c = Some p \<longrightarrow> sockets h c = Some (notification_group p)) \<and>
     (\<forall>c g. sockets h c = Some g \<longrightarrow> g \<noteq> []))"

definition tracked_step ::
  "(string \<Rightarrow> string \<Rightarrow> 'l \<Rightarrow> 'l) \<Rightarrow> (string \<Rightarrow> string \<Rightarrow> 'l \<Rightarrow> 'l) \<Rightarrow> 'l hub \<times> (string \<Rightarrow> pk option) \<Rightarrow>
   socket_event \<Rightarrow> 'l hub \<times> (string \<Rightarrow> pk option)" where
  "tracked_step gadd gdiscard = (\<lambda>(h, who) e. (socket_step gadd gdiscard h e, holder who e))"

definition fresh_channel :: "'l hub \<times> (string \<Rightarrow> pk option) \<Rightarrow> socket_event \<Rightarrow> bool" where
  "fresh_channel = (\<lambda>(h, who) e. \<forall>c. connects e = Some c \<longrightarrow> sockets h c = None)"

lemma hub_inv_step:
  assumes laws: "layer_laws gadd gdiscard mem" and inv: "hub_inv mem s" and fresh: "fresh_channel s e"
  shows "hub_inv mem (tracked_step gadd gdiscard s e)"
proof -
  obtain h who where s: "s = (h, who)" by (cases s)
  have mem: "mem (channel_layer h) g c \<longleftrightarrow> (\<exists>p. who c = Some p \<and> g = notification_group p)" for g c
    using inv by (simp add: s hub_inv_def)
  have held: "sockets h c = Some (notification_group p)" if "who c = Some p" for c p
    using inv that by (simp add: s hub_inv_def)
  have ne: "g \<noteq> []" if "sockets h c = Some g" for c g
    using inv that by (auto simp: s hub_inv_def)
  have add: "mem (gadd g c l) g' c' \<longleftrightarrow> mem l g' c' \<or> (g' = g \<and> c' = c)"
    and discard: "mem (gdiscard g c l) g' c' \<longleftrightarrow> mem l g' c' \<and> \<not> (g' = g \<and> c' = c)" for g c l g' c'
    using laws by (simp_all add: layer_laws_def)
  show ?thesis
  proof (cases e)
    case (Connect c u)
    show ?thesis
    proof (cases u)
      case None
      with Connect inv show ?thesis by (simp add: s tracked_step_def consumer_connect_def)
    next
      case (Some v)
      have "who c = None"
        using held [of c] fresh Connect Some by (cases "who c") (auto simp: s fresh_channel_def)
      with Connect Some held ne show ?thesis
        by (auto simp: s tracked_step_def consumer_connect_def hub_inv_def Let_def add mem)
    qed
  next
    case (Disconnect c)
    show ?thesis
    proof (cases "sockets h c")
      case None
      then have "who c = None" using held [of c] by (cases "who c") auto
      with Disconnect None inv show ?thesis
        by (auto simp: s tracked_step_def consumer_disconnect_def hub_inv_def)
    next
      case (Some g)
      with Disconnect ne [OF Some] held show ?thesis
        by (auto simp: s tracked_step_def consumer_disconnect_def hub_inv_def discard mem ne)
    qed
  qed
qed

interpretation hub_machine: preserved "tracked_step gadd gdiscard" fresh_channel
  "\<lambda>s. layer_laws gadd gdiscard mem \<and> hub_inv mem s" for gadd gdiscard mem
  by unfold_locales (simp add: hub_inv_step)

lemma tracked_run:
  "foldl (tracked_step gadd gdiscard) (h, who) es =
     (foldl (socket_step gadd gdiscard) h es, foldl holder who es)"
  by (induction es arbitrary: h who) (simp_all add: tracked_step_def)

subsection \<open>Properties\<close>

text \<open>Reading notifications is confined to their owner. Marking one read finds it only among the
  caller's own; otherwise it raises a validation error with nothing changed. Found, exactly that row is
  set to read (it leaves the caller's unread list, the full list keeps its length), nobody else's lists
  change, and repeating the call changes nothing more.\<close>

theorem mark_read_correct:
  assumes ok: "tbl_ok nt_id (notifications s)" and run: "mark_read i u s = (r, s')"
  shows "((\<forall>n\<in>set (notifications s). nt_id n = i \<longrightarrow> nt_user n \<noteq> us_pk u) \<and> s' = s \<and>
      (\<exists>m. r = Inl (ValidationServiceError m))) \<or>
    (\<exists>n\<in>set (notifications s). nt_id n = i \<and> nt_user n = us_pk u \<and> r = Inr (n\<lparr>nt_is_read := True\<rparr>) \<and>
       tbl_ok nt_id (notifications s') \<and>
       set (list_unread u s') = set (list_unread u s) - {n} \<and>
       length (list_all_notifications u s') = length (list_all_notifications u s) \<and>
       (\<forall>v. us_pk v \<noteq> us_pk u \<longrightarrow> list_unread v s' = list_unread v s \<and>
          list_all_notifications v s' = list_all_notifications v s) \<and>
       mark_read i u s' = (r, s'))"
  using ok run
proof (cases rule: mark_read_cases)
  case missing
  then show ?thesis by blast
next
  case (found n)
  let ?f = "\<lambda>x. x\<lparr>nt_is_read := True\<rparr>" and ?t = "notifications s"
  have t': "notifications s' = qs_update (\<lambda>x. nt_id x = i) ?f ?t" using found(5) by simp
  have ok': "tbl_ok nt_id (notifications s')" unfolding t' using ok by (rule tbl_ok_update) simp
  have only: "x = n" if "x \<in> set ?t" "nt_id x = i" for x
    using that found ok unfolding tbl_ok_def by (metis distinct_map inj_onD)
  have other: "filter (\<lambda>x. nt_user x = q \<and> P x) (qs_update (\<lambda>x. nt_id x = i) ?f ?t) =
      filter (\<lambda>x. nt_user x = q \<and> P x) ?t" if "q \<noteq> us_pk u" for q and P :: "notification \<Rightarrow> bool"
  proof (rule filter_qs_update_other)
  qed (use that only found in auto)
  have others: "list_unread v s' = list_unread v s \<and> list_all_notifications v s' = list_all_notifications v s"
    if "us_pk v \<noteq> us_pk u" for v
    using other [OF that, of "\<lambda>x. \<not> nt_is_read x"] other [OF that, of "\<lambda>_. True"]
    by (simp add: list_unread_def list_all_notifications_def t')
  have "length (filter (\<lambda>x. nt_user x = us_pk u) (notifications s')) = length (filter (\<lambda>x. nt_user x = us_pk u) ?t)"
  proof -
    have "(\<lambda>x :: notification. nt_user x = us_pk u) \<circ> (\<lambda>x. if nt_id x = i then ?f x else x) = (\<lambda>x. nt_user x = us_pk u)"
      by (simp add: fun_eq_iff)
    then show ?thesis unfolding t' qs_update_def by (simp add: filter_map)
  qed
  then have len: "length (list_all_notifications u s') = length (list_all_notifications u s)"
    by (simp add: list_all_notifications_def)
  have idn: "nt_id x = i \<longleftrightarrow> x = n" if "x \<in> set ?t" for x
    using only [OF that] found(2) by blast
  have "set (list_unread u s') = {x \<in> set ?t. nt_id x \<noteq> i \<and> nt_user x = us_pk u \<and> \<not> nt_is_read x}"
    by (auto simp: list_unread_def t' split: if_splits)
  also have "\<dots> = {x \<in> set ?t. nt_user x = us_pk u \<and> \<not> nt_is_read x} - {n}" using idn by blast
  also have "\<dots> = set (list_unread u s) - {n}" by (auto simp: list_unread_def)
  finally have "set (list_unread u s') = set (list_unread u s) - {n}" .
  moreover have "mark_read i u s' = (r, s')"
  proof -
    obtain r2 s2 where again: "mark_read i u s' = (r2, s2)" by (cases "mark_read i u s'")
    have n': "?f n \<in> set (notifications s')" using found(1,2) by (auto simp: t')
    from ok' again show ?thesis
    proof (cases rule: mark_read_cases)
      case missing
      with n' found(2,3) show ?thesis by auto
    next
      case (found m)
      have "nt_id (?f n) = nt_id m" using found(2) \<open>nt_id n = i\<close> by simp
      with found(1) n' ok' have m: "m = ?f n" unfolding tbl_ok_def by (metis distinct_map inj_onD)
      have "qs_update (\<lambda>x. nt_id x = i) ?f (notifications s') = notifications s'"
        by (simp add: t' qs_update_def)
      with found(4,5) m again \<open>r = Inr (?f n)\<close> show ?thesis by simp
    qed
  qed
  ultimately show ?thesis using found(1-4) ok' others len by blast
qed

definition note_for :: "uuid \<Rightarrow> pk \<Rightarrow> instant \<Rightarrow> notification" where
  "note_for i p now = \<lparr>nt_id = i, nt_user = p, nt_title = ''t'', nt_body = ''b'', nt_is_read = False, nt_created_at = now\<rparr>"

definition notes_db :: db where
  "notes_db = demo_db\<lparr>notifications := [note_for ''n1'' 2 1, note_for ''n2'' 1 2, note_for ''n3'' 2 3]\<rparr>"

lemma notes_db_simps [simp]:
  "notifications notes_db = [note_for ''n1'' 2 1, note_for ''n2'' 1 2, note_for ''n3'' 2 3]"
  "nt_id (note_for i p now) = i" "nt_user (note_for i p now) = p" "\<not> nt_is_read (note_for i p now)"
  by (simp_all add: notes_db_def note_for_def)

theorem mark_read_correct_witness:
  "\<exists>n s'. mark_read ''n1'' bob notes_db = (Inr n, s') \<and> set (list_unread bob s') = {note_for ''n3'' 2 3}"
proof -
  obtain r s' where run: "mark_read ''n1'' bob notes_db = (r, s')" by (cases "mark_read ''n1'' bob notes_db")
  have ok: "tbl_ok nt_id (notifications notes_db)" by (simp add: tbl_ok_def)
  have unread: "set (list_unread bob notes_db) = {note_for ''n1'' 2 1, note_for ''n3'' 2 3}"
    by (auto simp: list_unread_def)
  have "note_for ''n1'' 2 1 \<noteq> note_for ''n3'' 2 3" by (simp add: note_for_def)
  with mark_read_correct [OF ok run] run show ?thesis by (auto simp: unread)
qed

text \<open>C31. Real-time notifications reach their owner's sockets and no others. After any history of
  connections and disconnections in which every connection has its own channel name, the members of a
  user's group are exactly the channels that user connected and has not closed; anonymous sockets are
  closed with 4001 and join nothing. A new notification is stored unread whatever the broadcast does,
  and is broadcast to its recipient's group, once, when there is a channel layer. The hypothesis is the
  layer's documentation: adding to and discarding from a group change that membership only.\<close>

theorem sockets_get_own_notifications:
  assumes laws: "layer_laws gadd gdiscard mem" and empty: "\<And>g c. \<not> mem l0 g c"
    and h0: "h0 = \<lparr>sockets = Map.empty, channel_layer = l0\<rparr>"
    and fresh: "hub_machine.admitted gadd gdiscard (h0, Map.empty) es"
    and run: "h = foldl (socket_step gadd gdiscard) h0 es"
  shows "(\<forall>c. mem (channel_layer h) (notification_group (us_pk u)) c \<longleftrightarrow> foldl holder Map.empty es c = Some (us_pk u)) \<and>
    (\<forall>c. consumer_connect gadd c None h = (Closed 4001, h)) \<and>
    (\<exists>n. nt_user n = us_pk u \<and> \<not> nt_is_read n \<and>
       create_notification gsend now i u title body (s, Some (channel_layer h)) =
         (Inr n, (s\<lparr>notifications := notifications s @ [n]\<rparr>,
            Some (snd (gsend (notification_group (us_pk u)) n (channel_layer h))))) \<and>
       create_notification gsend now i u title body (s, None) =
         (Inr n, (s\<lparr>notifications := notifications s @ [n]\<rparr>, None)))"
proof -
  have "hub_inv mem (h0, Map.empty)" using empty by (simp add: hub_inv_def h0)
  with laws have "layer_laws gadd gdiscard mem \<and> hub_inv mem (h0, Map.empty)" by simp
  from hub_machine.inv_run [OF this fresh] have inv: "hub_inv mem (h, foldl holder Map.empty es)"
    by (simp add: tracked_run run)
  then have "mem (channel_layer h) (notification_group (us_pk u)) c \<longleftrightarrow> foldl holder Map.empty es c = Some (us_pk u)" for c
    by (simp add: hub_inv_def)
  then show ?thesis by (simp add: create_notification_def consumer_connect_def Let_def)
qed

theorem sockets_get_own_notifications_witness:
  "snd (create_notification (\<lambda>g n l. (True, insert (g, ''sent'') l)) 5 ''n'' bob ''t'' ''b''
     (demo_db, Some (channel_layer (foldl (socket_step (\<lambda>g c. insert (g, c)) (\<lambda>g c l. l - {(g, c)}))
        \<lparr>sockets = Map.empty, channel_layer = {}\<rparr> [Connect ''c1'' (Some bob), Connect ''c2'' None])))) =
   (demo_db\<lparr>notifications := [\<lparr>nt_id = ''n'', nt_user = 2, nt_title = ''t'', nt_body = ''b'', nt_is_read = False,
      nt_created_at = 5\<rparr>]\<rparr>, Some {(notification_group 2, ''c1''), (notification_group 2, ''sent'')})"
proof -
  have laws: "layer_laws (\<lambda>g c. insert (g, c)) (\<lambda>g c l. l - {(g, c)}) (\<lambda>l g c. (g, c) \<in> l)"
    by (auto simp: layer_laws_def)
  have fresh: "hub_machine.admitted (\<lambda>g c. insert (g, c)) (\<lambda>g c l. l - {(g, c)})
      (\<lparr>sockets = Map.empty, channel_layer = {}\<rparr>, Map.empty) [Connect ''c1'' (Some bob), Connect ''c2'' None]"
    unfolding hub_machine.admitted.simps by (simp add: fresh_channel_def tracked_step_def consumer_connect_def)
  from sockets_get_own_notifications [OF laws _ refl fresh refl, of bob "\<lambda>g n l. (True, insert (g, ''sent'') l)" 5 "''n''"
      "''t''" "''b''" demo_db]
  show ?thesis
    by (auto simp: create_notification_def consumer_connect_def Let_def)
qed

end
