(* ===== verification/Integrity.thy ===== *)
theory Integrity
  imports Tenancy Features Invitations Gdpr Two_Factor Social_Auth Password_Reset Notifications
begin

text \<open>
  The integrity of the whole database: every table is unique on its keys, every foreign key names an
  existing row, and the columns have the form the services give them. Every operation that writes
  keeps it, given the form of its arguments that its caller establishes: the rows it is handed exist,
  the identifiers it is handed are new.
\<close>

subsection \<open>Tables with a condition on their rows\<close>

definition table_ok :: "('r \<Rightarrow> 'k) \<Rightarrow> ('r \<Rightarrow> bool) \<Rightarrow> 'r list \<Rightarrow> bool" where
  "table_ok key P t \<longleftrightarrow> tbl_ok key t \<and> list_all P t"

lemma table_okD: "table_ok key P t \<Longrightarrow> r \<in> set t \<Longrightarrow> P r"
  by (simp add: table_ok_def list_all_iff)

lemma table_ok_Nil [simp]: "table_ok key P []"
  by (simp add: table_ok_def tbl_ok_def)

lemma table_ok_mono: "table_ok key P t \<Longrightarrow> (\<And>r. r \<in> set t \<Longrightarrow> P r \<Longrightarrow> Q r) \<Longrightarrow> table_ok key Q t"
  by (auto simp: table_ok_def list_all_iff)

lemma table_ok_snoc:
  "\<lbrakk>table_ok key P t; P r; \<forall>x\<in>set t. key x \<noteq> key r\<rbrakk> \<Longrightarrow> table_ok key P (t @ [r])"
  by (auto simp: table_ok_def tbl_ok_def)

lemma table_ok_update:
  assumes ok: "table_ok key P t"
    and f: "\<And>r. r \<in> set t \<Longrightarrow> P r \<Longrightarrow> Q r \<Longrightarrow> key (f r) = key r \<and> P (f r)"
  shows "table_ok key P (qs_update Q f t)"
  using assms by (auto simp: table_ok_def list_all_iff intro!: tbl_ok_update)

lemma table_ok_delete: "table_ok key P t \<Longrightarrow> table_ok key P (qs_delete Q t)"
  by (auto simp: table_ok_def list_all_iff tbl_ok_def distinct_map_delete)

lemma table_ok_map:
  assumes ok: "table_ok key P t" and f: "\<And>r. r \<in> set t \<Longrightarrow> P r \<Longrightarrow> key (f r) = key r \<and> Q (f r)"
  shows "table_ok key Q (map f t)"
proof -
  have "map (key \<circ> f) t = map key t" using assms by (auto simp: table_ok_def list_all_iff)
  then have "tbl_ok key (map f t)" using ok by (simp only: table_ok_def tbl_ok_def map_map)
  moreover have "list_all Q (map f t)" using assms by (auto simp: table_ok_def list_all_iff)
  ultimately show ?thesis by (simp only: table_ok_def)
qed

lemma table_ok_uoc:
  assumes ok: "table_ok key P t"
    and run: "update_or_create (\<lambda>r. key r = k) upd new t = (x, t')"
    and new: "key new = k" "P new"
    and upd: "\<And>r. P r \<Longrightarrow> key r = k \<Longrightarrow> key (upd r) = k \<and> P (upd r)"
  shows "table_ok key P t'"
proof -
  have "t' = t \<or> t' = qs_update (\<lambda>r. key r = k) upd t \<or> (t' = t @ [new] \<and> (\<forall>r\<in>set t. key r \<noteq> k))"
    using run by (auto simp: update_or_create_def qs_get_DoesNotExist split: sum.splits if_splits)
  then show ?thesis
    using assms by (auto intro: table_ok_snoc table_ok_update)
qed

lemma table_ok_goc:
  assumes ok: "table_ok key P t" and run: "get_or_create (\<lambda>r. key r = k) new t = (x, t')"
    and new: "key new = k" "P new"
  shows "table_ok key P t'"
proof -
  have "t' = t \<or> (t' = t @ [new] \<and> (\<forall>r\<in>set t. key r \<noteq> k))"
    using run by (auto simp: get_or_create_def qs_get_DoesNotExist split: sum.splits if_splits)
  then show ?thesis using assms by (auto intro: table_ok_snoc)
qed

subsection \<open>The invariant\<close>

definition user_pks :: "db \<Rightarrow> pk set" where "user_pks s = us_pk ` set (users s)"

definition tenant_ids :: "db \<Rightarrow> uuid set" where "tenant_ids s = tn_id ` set (tenants s)"

definition null_or_in :: "'a set \<Rightarrow> 'a option \<Rightarrow> bool" where
  "null_or_in A x \<longleftrightarrow> (case x of None \<Rightarrow> True | Some a \<Rightarrow> a \<in> A)"

text \<open>One condition per model: its foreign keys, and what the services guarantee of its columns.\<close>

definition user_row :: "user \<Rightarrow> bool" where
  "user_row u \<longleftrightarrow> strip_lower (us_email u) = us_email u"

definition profile_row :: "pk set \<Rightarrow> user_profile \<Rightarrow> bool" where
  "profile_row U p \<longleftrightarrow> pf_user p \<in> U \<and> length (pf_bio p) \<le> 500 \<and> length (pf_phone p) \<le> 32 \<and>
     length (pf_timezone p) \<le> 64"

definition role_row :: "pk set \<Rightarrow> uuid set \<Rightarrow> user_tenant_role \<Rightarrow> bool" where
  "role_row U T r \<longleftrightarrow> ur_user r \<in> U \<and> ur_tenant r \<in> T \<and> ur_role r \<in> set RoleChoices_values \<and>
     null_or_in U (ur_assigned_by r)"

definition invitation_refs :: "pk set \<Rightarrow> tenant_invitation \<Rightarrow> bool" where
  "invitation_refs U i \<longleftrightarrow> null_or_in U (iv_invited_by i) \<and> null_or_in U (iv_accepted_by i)"

definition subscription_refs :: "uuid set \<Rightarrow> plan list \<Rightarrow> subscription \<Rightarrow> bool" where
  "subscription_refs T ps sub \<longleftrightarrow> sb_tenant sub \<in> T \<and> null_or_in (pl_pk ` set ps) (sb_plan sub)"

definition audit_refs :: "pk set \<Rightarrow> uuid set \<Rightarrow> audit_log \<Rightarrow> bool" where
  "audit_refs U T a \<longleftrightarrow> null_or_in T (al_tenant a) \<and> null_or_in U (al_actor a)"

definition db_ok :: "db \<Rightarrow> bool" where
  "db_ok s \<longleftrightarrow>
     users_ok s \<and> list_all user_row (users s) \<and> tenancy_ok s \<and>
     table_ok pf_user (profile_row (user_pks s)) (profiles s) \<and>
     totps_ok s \<and> list_all (\<lambda>t. tp_user t \<in> user_pks s) (totps s) \<and>
     table_ok role_key (role_row (user_pks s) (tenant_ids s)) (roles s) \<and>
     invitations_ok s \<and> list_all (invitation_refs (user_pks s)) (invitations s) \<and>
     tbl_ok pl_pk (plans s) \<and>
     subs_ok s \<and> list_all (subscription_refs (tenant_ids s) (plans s)) (subscriptions s) \<and>
     tbl_ok we_stripe_event_id (webhook_events s) \<and>
     table_ok flag_key (\<lambda>f. ff_tenant f \<in> tenant_ids s) (feature_flags s) \<and>
     table_ok nt_id (\<lambda>n. nt_user n \<in> user_pks s) (notifications s) \<and>
     list_all (audit_refs (user_pks s) (tenant_ids s)) (audit_logs s) \<and>
     table_ok ot_jti (\<lambda>t. null_or_in (user_pks s) (ot_user t)) (outstanding_tokens s)"


lemma user_pks_of: "p \<in> user_pks s \<longleftrightarrow> user_of s p \<noteq> None"
  by (auto simp: user_pks_def user_of_def find_None_iff)

lemma tenant_ids_of: "i \<in> tenant_ids s \<longleftrightarrow> tenant_of s i \<noteq> None"
  by (auto simp: tenant_ids_def tenant_of_def find_None_iff)

lemma user_of_pk: "user_of s p = Some u \<Longrightarrow> us_pk u = p"
  by (auto simp: user_of_def find_Some_iff)

lemma null_or_in_simps [simp]: "null_or_in A None" "null_or_in A (Some a) \<longleftrightarrow> a \<in> A"
  by (simp_all add: null_or_in_def)

lemma null_or_in_mono: "null_or_in A x \<Longrightarrow> A \<subseteq> B \<Longrightarrow> null_or_in B x"
  by (cases x) auto

lemma null_if_in: "null_or_in A x \<Longrightarrow> null_or_in (A - {p}) (null_if p x)"
  by (cases x) (auto simp: null_if_def)

text \<open>What can be read off the invariant.\<close>

lemma db_okD:
  assumes "db_ok s"
  shows "users_ok s" "tenancy_ok s" "roles_ok s" "invitations_ok s" "subs_ok s" "flags_ok s" "totps_ok s"
    "tbl_ok nt_id (notifications s)" "tbl_ok we_stripe_event_id (webhook_events s)"
  using assms by (simp_all add: db_ok_def table_ok_def roles_ok_def flags_ok_def)

subsection \<open>One table written\<close>

lemma subs_ok_frame [simp]:
  "subs_ok (s\<lparr>users := x0\<rparr>) = subs_ok s"
  "subs_ok (s\<lparr>profiles := x1\<rparr>) = subs_ok s"
  "subs_ok (s\<lparr>totps := x2\<rparr>) = subs_ok s"
  "subs_ok (s\<lparr>tenants := x3\<rparr>) = subs_ok s"
  "subs_ok (s\<lparr>domains := x4\<rparr>) = subs_ok s"
  "subs_ok (s\<lparr>roles := x5\<rparr>) = subs_ok s"
  "subs_ok (s\<lparr>invitations := x6\<rparr>) = subs_ok s"
  "subs_ok (s\<lparr>webhook_events := x7\<rparr>) = subs_ok s"
  "subs_ok (s\<lparr>feature_flags := x8\<rparr>) = subs_ok s"
  "subs_ok (s\<lparr>notifications := x9\<rparr>) = subs_ok s"
  "subs_ok (s\<lparr>audit_logs := x10\<rparr>) = subs_ok s"
  "subs_ok (s\<lparr>outstanding_tokens := x11\<rparr>) = subs_ok s"
  "subs_ok (s\<lparr>queue := x12\<rparr>) = subs_ok s"
  by (simp_all add: subs_ok_def)

lemmas db_ok_defs = db_ok_def users_ok_def tenancy_ok_def totps_ok_def invitations_ok_def
  user_pks_def tenant_ids_def tenant_of_def

lemma db_ok_queue [simp]: "db_ok (s\<lparr>queue := q\<rparr>) = db_ok s"
  by (simp add: db_ok_defs)

lemma db_ok_delay: "db_ok s \<Longrightarrow> db_ok (snd (delay t s))"
  by (simp add: delay_def)

lemma db_ok_roles:
  "\<lbrakk>db_ok s; table_ok role_key (role_row (user_pks s) (tenant_ids s)) rs\<rbrakk> \<Longrightarrow> db_ok (s\<lparr>roles := rs\<rparr>)"
  by (simp add: db_ok_defs)

lemma db_ok_profiles:
  "\<lbrakk>db_ok s; table_ok pf_user (profile_row (user_pks s)) ps\<rbrakk> \<Longrightarrow> db_ok (s\<lparr>profiles := ps\<rparr>)"
  by (simp add: db_ok_defs)

lemma db_ok_totps:
  "\<lbrakk>db_ok s; totps_ok (s\<lparr>totps := ts\<rparr>); list_all (\<lambda>t. tp_user t \<in> user_pks s) ts\<rbrakk> \<Longrightarrow> db_ok (s\<lparr>totps := ts\<rparr>)"
  by (simp add: db_ok_defs)

lemma db_ok_notifications:
  "\<lbrakk>db_ok s; table_ok nt_id (\<lambda>n. nt_user n \<in> user_pks s) ns\<rbrakk> \<Longrightarrow> db_ok (s\<lparr>notifications := ns\<rparr>)"
  by (simp add: db_ok_defs)

lemma db_ok_flags:
  "\<lbrakk>db_ok s; table_ok flag_key (\<lambda>f. ff_tenant f \<in> tenant_ids s) fs\<rbrakk> \<Longrightarrow> db_ok (s\<lparr>feature_flags := fs\<rparr>)"
  by (simp add: db_ok_defs)

lemma db_ok_webhooks:
  "\<lbrakk>db_ok s; tbl_ok we_stripe_event_id ws\<rbrakk> \<Longrightarrow> db_ok (s\<lparr>webhook_events := ws\<rparr>)"
  by (simp add: db_ok_defs)

lemma db_ok_tokens:
  "\<lbrakk>db_ok s; table_ok ot_jti (\<lambda>t. null_or_in (user_pks s) (ot_user t)) ts\<rbrakk> \<Longrightarrow> db_ok (s\<lparr>outstanding_tokens := ts\<rparr>)"
  by (simp add: db_ok_defs)

lemma db_ok_subscriptions:
  "\<lbrakk>db_ok s; subs_ok (s\<lparr>subscriptions := ss\<rparr>); list_all (subscription_refs (tenant_ids s) (plans s)) ss\<rbrakk> \<Longrightarrow>
    db_ok (s\<lparr>subscriptions := ss\<rparr>)"
  by (simp add: db_ok_defs)

lemma db_ok_invitations:
  "\<lbrakk>db_ok s; invitations_ok (s\<lparr>invitations := is\<rparr>); list_all (invitation_refs (user_pks s)) is\<rbrakk> \<Longrightarrow>
    db_ok (s\<lparr>invitations := is\<rparr>)"
  by (simp add: db_ok_defs)

lemma db_ok_audit:
  "\<lbrakk>db_ok s; list_all (audit_refs (user_pks s) (tenant_ids s)) as\<rbrakk> \<Longrightarrow> db_ok (s\<lparr>audit_logs := as\<rparr>)"
  by (simp add: db_ok_defs)

lemma db_ok_log:
  assumes ok: "db_ok s" and "null_or_in (tenant_ids s) tn"
    and "null_or_in (user_pks s) (map_option us_pk (resolve_actor rq actor))"
  shows "db_ok (AuditService_log now a rq tn actor rt ri m s)"
proof -
  have "AuditService_log now a rq tn actor rt ri m s = s\<lparr>audit_logs := audit_logs (AuditService_log now a rq tn actor rt ri m s)\<rparr>"
    by (simp add: AuditService_log_def Let_def)
  moreover have "list_all (audit_refs (user_pks s) (tenant_ids s)) (audit_logs (AuditService_log now a rq tn actor rt ri m s))"
    using assms by (auto simp: audit_logs_log audit_refs_def db_ok_def)
  ultimately show ?thesis using db_ok_audit [OF ok] by metis
qed

lemma user_pks_eq: "users s' = users s \<Longrightarrow> user_pks s' = user_pks s"
  by (simp add: user_pks_def)

lemma tenant_ids_eq: "tenants s' = tenants s \<Longrightarrow> tenant_ids s' = tenant_ids s"
  by (simp add: tenant_ids_def)

lemma user_pks_simps [simp]:
  "user_pks (s\<lparr>roles := a\<rparr>) = user_pks s" "tenant_ids (s\<lparr>roles := a\<rparr>) = tenant_ids s"
  "user_pks (s\<lparr>invitations := b\<rparr>) = user_pks s" "tenant_ids (s\<lparr>invitations := b\<rparr>) = tenant_ids s"
  "user_pks (s\<lparr>queue := q\<rparr>) = user_pks s" "tenant_ids (s\<lparr>queue := q\<rparr>) = tenant_ids s"
  "user_pks (s\<lparr>subscriptions := c\<rparr>) = user_pks s" "tenant_ids (s\<lparr>subscriptions := c\<rparr>) = tenant_ids s"
  "user_pks (s\<lparr>notifications := d\<rparr>) = user_pks s" "tenant_ids (s\<lparr>notifications := d\<rparr>) = tenant_ids s"
  "user_pks (s\<lparr>outstanding_tokens := e\<rparr>) = user_pks s" "tenant_ids (s\<lparr>outstanding_tokens := e\<rparr>) = tenant_ids s"
  "user_pks (s\<lparr>profiles := f\<rparr>) = user_pks s" "tenant_ids (s\<lparr>profiles := f\<rparr>) = tenant_ids s"
  "user_pks (s\<lparr>totps := g\<rparr>) = user_pks s" "tenant_ids (s\<lparr>totps := g\<rparr>) = tenant_ids s"
  "user_pks (AuditService_log now x rq tn ac rt ri m s) = user_pks s"
  "tenant_ids (AuditService_log now x rq tn ac rt ri m s) = tenant_ids s"
  by (simp_all add: user_pks_def tenant_ids_def)


text \<open>More users or more tenants: every reference stays good.\<close>

lemma row_mono:
  assumes "U \<subseteq> U'" "T \<subseteq> T'"
  shows "profile_row U p \<Longrightarrow> profile_row U' p" "role_row U T r \<Longrightarrow> role_row U' T' r"
    "invitation_refs U i \<Longrightarrow> invitation_refs U' i" "subscription_refs T ps sub \<Longrightarrow> subscription_refs T' ps sub"
    "audit_refs U T a \<Longrightarrow> audit_refs U' T' a"
  using assms
  by (auto simp: profile_row_def role_row_def invitation_refs_def subscription_refs_def audit_refs_def
      intro: null_or_in_mono)

lemma db_ok_users:
  assumes ok: "db_ok s" and us: "users_ok (s\<lparr>users := us, next_user_pk := n\<rparr>)" "list_all user_row us"
    and more: "user_pks s \<subseteq> us_pk ` set us"
  shows "db_ok (s\<lparr>users := us, next_user_pk := n\<rparr>)"
proof -
  have T: "tenant_ids s \<subseteq> tenant_ids s" by simp
  note mono = row_mono [OF more T]
  let ?s = "s\<lparr>users := us, next_user_pk := n\<rparr>"
  have U: "user_pks ?s = us_pk ` set us" "tenant_ids ?s = tenant_ids s" by (simp_all add: user_pks_def tenant_ids_def)
  have tabs: "table_ok pf_user (profile_row (user_pks ?s)) (profiles s)"
    "table_ok role_key (role_row (user_pks ?s) (tenant_ids s)) (roles s)"
    "table_ok nt_id (\<lambda>n. nt_user n \<in> user_pks ?s) (notifications s)"
    "table_ok ot_jti (\<lambda>t. null_or_in (user_pks ?s) (ot_user t)) (outstanding_tokens s)"
    unfolding U using ok more mono by (auto simp: db_ok_def elim!: table_ok_mono intro: null_or_in_mono)
  have lists: "list_all (\<lambda>t. tp_user t \<in> user_pks ?s) (totps s)"
    "list_all (invitation_refs (user_pks ?s)) (invitations s)"
    "list_all (audit_refs (user_pks ?s) (tenant_ids s)) (audit_logs s)"
    unfolding U using ok more mono by (auto simp: db_ok_def list_all_iff)
  have same: "tenancy_ok ?s = tenancy_ok s" "totps_ok ?s = totps_ok s" "invitations_ok ?s = invitations_ok s"
    "subs_ok ?s = subs_ok s"
    by (simp_all add: tenancy_ok_def totps_ok_def invitations_ok_def tenant_of_def subs_ok_def)
  show ?thesis
    using ok us tabs lists same U(2) by (simp add: db_ok_def)
qed

lemma db_ok_tenants:
  assumes ok: "db_ok s" and ts: "tenancy_ok (s\<lparr>tenants := ts, domains := ds\<rparr>)"
    and more: "tenant_ids s \<subseteq> tn_id ` set ts"
  shows "db_ok (s\<lparr>tenants := ts, domains := ds\<rparr>)"
proof -
  have P: "user_pks s \<subseteq> user_pks s" by simp
  note mono = row_mono [OF P more]
  let ?s = "s\<lparr>tenants := ts, domains := ds\<rparr>"
  have U: "user_pks ?s = user_pks s" "tenant_ids ?s = tn_id ` set ts" by (simp_all add: user_pks_def tenant_ids_def)
  have tabs: "table_ok role_key (role_row (user_pks s) (tenant_ids ?s)) (roles s)"
    "table_ok flag_key (\<lambda>f. ff_tenant f \<in> tenant_ids ?s) (feature_flags s)"
    unfolding U using ok more mono by (auto simp: db_ok_def elim!: table_ok_mono)
  have lists: "list_all (subscription_refs (tenant_ids ?s) (plans s)) (subscriptions s)"
    "list_all (audit_refs (user_pks s) (tenant_ids ?s)) (audit_logs s)"
    unfolding U using ok more mono by (auto simp: db_ok_def list_all_iff)
  have "tenant_of ?s k \<noteq> None" if "tenant_of s k \<noteq> None" for k
    using that more U(2) tenant_ids_of [of k s] tenant_ids_of [of k ?s] by blast
  then have "invitations_ok ?s" using ok by (auto simp: db_ok_def invitations_ok_def list_all_iff)
  moreover have "users_ok ?s = users_ok s" "totps_ok ?s = totps_ok s" "subs_ok ?s = subs_ok s"
    by (simp_all add: users_ok_def totps_ok_def subs_ok_def)
  ultimately show ?thesis
    using ok ts tabs lists U(1) by (simp add: db_ok_def)
qed

lemma db_ok_new_user:
  assumes ok: "db_ok s" and new: "us_pk u = next_user_pk s" "strip_lower (us_email u) = us_email u"
    and free: "\<forall>x\<in>set (users s). us_username x \<noteq> us_username u \<and> us_email x \<noteq> us_email u"
  shows "db_ok (s\<lparr>users := users s @ [u], next_user_pk := next_user_pk s + 1\<rparr>)"
proof (rule db_ok_users [OF ok])
  show "users_ok (s\<lparr>users := users s @ [u], next_user_pk := next_user_pk s + 1\<rparr>)"
    using db_okD(1) [OF ok] new(1) free by (auto simp: users_ok_def tbl_ok_def)
  show "list_all user_row (users s @ [u])" using ok new(2) by (simp add: db_ok_def user_row_def)
  show "user_pks s \<subseteq> us_pk ` set (users s @ [u])" by (auto simp: user_pks_def)
qed

lemma db_ok_update_user:
  assumes ok: "db_ok s"
    and f: "\<And>u. u \<in> set (users s) \<Longrightarrow> us_pk u = p \<Longrightarrow> us_pk (f u) = p \<and> strip_lower (us_email (f u)) = us_email (f u) \<and>
      (\<forall>x\<in>set (users s). us_pk x \<noteq> p \<longrightarrow> us_username x \<noteq> us_username (f u) \<and> us_email x \<noteq> us_email (f u))"
  shows "db_ok (s\<lparr>users := qs_update (\<lambda>u. us_pk u = p) f (users s)\<rparr>)"
proof -
  let ?us = "qs_update (\<lambda>u. us_pk u = p) f (users s)"
  let ?g = "\<lambda>u. if us_pk u = p then f u else u"
  have uok: "users_ok s" using db_okD(1) [OF ok] .
  have pk: "map us_pk ?us = map us_pk (users s)" using f by (intro map_qs_update) auto
  have inj: "x = y" if "x \<in> set (users s)" "y \<in> set (users s)" "us_pk x = us_pk y" for x y
    using uok that by (meson users_ok_def tbl_ok_def distinct_map inj_onD)
  have uniq: "tbl_ok k ?us" if base: "tbl_ok k (users s)"
    and other: "\<And>u x. u \<in> set (users s) \<Longrightarrow> us_pk u = p \<Longrightarrow> x \<in> set (users s) \<Longrightarrow> us_pk x \<noteq> p \<Longrightarrow> k x \<noteq> k (f u)"
    for k :: "user \<Rightarrow> 'k"
  proof -
    have "distinct (users s)" using base by (simp add: tbl_ok_def distinct_map)
    moreover have "inj_on (k \<circ> ?g) (set (users s))"
    proof (rule inj_onI)
      fix x y assume xy: "x \<in> set (users s)" "y \<in> set (users s)" "(k \<circ> ?g) x = (k \<circ> ?g) y"
      show "x = y"
      proof (cases "us_pk x = p"; cases "us_pk y = p")
        assume "us_pk x = p" "us_pk y = p"
        then show ?thesis using inj xy by simp
      next
        assume "us_pk x = p" "us_pk y \<noteq> p"
        with other [of x y] xy show ?thesis by simp
      next
        assume "us_pk x \<noteq> p" "us_pk y = p"
        with other [of y x] xy show ?thesis by simp
      next
        assume "us_pk x \<noteq> p" "us_pk y \<noteq> p"
        with xy base show ?thesis by (simp add: tbl_ok_def distinct_map inj_on_def)
      qed
    qed
    ultimately show ?thesis by (simp add: tbl_ok_def qs_update_def distinct_map)
  qed
  have "users_ok (s\<lparr>users := ?us\<rparr>)"
    using uok pk f by (auto simp: users_ok_def tbl_ok_def [of us_pk] intro!: uniq)
  moreover have "list_all user_row ?us"
    using ok f by (auto simp: db_ok_def list_all_iff user_row_def)
  moreover have "user_pks s \<subseteq> us_pk ` set ?us"
    using pk by (metis list.set_map order_refl user_pks_def)
  ultimately show ?thesis
    using db_ok_users [OF ok, where us = ?us and n = "next_user_pk s"] by simp
qed


subsection \<open>Users and profiles\<close>

lemma create_user_db_ok:
  assumes ok: "db_ok s" and run: "create_user pe mk ce data s = (r, s')"
  shows "db_ok s'"
  using run
proof (cases rule: create_user_cases)
  case (created u)
  have "db_ok (s\<lparr>users := users s @ [u], next_user_pk := next_user_pk s + 1\<rparr>)"
    using created by (intro db_ok_new_user [OF ok]) simp_all
  with created(6) show ?thesis using db_ok_queue by metis
qed (use ok in simp_all)

lemma UserCreateView_db_ok: "db_ok s \<Longrightarrow> db_ok (snd (UserCreateView_post vi pe mk ce data s))"
  by (auto simp: UserCreateView_post_def split: prod.splits sum.splits dest: create_user_db_ok)

lemma RegisterView_db_ok:
  assumes ok: "db_ok s" and caller: "null_or_in (user_pks s) (map_option us_pk (rq_user rq))"
  shows "db_ok (snd (RegisterView_post vi pe mk ce now rq data s))"
proof (cases "vi data")
  case True
  obtain r s1 where run: "create_user pe mk ce data s = (r, s1)" by fastforce
  have ok1: "db_ok s1" by (rule create_user_db_ok [OF ok run])
  have "user_pks s \<subseteq> user_pks s1"
    using run by (cases rule: create_user_cases) (auto simp: user_pks_def)
  then have "null_or_in (user_pks s1) (map_option us_pk (resolve_actor (Some rq) None))"
    using caller by (auto simp: resolve_actor_def intro: null_or_in_mono)
  with ok1 have "db_ok (AuditService_log now a (Some rq) None None rt ri m s1)" for a rt ri m
    by (intro db_ok_log) simp_all
  with True run ok1 show ?thesis
    by (auto simp: RegisterView_post_def split: sum.splits)
qed (use ok in \<open>simp add: RegisterView_post_def\<close>)

lemma get_profile_db_ok:
  assumes ok: "db_ok s" and u: "us_pk u \<in> user_pks s" and run: "get_profile now u s = (r, s')"
  shows "db_ok s' \<and> users s' = users s \<and> tenants s' = tenants s \<and>
    (\<forall>p. r = Inr p \<longrightarrow> p \<in> set (profiles s') \<and> pf_user p = us_pk u)"
proof -
  let ?new = "default_profile now (us_pk u)"
  obtain x ps where goc: "get_or_create (\<lambda>p. pf_user p = us_pk u) ?new (profiles s) = (x, ps)" by fastforce
  have tab: "table_ok pf_user (profile_row (user_pks s)) (profiles s)" using ok by (simp add: db_ok_def)
  have "table_ok pf_user (profile_row (user_pks s)) ps"
    by (rule table_ok_goc [OF tab goc]) (use u in \<open>simp_all add: default_profile_def profile_row_def\<close>)
  then have "db_ok (s\<lparr>profiles := ps\<rparr>)" by (rule db_ok_profiles [OF ok])
  moreover have "p \<in> set ps \<and> pf_user p = us_pk u" if "x = Inr (p, b)" for p b
    using goc that by (auto simp: get_or_create_def default_profile_def split: sum.splits if_splits dest!: qs_get_Inr)
  ultimately show ?thesis
    using ok run goc by (auto simp: get_profile_def split: sum.splits)
qed

lemma write_profile_db_ok:
  assumes ok: "db_ok s" and p: "p \<in> user_pks s"
    and f: "\<And>x. x \<in> set (profiles s) \<Longrightarrow> pf_user x = p \<Longrightarrow> pf_user (f x) = p \<and> profile_row (user_pks s) (f x)"
  shows "db_ok (s\<lparr>profiles := qs_update (\<lambda>x. pf_user x = p) f (profiles s)\<rparr>)"
  using ok f by (intro db_ok_profiles [OF ok] table_ok_update) (auto simp: db_ok_def)

lemma update_profile_row:
  "\<lbrakk>profile_row U p; profile_errors tzs d = []\<rbrakk> \<Longrightarrow> profile_row U (update_profile now d p) \<and>
     pf_user (update_profile now d p) = pf_user p"
  by (auto simp: profile_row_def profile_errors_def update_profile_def split: option.splits if_splits)

text \<open>The caller of an endpoint is a user of the database.\<close>

definition caller_ok :: "request \<Rightarrow> db \<Rightarrow> bool" where
  "caller_ok rq s \<longleftrightarrow> null_or_in (user_pks s) (map_option us_pk (rq_user rq)) \<and>
     null_or_in (tenant_ids s) (map_option tn_id (rq_tenant rq))"

lemma profile_views_db_ok:
  assumes ok: "db_ok s" and caller: "caller_ok rq s"
  shows "db_ok (snd (MeView_get now rq s))" "db_ok (snd (ProfileView_get now rq s))"
    "db_ok (snd (ProfileView_update tzs now rq d s))" "db_ok (snd (ProfileView_delete now rq s))"
proof -
  consider "rq_user rq = None" | u where "rq_user rq = Some u" "us_pk u \<in> user_pks s"
    using caller by (cases "rq_user rq") (auto simp: caller_ok_def)
  then have "db_ok (snd (MeView_get now rq s)) \<and> db_ok (snd (ProfileView_get now rq s)) \<and>
    db_ok (snd (ProfileView_update tzs now rq d s)) \<and> db_ok (snd (ProfileView_delete now rq s))"
  proof cases
    case 1
    with ok show ?thesis
      by (simp add: MeView_get_def ProfileView_get_def ProfileView_update_def ProfileView_delete_def)
  next
    case (2 u)
    obtain r s1 where run: "get_profile now u s = (r, s1)" by fastforce
    note got = get_profile_db_ok [OF ok 2(2) run]
    then have ok1: "db_ok s1" and pks: "user_pks s1 = user_pks s" by (auto simp: user_pks_def)
    show ?thesis
    proof (cases r)
      case (Inl e)
      with 2 run ok1 show ?thesis
        by (simp add: MeView_get_def ProfileView_get_def ProfileView_update_def ProfileView_delete_def)
    next
      case (Inr p)
      with got have p: "p \<in> set (profiles s1)" "pf_user p = us_pk u" by auto
      have row: "profile_row (user_pks s1) x" if "x \<in> set (profiles s1)" for x
        using ok1 that by (auto simp: db_ok_def table_ok_def list_all_iff)
      have up: "db_ok (s1\<lparr>profiles := qs_update (\<lambda>x. pf_user x = us_pk u) (\<lambda>_. update_profile now d p) (profiles s1)\<rparr>)"
        if "profile_errors tzs d = []"
        using update_profile_row [OF row [OF p(1)] that, of now] p(2) 2(2) pks
        by (intro write_profile_db_ok [OF ok1]) simp_all
      have del: "db_ok (s1\<lparr>profiles := qs_update (\<lambda>x. pf_user x = us_pk u)
          (\<lambda>x. x\<lparr>pf_avatar := None, pf_updated_at := now\<rparr>) (profiles s1)\<rparr>)"
        using 2(2) pks row by (intro write_profile_db_ok [OF ok1]) (auto simp: profile_row_def)
      from 2 run ok1 Inr up del show ?thesis
        by (simp add: MeView_get_def ProfileView_get_def ProfileView_update_def ProfileView_delete_def)
    qed
  qed
  then show "db_ok (snd (MeView_get now rq s))" "db_ok (snd (ProfileView_get now rq s))"
    "db_ok (snd (ProfileView_update tzs now rq d s))" "db_ok (snd (ProfileView_delete now rq s))" by simp_all
qed


subsection \<open>Erasure\<close>

text \<open>The random name is new and, as a hexadecimal tag, in small letters.\<close>

definition tag_fresh :: "string \<Rightarrow> db \<Rightarrow> bool" where
  "tag_fresh tag s \<longleftrightarrow>
     (let name = ''deleted_'' @ tag; email = name @ [CHR 0x40] @ ''deleted.invalid''
      in strip_lower email = email \<and>
         (\<forall>u\<in>set (users s). us_username u \<noteq> name \<and> us_email u \<noteq> email))"

lemma delete_rows_db_ok:
  assumes ok: "db_ok s"
  shows "db_ok (s\<lparr>outstanding_tokens := qs_delete P (outstanding_tokens s), notifications := qs_delete Q (notifications s),
     roles := qs_delete R (roles s)\<rparr>)"
proof -
  let ?s1 = "s\<lparr>outstanding_tokens := qs_delete P (outstanding_tokens s)\<rparr>"
  let ?s2 = "?s1\<lparr>notifications := qs_delete Q (notifications s)\<rparr>"
  have 1: "db_ok ?s1" using ok by (intro db_ok_tokens [OF ok] table_ok_delete) (simp add: db_ok_def)
  have 2: "db_ok ?s2" using ok by (intro db_ok_notifications [OF 1] table_ok_delete) (simp add: db_ok_def)
  show ?thesis using db_ok_roles [OF 2, of "qs_delete R (roles s)"] ok
    by (simp add: db_ok_def table_ok_delete)
qed

lemma anonymize_db_ok:
  assumes ok: "db_ok s" and tag: "tag_fresh tag s"
  shows "db_ok (snd (anonymize tag pw u s))"
proof -
  let ?f = "\<lambda>x. x\<lparr>us_username := ''deleted_'' @ tag, us_email := ''deleted_'' @ tag @ [CHR 0x40] @ ''deleted.invalid'',
                us_first_name := [], us_last_name := [], us_is_active := False, us_password := pw\<rparr>"
  let ?s = "s\<lparr>outstanding_tokens := qs_delete (\<lambda>t. ot_user t = Some (us_pk u)) (outstanding_tokens s),
       notifications := qs_delete (\<lambda>n. nt_user n = us_pk u) (notifications s),
       roles := qs_delete (\<lambda>r. ur_user r = us_pk u) (roles s)\<rparr>"
  have "db_ok ?s" by (rule delete_rows_db_ok [OF ok])
  then have "db_ok (?s\<lparr>users := qs_update (\<lambda>x. us_pk x = us_pk u) ?f (users ?s)\<rparr>)"
    by (rule db_ok_update_user) (use tag in \<open>auto simp: tag_fresh_def Let_def\<close>)
  moreover have "\<not> qs_exists (\<lambda>x. us_pk x \<noteq> us_pk u \<and> us_username x = ''deleted_'' @ tag) (users s)"
    using tag by (auto simp: tag_fresh_def Let_def)
  ultimately show ?thesis using anonymize_ok [of u tag s pw] by simp
qed

text \<open>The cascade leaves no reference to the user.\<close>

lemma filter_pending_map:
  "filter (\<lambda>i. iv_status i = PENDING) (map (\<lambda>i. i\<lparr>iv_invited_by := f i, iv_accepted_by := g i\<rparr>) is) =
   map (\<lambda>i. i\<lparr>iv_invited_by := f i, iv_accepted_by := g i\<rparr>) (filter (\<lambda>i. iv_status i = PENDING) is)"
  by (induction "is") auto

lemma delete_user_db_ok:
  assumes ok: "db_ok s"
  shows "db_ok (delete_user p s)"
proof -
  let ?s = "delete_user p s"
  have U: "user_pks ?s = user_pks s - {p}" and T: "tenant_ids ?s = tenant_ids s"
    by (auto simp: user_pks_def tenant_ids_def delete_user_def)
  have users: "users_ok ?s" "list_all user_row (users ?s)"
    using ok by (auto simp: db_ok_def users_ok_def delete_user_def tbl_ok_def distinct_map_delete list_all_iff)
  have subs: "subs_ok ?s = subs_ok s" and tens: "tenancy_ok ?s = tenancy_ok s"
    by (simp_all add: delete_user_def subs_ok_def tenancy_ok_def tenant_of_def)
  have "tenancy_ok ?s" "tbl_ok pl_pk (plans ?s)" "subs_ok ?s" "tbl_ok we_stripe_event_id (webhook_events ?s)"
    "list_all (subscription_refs (tenant_ids s) (plans ?s)) (subscriptions ?s)"
    "table_ok flag_key (\<lambda>f. ff_tenant f \<in> tenant_ids s) (feature_flags ?s)"
    using ok unfolding subs tens db_ok_def by (simp_all add: delete_user_def)
  moreover have "table_ok pf_user (profile_row (user_pks ?s)) (profiles ?s)"
    "table_ok nt_id (\<lambda>n. nt_user n \<in> user_pks ?s) (notifications ?s)"
    "list_all (\<lambda>t. tp_user t \<in> user_pks ?s) (totps ?s)" "totps_ok ?s"
    using ok unfolding U
    by (auto simp: db_ok_def delete_user_def table_ok_def list_all_iff tbl_ok_def totps_ok_def
        distinct_map_delete profile_row_def)
  moreover have "table_ok role_key (role_row (user_pks ?s) (tenant_ids s)) (roles ?s)"
  proof -
    have "table_ok role_key (\<lambda>r. role_row (user_pks s) (tenant_ids s) r \<and> ur_user r \<noteq> p) (qs_delete (\<lambda>r. ur_user r = p) (roles s))"
      using ok by (auto simp: db_ok_def table_ok_def list_all_iff tbl_ok_def distinct_map_delete)
    moreover have "roles ?s = map (\<lambda>r. r\<lparr>ur_assigned_by := null_if p (ur_assigned_by r)\<rparr>)
        (qs_delete (\<lambda>r. ur_user r = p) (roles s))" by (simp add: delete_user_def)
    ultimately show ?thesis unfolding U
      by (auto intro!: table_ok_map simp: role_row_def role_key_def null_if_in)
  qed
  moreover have "table_ok ot_jti (\<lambda>t. null_or_in (user_pks ?s) (ot_user t)) (outstanding_tokens ?s)"
    using ok unfolding U by (auto simp: db_ok_def delete_user_def null_if_in intro!: table_ok_map)
  moreover have "list_all (audit_refs (user_pks ?s) (tenant_ids s)) (audit_logs ?s)"
    "list_all (invitation_refs (user_pks ?s)) (invitations ?s)"
    using ok unfolding U
    by (auto simp: db_ok_def delete_user_def list_all_iff audit_refs_def invitation_refs_def null_if_in)
  moreover have "invitations_ok ?s"
    using ok unfolding db_ok_def
    by (auto simp: invitations_ok_def delete_user_def tbl_ok_def comp_def list_all_iff tenant_of_def filter_pending_map)
  ultimately show ?thesis using users unfolding db_ok_def T by blast
qed

lemma hard_delete_db_ok: "db_ok s \<Longrightarrow> db_ok (snd (hard_delete u s))"
  using delete_user_db_ok [OF delete_rows_db_ok]
  by (simp add: hard_delete_def atomic_def revoke_tokens_def delete_notifications_def delete_roles_def Let_def)

lemma delete_user_data_db_ok:
  "\<lbrakk>db_ok s; tag_fresh tag s\<rbrakk> \<Longrightarrow> db_ok (snd (delete_user_data parse_pk tag pw user_id hard no_input confirm s))"
  using hard_delete_db_ok [of s] anonymize_db_ok [of s tag pw]
  by (auto simp: delete_user_data_def split: option.splits prod.splits sum.splits) (metis snd_conv)+


subsection \<open>Tokens and the second factor\<close>

definition jti_fresh :: "string \<Rightarrow> db \<Rightarrow> bool" where
  "jti_fresh jti s \<longleftrightarrow> (\<forall>t\<in>set (outstanding_tokens s). ot_jti t \<noteq> jti)"

lemma refresh_db_ok:
  assumes "db_ok s" "us_pk u \<in> user_pks s" "jti_fresh jti s"
  shows "db_ok (snd (refresh_token_for_user mint jti u s))"
proof -
  have "table_ok ot_jti (\<lambda>t. null_or_in (user_pks s) (ot_user t))
      (outstanding_tokens s @ [\<lparr>ot_jti = jti, ot_user = Some (us_pk u), ot_blacklisted = False\<rparr>])"
    using assms by (intro table_ok_snoc) (auto simp: db_ok_def jti_fresh_def)
  with assms(1) show ?thesis by (simp add: refresh_token_for_user_def db_ok_tokens)
qed

lemma totp_rows:
  assumes "db_ok s" "totp_of s p = Some t"
  shows "t \<in> set (totps s)" "tp_user t = p" "p \<in> user_pks s"
proof -
  show t: "t \<in> set (totps s)" "tp_user t = p"
    using assms by (auto simp: totp_of_lookup totps_ok_def db_ok_def tbl_lookup_Some)
  then show "p \<in> user_pks s" using assms(1) by (auto simp: db_ok_def list_all_iff)
qed

lemma save_totp_db_ok:
  assumes ok: "db_ok s" and t: "totp_of s p = Some t" and new: "tp_id t' = tp_id t" "tp_user t' = tp_user t"
  shows "db_ok (save_totp t' s)"
proof -
  have "totps_ok (save_totp t' s)" using save_totp_effect [OF db_okD(7) [OF ok] t new] by blast
  moreover have "list_all (\<lambda>x. tp_user x \<in> user_pks s) (totps (save_totp t' s))"
    using ok totp_rows [OF ok t] new by (auto simp: save_totp_def db_ok_def list_all_iff)
  ultimately show ?thesis
    unfolding save_totp_def by (intro db_ok_totps [OF ok]) simp_all
qed

lemma second_factor_db_ok:
  assumes ok: "db_ok s" and t: "totp_of s p = Some t"
    and run: "second_factor totp_verify now code t s = (r, s1)"
  shows "db_ok s1 \<and> users s1 = users s \<and> outstanding_tokens s1 = outstanding_tokens s"
  using run TrueI
proof (cases rule: second_factor_cases)
  case backup
  then show ?thesis using save_totp_db_ok [OF ok t] by (simp add: save_totp_def)
qed (use ok in simp_all)

lemma setup_db_ok:
  assumes ok: "db_ok s" and caller: "caller_ok rq s" and fresh: "\<forall>t\<in>set (totps s). tp_id t \<noteq> new_id"
  shows "db_ok (snd (TwoFactorSetupView_get uri svg now new_id secret hex rq s))"
proof (cases "rq_user rq")
  case (Some u)
  then have u: "us_pk u \<in> user_pks s" using caller by (simp add: caller_ok_def)
  let ?upd = "\<lambda>t. t\<lparr>tp_secret := secret, tp_is_enabled := False, tp_updated_at := now\<rparr>"
  let ?new = "\<lparr>tp_id = new_id, tp_user = us_pk u, tp_secret = secret, tp_is_enabled = False,
    tp_backup_codes = generate_backup_codes hex, tp_created_at = now, tp_updated_at = now\<rparr>"
  obtain x ts where uoc: "update_or_create (\<lambda>t. tp_user t = us_pk u) ?upd ?new (totps s) = (x, ts)" by fastforce
  have tok: "totps_ok s" using db_okD(7) [OF ok] .
  have "table_ok tp_user (\<lambda>t. tp_user t \<in> user_pks s) (totps s)" using ok by (simp add: db_ok_def table_ok_def totps_ok_def)
  then have tab: "table_ok tp_user (\<lambda>t. tp_user t \<in> user_pks s) ts"
    by (rule table_ok_uoc [OF _ uoc]) (use u in simp_all)
  have "ts = totps s \<or> ts = qs_update (\<lambda>t. tp_user t = us_pk u) ?upd (totps s) \<or> ts = totps s @ [?new]"
    using uoc by (auto simp: update_or_create_def split: sum.splits if_splits)
  then have "tbl_ok tp_id ts"
    using tok fresh by (auto simp: totps_ok_def intro!: tbl_ok_update) (auto simp: tbl_ok_def)
  with tab have "db_ok (s\<lparr>totps := ts\<rparr>)"
    by (intro db_ok_totps [OF ok]) (simp_all add: totps_ok_def table_ok_def)
  with ok Some uoc show ?thesis
    by (auto simp: TwoFactorSetupView_get_def Let_def split: sum.splits)
qed (use ok in \<open>simp add: TwoFactorSetupView_get_def\<close>)

lemma enable_db_ok: "db_ok s \<Longrightarrow> db_ok (snd (TwoFactorVerifyEnableView_post totp_verify now rq code s))"
  using save_totp_db_ok
  by (auto simp: TwoFactorVerifyEnableView_post_def Let_def split: option.splits)

lemma disable_db_ok:
  assumes ok: "db_ok s"
  shows "db_ok (snd (TwoFactorDisableView_post totp_verify now rq code s))"
proof -
  have "db_ok (s1\<lparr>totps := qs_delete P (totps s1)\<rparr>)" if "db_ok s1" for s1 P
    using that by (intro db_ok_totps) (auto simp: db_ok_def totps_ok_def tbl_ok_def distinct_map_delete list_all_iff)
  with ok show ?thesis
    by (auto simp: TwoFactorDisableView_post_def Let_def split: option.splits prod.splits sum.splits
        dest: second_factor_db_ok)
qed

lemma password_step_db_ok:
  assumes ok: "db_ok (site_db st)"
    and auth: "\<And>u. authenticate name pw (site_db st) = Some u \<Longrightarrow> us_pk u \<in> user_pks (site_db st)"
    and jtis: "jti_fresh jti1 (site_db st)" "jti_fresh jti2 (site_db st)" "jti1 \<noteq> jti2"
  shows "db_ok (site_db (snd (ThrottledTokenObtainPairView_post authenticate mint now jti1 jti2 key name pw st)))"
proof (cases "authenticate name pw (site_db st)")
  case (Some u)
  let ?s1 = "snd (refresh_token_for_user mint jti1 u (site_db st))"
  have 1: "db_ok ?s1" by (rule refresh_db_ok [OF ok auth [OF Some] jtis(1)])
  have "us_pk u \<in> user_pks ?s1" using auth [OF Some] by (simp add: refresh_token_for_user_def)
  moreover have "jti_fresh jti2 ?s1" using jtis by (auto simp: jti_fresh_def refresh_token_for_user_def)
  ultimately have "db_ok (snd (refresh_token_for_user mint jti2 u ?s1))" by (rule refresh_db_ok [OF 1])
  with Some show ?thesis
    by (simp add: ThrottledTokenObtainPairView_post_def Let_def case_prod_beta)
qed (use ok in \<open>simp add: ThrottledTokenObtainPairView_post_def\<close>)

lemma second_step_db_ok:
  assumes ok: "db_ok (site_db st)" and jti: "jti_fresh jti (site_db st)"
    and run: "TwoFactorCompleteView_post totp_verify mint now jti key code st = (resp, st')"
  shows "db_ok (site_db st')"
proof -
  have step: "db_ok s1 \<and> db_ok (snd (refresh_token_for_user mint jti u s1))"
    if u: "user_of (site_db st) p = Some u" and t: "totp_of (site_db st) (us_pk u) = Some t"
      and sf: "second_factor totp_verify now c t (site_db st) = (r, s1)" for p u t c r s1
  proof -
    have "us_pk u \<in> user_pks (site_db st)" using totp_rows(3) [OF ok t] .
    with second_factor_db_ok [OF ok t sf] jti show ?thesis
      by (auto simp: jti_fresh_def user_pks_def intro!: refresh_db_ok)
  qed
  show ?thesis
    using run ok step unfolding TwoFactorCompleteView_post_def Let_def
    by (auto split: if_splits option.splits prod.splits sum.splits) (metis snd_conv)+
qed


subsection \<open>Social login, password reset, notifications\<close>

lemma social_info_email: "social_info web provider token = Inr info \<Longrightarrow> strip_lower (si_email info) = si_email info"
  by (auto simp: social_info_def fetch_google_def fetch_github_def Let_def py_strip_lower strip_lower_def
      split: if_splits option.splits)

lemma insert_user_cases:
  "insert_user u s = (r, s') \<Longrightarrow> (s' = s \<and> r = Inl IntegrityError) \<or>
     (\<exists>u'. r = Inr u' \<and> u' = u\<lparr>us_pk := next_user_pk s\<rparr> \<and> (\<forall>x\<in>set (users s). us_username x \<noteq> us_username u) \<and>
        s' = s\<lparr>users := users s @ [u'], next_user_pk := next_user_pk s + 1\<rparr>)"
  by (auto simp: insert_user_def Let_def split: if_splits)

lemma social_authenticate_db_ok:
  assumes ok: "db_ok s" and run: "social_authenticate web unusable provider token s = (r, s')"
  shows "db_ok s' \<and> outstanding_tokens s' = outstanding_tokens s \<and> (\<forall>u. r = Inr u \<longrightarrow> us_pk u \<in> user_pks s')"
proof (cases "social_info web provider token")
  case (Inr info)
  then have run': "get_or_create_user unusable info s = (r, s')"
    using run by (simp add: social_authenticate_def)
  show ?thesis
  proof (cases "qs_first (\<lambda>u. int (us_pk u)) (\<lambda>u. us_email u = si_email info) (users s)")
    case (Some u)
    then have "u \<in> set (users s)" by (auto dest: qs_first_Some)
    with Some run' ok show ?thesis by (auto simp: get_or_create_user_def user_pks_def)
  next
    case None
    let ?new = "\<lparr>us_pk = 0, us_username = unique_username (si_username info) s, us_email = si_email info,
      us_first_name = si_first_name info, us_last_name = si_last_name info,
      us_password = unusable, us_is_active = True, us_is_superuser = False\<rparr>"
    obtain r1 s1 where ins: "insert_user ?new s = (r1, s1)" by fastforce
    from None have free: "\<forall>x\<in>set (users s). us_email x \<noteq> si_email info" by simp
    from insert_user_cases [OF ins] show ?thesis
    proof (elim disjE exE conjE)
      assume "s1 = s" "r1 = Inl IntegrityError"
      with None ins run' ok show ?thesis by (auto simp: get_or_create_user_def Let_def atomic_def simp del: qs_first_None)
    next
      fix u' assume u': "r1 = Inr u'" "u' = ?new\<lparr>us_pk := next_user_pk s\<rparr>"
        "\<forall>x\<in>set (users s). us_username x \<noteq> us_username ?new"
        "s1 = s\<lparr>users := users s @ [u'], next_user_pk := next_user_pk s + 1\<rparr>"
      have "db_ok s1"
        unfolding u'(4) using u'(2,3) free social_info_email [OF Inr]
        by (intro db_ok_new_user [OF ok]) simp_all
      with None ins run' u'(1,4) show ?thesis
        by (auto simp: get_or_create_user_def Let_def atomic_def user_pks_def simp del: qs_first_None)
    qed
  qed
qed (use assms in \<open>auto simp: social_authenticate_def\<close>)

lemma social_view_db_ok:
  assumes ok: "db_ok s" and jti: "jti_fresh jti s"
  shows "db_ok (snd (SocialAuthView_post web mint unusable jti provider token s))"
proof -
  obtain r s1 where run: "social_authenticate web unusable (py_strip provider) (py_strip token) s = (r, s1)" by fastforce
  note s1 = social_authenticate_db_ok [OF ok run]
  then have "db_ok (snd (refresh_token_for_user mint jti u s1))" if "r = Inr u" for u
    using that jti by (intro refresh_db_ok) (auto simp: jti_fresh_def)
  with s1 ok run show ?thesis
    by (auto simp: SocialAuthView_post_def Let_def case_prod_beta split: sum.splits)
qed

lemma reset_request_db_ok:
  assumes ok: "db_ok s" and caller: "caller_ok rq s"
  shows "db_ok (snd (PasswordResetRequestView_post ve enc mk url timeout now rq email s))"
proof -
  obtain r s1 where run: "request_reset enc mk url timeout now email s = (r, s1)" by fastforce
  then have "\<exists>q. s1 = s\<lparr>queue := q\<rparr>"
    by (auto simp: request_reset_def delay_def Let_def split: sum.splits if_splits
        intro: exI [of _ "queue s"])
  then obtain q where s1: "s1 = s\<lparr>queue := q\<rparr>" ..
  have "db_ok (AuditService_log now a (Some rq) None None rt ri m s1)" for a rt ri m
    unfolding s1 using ok caller by (intro db_ok_log) (simp_all add: caller_ok_def resolve_actor_def)
  with ok s1 run show ?thesis
    by (auto simp: PasswordResetRequestView_post_def split: sum.splits)
qed

lemma reset_confirm_db_ok:
  assumes ok: "db_ok s"
  shows "db_ok (snd (PasswordResetConfirmView_post vi dec chk pe mk now uid token pw s))"
proof -
  have "db_ok (s\<lparr>users := qs_update (\<lambda>x. us_pk x = p) (\<lambda>x. x\<lparr>us_password := h\<rparr>) (users s)\<rparr>)" for p h
  proof (rule db_ok_update_user [OF ok])
    fix u assume u: "u \<in> set (users s)" "us_pk u = p"
    have uok: "users_ok s" "user_row u" using ok u(1) by (auto simp: db_ok_def list_all_iff)
    have "us_username x \<noteq> us_username u \<and> us_email x \<noteq> us_email u" if "x \<in> set (users s)" "us_pk x \<noteq> p" for x
      using that u uok by (metis users_ok_def tbl_ok_def distinct_map inj_onD)
    with u(2) uok(2) show "us_pk (u\<lparr>us_password := h\<rparr>) = p \<and>
       strip_lower (us_email (u\<lparr>us_password := h\<rparr>)) = us_email (u\<lparr>us_password := h\<rparr>) \<and>
       (\<forall>x\<in>set (users s). us_pk x \<noteq> p \<longrightarrow>
          us_username x \<noteq> us_username (u\<lparr>us_password := h\<rparr>) \<and> us_email x \<noteq> us_email (u\<lparr>us_password := h\<rparr>))"
      by (simp add: user_row_def)
  qed
  with ok show ?thesis
    by (auto simp: PasswordResetConfirmView_post_def confirm_reset_def split: sum.splits exn.splits)
qed

lemma mark_read_db_ok:
  assumes ok: "db_ok s"
  shows "db_ok (snd (MarkNotificationReadView_patch rq k s))"
proof -
  have "db_ok (s\<lparr>notifications := qs_update P (\<lambda>x. x\<lparr>nt_is_read := True\<rparr>) (notifications s)\<rparr>)" for P
    using ok by (intro db_ok_notifications [OF ok] table_ok_update) (auto simp: db_ok_def)
  with ok show ?thesis
    by (auto simp: MarkNotificationReadView_patch_def mark_read_def split: option.splits sum.splits exn.splits)
qed

lemma create_notification_db_ok:
  assumes ok: "db_ok s" and u: "us_pk u \<in> user_pks s" and fresh: "\<forall>n\<in>set (notifications s). nt_id n \<noteq> k"
  shows "db_ok (fst (snd (create_notification gsend now k u title body (s, layer))))"
proof -
  have "table_ok nt_id (\<lambda>n. nt_user n \<in> user_pks s) (notifications s)" using ok by (simp add: db_ok_def)
  then have "table_ok nt_id (\<lambda>n. nt_user n \<in> user_pks s)
      (notifications s @ [\<lparr>nt_id = k, nt_user = us_pk u, nt_title = title, nt_body = body,
         nt_is_read = False, nt_created_at = now\<rparr>])"
    by (rule table_ok_snoc) (use u fresh in simp_all)
  from db_ok_notifications [OF ok this] show ?thesis by (simp add: create_notification_def Let_def)
qed

subsection \<open>Tenants, roles and invitations\<close>

lemma create_tenant_db_ok:
  assumes ok: "db_ok s"
  shows "db_ok (snd (create_tenant now tid did name schema domain primary s))"
proof -
  have ins: "db_ok s2" if "insert_tenant t s = (Inr t', s1)"
    and "insert_domain d s1 = (Inr d', s2)" and "dm_tenant d = tn_id t'" for t t' d d' s1 s2
  proof -
    have t: "t' = t" "s1 = s\<lparr>tenants := tenants s @ [t]\<rparr>"
      "\<forall>x\<in>set (tenants s). tn_id x \<noteq> tn_id t \<and> tn_slug x \<noteq> tn_slug t \<and> tn_schema_name x \<noteq> tn_schema_name t"
      using that(1) by (auto simp: insert_tenant_def split: if_splits)
    have d: "s2 = s\<lparr>tenants := tenants s @ [t], domains := domains s @ [d]\<rparr>"
      "\<forall>x\<in>set (domains s). dm_id x \<noteq> dm_id d \<and> dm_domain x \<noteq> dm_domain d"
      using that(2) t(2) by (auto simp: insert_domain_def split: if_splits)
    have "tenancy_ok (s\<lparr>tenants := tenants s @ [t], domains := domains s @ [d]\<rparr>)"
      using db_okD(2) [OF ok] t(3) d(2) that(3) t(1)
      by (auto simp: tenancy_ok_def tbl_ok_def tenant_of_def list_all_iff find_None_iff)
    then show ?thesis unfolding d(1) by (rule db_ok_tenants [OF ok]) (auto simp: tenant_ids_def)
  qed
  show ?thesis
    using ok ins unfolding create_tenant_def Let_def atomic_def
    by (auto split: sum.splits prod.splits)
qed

lemma assign_role_db_ok:
  assumes ok: "db_ok s" and u: "us_pk u \<in> user_pks s" and t: "tn_id t \<in> tenant_ids s"
    and caller: "null_or_in (user_pks s) (map_option us_pk assigned_by)"
  shows "db_ok (snd (assign_role now k u t role assigned_by s))"
proof (cases "role \<in> set RoleChoices_values")
  case True
  let ?k = "(us_pk u, tn_id t)"
  let ?upd = "\<lambda>r. r\<lparr>ur_role := role, ur_assigned_by := map_option us_pk assigned_by\<rparr>"
  let ?new = "\<lparr>ur_id = k, ur_user = us_pk u, ur_tenant = tn_id t, ur_role = role,
    ur_assigned_by = map_option us_pk assigned_by, ur_created_at = now\<rparr>"
  obtain x rs where uoc: "update_or_create (\<lambda>r. role_key r = ?k) ?upd ?new (roles s) = (x, rs)" by fastforce
  have tab: "table_ok role_key (role_row (user_pks s) (tenant_ids s)) (roles s)" using ok by (simp add: db_ok_def)
  have "table_ok role_key (role_row (user_pks s) (tenant_ids s)) rs"
    by (rule table_ok_uoc [OF tab uoc]) (use True u t caller in \<open>auto simp: role_row_def role_key_def\<close>)
  then have "db_ok (s\<lparr>roles := rs\<rparr>)" by (rule db_ok_roles [OF ok])
  then have "db_ok (AuditService_log now ''role_assigned'' None (Some (tn_id t)) assigned_by rt ri m (s\<lparr>roles := rs\<rparr>))"
    for rt ri m using t caller by (intro db_ok_log) (auto simp: resolve_actor_def split: option.splits)
  with True ok uoc show ?thesis by (auto simp: assign_role_def split: sum.splits)
qed (use ok in \<open>simp add: assign_role_def\<close>)

lemma assign_role_frame:
  "assign_role now k u t role assigned_by s = (r, s') \<Longrightarrow>
     invitations s' = invitations s \<and> users s' = users s \<and> tenants s' = tenants s"
  by (auto simp: assign_role_def split: if_splits sum.splits prod.splits)

lemma revoke_role_db_ok:
  assumes ok: "db_ok s" and t: "tn_id t \<in> tenant_ids s"
  shows "db_ok (snd (revoke_role now u t s))"
proof -
  have "db_ok (s\<lparr>roles := qs_delete P (roles s)\<rparr>)" for P
    using ok by (intro db_ok_roles [OF ok] table_ok_delete) (simp add: db_ok_def)
  moreover from this have "db_ok (AuditService_log now a None (Some (tn_id t)) None rt ri m (s\<lparr>roles := qs_delete P (roles s)\<rparr>))"
    for a rt ri m P using t by (intro db_ok_log) (simp_all add: resolve_actor_def)
  ultimately show ?thesis by (simp add: revoke_role_def Let_def)
qed

text \<open>An endpoint behind a role check runs its handler or answers without touching the database.\<close>

lemma authenticated_db_ok:
  assumes "db_ok s" and "\<And>u. rq_user rq = Some u \<Longrightarrow> db_ok (snd (handler u s))"
  shows "db_ok (snd (authenticated_with_role parse_uuid required rq url_tenant handler s))"
  using assms by (auto simp: authenticated_with_role_def split: option.splits sum.splits)

lemma role_views_db_ok:
  assumes ok: "db_ok s" and caller: "caller_ok rq s"
  shows "db_ok (snd (AssignRoleView_post parse_uuid now k rq tenant_id user_id role s))"
    and "db_ok (snd (RevokeRoleView_post parse_uuid now rq tenant_id user_id s))"
proof -
  have known: "us_pk u \<in> user_pks s" if "user_of s p = Some u" for p u
    using that by (auto simp: user_pks_of user_of_pk)
  have tenant: "tn_id t \<in> tenant_ids s" if "tenant_of s i = Some t" for i t
    using that by (auto simp: tenant_ids_of tenant_id_of)
  show "db_ok (snd (AssignRoleView_post parse_uuid now k rq tenant_id user_id role s))"
    unfolding AssignRoleView_post_def
  proof (rule authenticated_db_ok [OF ok])
    fix c assume "rq_user rq = Some c"
    then have c: "null_or_in (user_pks s) (map_option us_pk (Some c))" using caller by (simp add: caller_ok_def)
    have "db_ok (snd (assign_role now k u t role (Some c) s))"
      if "user_of s p = Some u" "tenant_of s i = Some t" for p u i t
      by (rule assign_role_db_ok [OF ok known [OF that(1)] tenant [OF that(2)] c])
    with ok show "db_ok (snd (case tenant_of s tenant_id of None \<Rightarrow> (Detail 404 [], s)
       | Some t \<Rightarrow> (case user_of s user_id of None \<Rightarrow> (Detail 400 ''User not found.'', s)
          | Some u \<Rightarrow> if role \<notin> set RoleChoices_values then (Detail 400 ''role'', s)
             else (case assign_role now k u t role (Some c) s of
                (Inl e, s') \<Rightarrow> (Uncaught e, s') | (Inr r, s') \<Rightarrow> (Response 201 r, s')))))"
      by (auto split: option.splits prod.splits sum.splits) (metis snd_conv)+
  qed
  show "db_ok (snd (RevokeRoleView_post parse_uuid now rq tenant_id user_id s))"
    unfolding RevokeRoleView_post_def
  proof (rule authenticated_db_ok [OF ok])
    fix c
    have "db_ok (snd (revoke_role now u t s))" if "tenant_of s i = Some t" for u i t
      by (rule revoke_role_db_ok [OF ok tenant [OF that]])
    with ok show "db_ok (snd (case tenant_of s tenant_id of None \<Rightarrow> (Detail 404 [], s)
       | Some t \<Rightarrow> (case user_of s user_id of None \<Rightarrow> (Detail 400 ''User not found.'', s)
          | Some u \<Rightarrow> (case revoke_role now u t s of
                (Inl e, s') \<Rightarrow> (Uncaught e, s') | (Inr _, s') \<Rightarrow> (Response 204 (), s')))))"
      by (auto split: option.splits prod.splits sum.splits) (metis snd_conv)+
  qed
qed


lemma save_invitation_db_ok:
  assumes ok: "db_ok s" and i: "i \<in> set (invitations s)" "iv_status i = PENDING"
    and st: "status_step PENDING st" and a: "null_or_in (user_pks s) a"
  shows "db_ok (save_invitation (i\<lparr>iv_status := st, iv_accepted_by := a\<rparr>) s)"
proof -
  let ?s = "save_invitation (i\<lparr>iv_status := st, iv_accepted_by := a\<rparr>) s"
  have "invitations_ok ?s"
    using close_invitation [OF db_okD(4) [OF ok] i st refl] by (simp add: save_invitation_def)
  moreover have "list_all (invitation_refs (user_pks s)) (invitations ?s)"
    using ok a by (auto simp: save_invitation_def db_ok_def list_all_iff invitation_refs_def)
  ultimately show ?thesis using db_ok_invitations [OF ok] by (simp add: save_invitation_def)
qed

lemma send_db_ok:
  assumes ok: "db_ok s" and t: "tn_id t \<in> tenant_ids s" and u: "us_pk u \<in> user_pks s"
    and run: "send_invitation url now k token t email role u s = (r, s')"
  shows "db_ok s'"
  using run
proof (cases rule: send_cases)
  case (sent i)
  let ?s = "s\<lparr>invitations := invitations s @ [i]\<rparr>"
  have "tenant_of ?s = tenant_of s" by (simp add: tenant_of_def fun_eq_iff)
  then have "invitations_ok ?s"
    using db_okD(4) [OF ok] sent t by (auto simp: invitations_ok_def tbl_ok_def tenant_ids_of)
  moreover have "list_all (invitation_refs (user_pks s)) (invitations s @ [i])"
    using ok u sent(1) by (simp add: db_ok_def invitation_refs_def)
  ultimately have "db_ok ?s" by (rule db_ok_invitations [OF ok])
  with sent(6) show ?thesis using db_ok_queue by metis
qed (use ok in simp)

lemma accept_db_ok:
  assumes ok: "db_ok s" and u: "us_pk u \<in> user_pks s"
    and run: "accept_invitation now rid token u s = (r, s')"
  shows "db_ok s'"
proof (cases "tbl_lookup iv_token (invitations s) token")
  case None
  with ok run show ?thesis unfolding accept_invitation_def get_invitation [OF db_okD(4) [OF ok]] by simp
next
  case (Some i)
  then have i: "i \<in> set (invitations s)"
    using db_okD(4) [OF ok] by (simp add: invitations_ok_def tbl_lookup_Some)
  obtain t where t: "tenant_of s (iv_tenant i) = Some t" and valid: "iv_role i \<in> set RoleChoices_values"
    using db_okD(4) [OF ok] i by (auto simp: invitations_ok_def list_all_iff)
  have tid: "tn_id t \<in> tenant_ids s" using t by (simp add: tenant_ids_of tenant_id_of)
  let ?by = "Option.bind (iv_invited_by i) (user_of s)"
  have inviter: "null_or_in (user_pks s) (map_option us_pk ?by)"
    by (cases "iv_invited_by i"; cases ?by) (auto simp: user_pks_of user_of_pk)
  obtain r1 s1 where s1: "assign_role now rid u t (iv_role i) ?by s = (r1, s1)" by fastforce
  have ok1: "db_ok s1" using assign_role_db_ok [OF ok u tid inviter, of now rid "iv_role i"] s1 by simp
  have frame: "invitations s1 = invitations s" "user_pks s1 = user_pks s" "tenant_ids s1 = tenant_ids s"
    using assign_role_frame [OF s1] by (simp_all add: user_pks_def tenant_ids_def)
  have expired: "db_ok (save_invitation (i\<lparr>iv_status := EXPIRED\<rparr>) s)" if "iv_status i = PENDING"
  proof -
    have "null_or_in (user_pks s) (iv_accepted_by i)" using ok i by (auto simp: db_ok_def list_all_iff invitation_refs_def)
    from save_invitation_db_ok [OF ok i that status_step.expire this] show ?thesis by simp
  qed
  have accepted: "db_ok (AuditService_log now a None (Some (tn_id t)) (Some u) rt ri m
      (save_invitation (i\<lparr>iv_status := ACCEPTED, iv_accepted_by := Some (us_pk u)\<rparr>) s1))"
    if "iv_status i = PENDING" for a rt ri m
  proof (rule db_ok_log)
    show "db_ok (save_invitation (i\<lparr>iv_status := ACCEPTED, iv_accepted_by := Some (us_pk u)\<rparr>) s1)"
      using i that u frame by (intro save_invitation_db_ok [OF ok1 _ _ status_step.accept]) simp_all
  qed (use u tid frame in \<open>simp_all add: save_invitation_def resolve_actor_def\<close>)
  show ?thesis
    using run ok ok1 s1 expired accepted
    unfolding accept_invitation_def get_invitation [OF db_okD(4) [OF ok]] Some option.case sum.case t Let_def
    by (auto split: if_splits sum.splits)
qed

lemma revoke_db_ok:
  assumes ok: "db_ok s" and t: "tn_id t \<in> tenant_ids s" and u: "us_pk u \<in> user_pks s"
  shows "db_ok (snd (revoke_invitation now k t u s))"
proof -
  have "db_ok (AuditService_log now a None (Some (tn_id t)) (Some u) rt ri m (save_invitation (i\<lparr>iv_status := REVOKED\<rparr>) s))"
    if "qs_get P (invitations s) = Inr i" "iv_status i = PENDING" for P i a rt ri m
  proof (rule db_ok_log)
    have i: "i \<in> set (invitations s)" using that(1) by (auto dest: qs_get_Inr)
    have "null_or_in (user_pks s) (iv_accepted_by i)" using ok i by (auto simp: db_ok_def list_all_iff invitation_refs_def)
    from save_invitation_db_ok [OF ok i that(2) status_step.revoke this]
    show "db_ok (save_invitation (i\<lparr>iv_status := REVOKED\<rparr>) s)" by simp
  qed (use t u in \<open>simp_all add: save_invitation_def resolve_actor_def\<close>)
  with ok show ?thesis
    by (auto simp: revoke_invitation_def Let_def split: sum.splits)
qed

lemma invitation_views_db_ok:
  assumes ok: "db_ok s" and caller: "caller_ok rq s"
  shows "db_ok (snd (TenantInvitationListCreateView_post parse_uuid clean url now k token rq email role s))"
    and "db_ok (snd (InvitationAcceptView_post now rid rq token s))"
    and "db_ok (snd (InvitationRevokeView_delete parse_uuid now rq iid s))"
proof -
  have user: "us_pk u \<in> user_pks s" if "rq_user rq = Some u" for u using caller that by (simp add: caller_ok_def)
  have tenant: "tn_id t \<in> tenant_ids s" if "rq_tenant rq = Some t" for t using caller that by (simp add: caller_ok_def)
  show "db_ok (snd (TenantInvitationListCreateView_post parse_uuid clean url now k token rq email role s))"
    unfolding TenantInvitationListCreateView_post_def
    by (rule authenticated_db_ok [OF ok])
      (use ok user tenant in \<open>auto simp: Let_def split: option.splits prod.splits sum.splits exn.splits dest: send_db_ok [OF ok]\<close>)
  show "db_ok (snd (InvitationAcceptView_post now rid rq token s))"
    using ok user
    by (auto simp: InvitationAcceptView_post_def split: option.splits prod.splits sum.splits dest: accept_db_ok [OF ok])
  have "db_ok s1" if "rq_user rq = Some u" "rq_tenant rq = Some t" "revoke_invitation now iid t u s = (r, s1)" for u t r s1
    using revoke_db_ok [OF ok tenant [OF that(2)] user [OF that(1)], of now iid] that(3) by simp
  then show "db_ok (snd (InvitationRevokeView_delete parse_uuid now rq iid s))"
    unfolding InvitationRevokeView_delete_def
    by (intro authenticated_db_ok [OF ok]) (use ok in \<open>auto split: option.splits prod.splits sum.splits\<close>)
qed


subsection \<open>Feature flags and billing\<close>

lemma set_for_tenant_db_ok:
  assumes ok: "db_ok s" and t: "tn_id t \<in> tenant_ids s" and run: "set_for_tenant now t f b source note s = (r, s')"
  shows "db_ok s' \<and> tenants s' = tenants s"
proof -
  let ?k = "(tn_id t, f)"
  let ?upd = "\<lambda>r. r\<lparr>ff_is_enabled := b, ff_source := source, ff_note := note, ff_updated_at := now\<rparr>"
  let ?new = "\<lparr>ff_tenant = tn_id t, ff_flag_name = f, ff_is_enabled = b, ff_source = source, ff_note = note,
    ff_created_at = now, ff_updated_at = now\<rparr>"
  obtain x fs where uoc: "update_or_create (\<lambda>r. flag_key r = ?k) ?upd ?new (feature_flags s) = (x, fs)" by fastforce
  have tab: "table_ok flag_key (\<lambda>f. ff_tenant f \<in> tenant_ids s) (feature_flags s)" using ok by (simp add: db_ok_def)
  have "table_ok flag_key (\<lambda>f. ff_tenant f \<in> tenant_ids s) fs"
    by (rule table_ok_uoc [OF tab uoc]) (use t in \<open>auto simp: flag_key_def\<close>)
  then have "db_ok (s\<lparr>feature_flags := fs\<rparr>)" by (rule db_ok_flags [OF ok])
  with ok run uoc show ?thesis by (auto simp: set_for_tenant_def split: sum.splits)
qed

lemma set_plan_flags_db_ok:
  "\<lbrakk>db_ok s; tn_id t \<in> tenant_ids s\<rbrakk> \<Longrightarrow> db_ok (snd (set_plan_flags now t slug fs s))"
proof (induction now t slug fs s rule: set_plan_flags.induct)
  case (2 now t slug f b fs s)
  obtain r s1 where run: "set_for_tenant now t f b ''plan'' (''Auto-set by plan: '' @ slug) s = (r, s1)" by fastforce
  note s1 = set_for_tenant_db_ok [OF 2(2,3) run]
  then have "tn_id t \<in> tenant_ids s1" using 2(3) by (simp add: tenant_ids_def)
  with 2 run s1 show ?case by (auto split: sum.splits)
qed simp

lemma sync_plan_flags_db_ok:
  "\<lbrakk>db_ok s; tn_id t \<in> tenant_ids s\<rbrakk> \<Longrightarrow> db_ok (snd (sync_plan_flags now plan_flags t s))"
  by (auto simp: sync_plan_flags_def set_plan_flags_db_ok split: option.splits)

lemma write_subscription_db_ok:
  assumes ok: "db_ok s" and sub: "sub \<in> set (subscriptions s)"
    and new: "sb_id new = sb_id sub" "sb_tenant new = sb_tenant sub"
      "sb_stripe_customer_id new = sb_stripe_customer_id sub" "sb_plan new = sb_plan sub"
    and run: "save_subscription now new s = (r, s')"
  shows "db_ok s'"
proof (cases "s' = s")
  case False
  let ?ss = "qs_update (\<lambda>r. sb_id r = sb_id new) (\<lambda>_. new\<lparr>sb_updated_at := now\<rparr>) (subscriptions s)"
  have s': "s' = s\<lparr>subscriptions := ?ss\<rparr>" using run False by (auto simp: save_subscription_def split: if_splits)
  have "subs_ok s'"
    using save_subscription_moves [OF db_okD(5) [OF ok] sub _ new(1-3) run _ refl,
        where C = "\<lambda>x. sb_id x = sb_id sub" and v = "\<lambda>_. (sb_status new, sb_grace_period_end new)"] False
    by (auto simp: moves_access_def)
  moreover have "list_all (subscription_refs (tenant_ids s) (plans s)) ?ss"
    using ok sub new(2,4) by (auto simp: db_ok_def list_all_iff subscription_refs_def)
  ultimately show ?thesis unfolding s' by (rule db_ok_subscriptions [OF ok])
qed (use ok in simp)

lemma save_status_db_ok:
  assumes ok: "db_ok s" and sub: "sub \<in> set (subscriptions s)"
    and run: "save_status now (sub\<lparr>sb_status := st, sb_grace_period_end := g\<rparr>) s = (r, s')"
  shows "db_ok s'"
proof -
  let ?ss = "qs_update (\<lambda>r. sb_id r = sb_id sub)
    (\<lambda>r. r\<lparr>sb_status := st, sb_grace_period_end := g, sb_updated_at := now\<rparr>) (subscriptions s)"
  have s': "s' = s\<lparr>subscriptions := ?ss\<rparr>" using run by (auto simp: save_status_def)
  have "subs_ok s'"
    using save_status_moves [OF db_okD(5) [OF ok] sub, where C = "\<lambda>x. sb_id x = sb_id sub" and s' = s' and
        now = now and st = st and g = g and v = "\<lambda>_. (st, g)"] run
    by (simp add: moves_access_def)
  moreover have "list_all (subscription_refs (tenant_ids s) (plans s)) ?ss"
    using ok by (auto simp: db_ok_def list_all_iff subscription_refs_def)
  ultimately show ?thesis unfolding s' by (rule db_ok_subscriptions [OF ok])
qed

lemma billing_log_db_ok:
  assumes ok: "db_ok s" and sub: "sub \<in> set (subscriptions s)" and s1: "db_ok s1" "tenants s1 = tenants s"
  shows "db_ok (AuditService_log now a None (Some (sb_tenant sub)) None rt ri m s1)"
proof (rule db_ok_log [OF s1(1)])
  show "null_or_in (tenant_ids s1) (Some (sb_tenant sub))"
    using ok sub s1(2) by (auto simp: db_ok_def list_all_iff subscription_refs_def tenant_ids_def)
qed (simp add: resolve_actor_def)

lemma save_frame:
  "save_subscription now new s = (r, s') \<Longrightarrow> tenants s' = tenants s"
  "save_status now new s = (r, s') \<Longrightarrow> tenants s' = tenants s"
  by (auto simp: save_subscription_def save_status_def split: if_splits)

lemma process_event_db_ok:
  assumes ok: "db_ok s"
  shows "db_ok (snd (process_event now ty obj s))"
proof -
  have created: "db_ok (snd (on_subscription_created now obj s))"
  proof -
    have "db_ok s1 \<and> db_ok (AuditService_log now a None (Some (sb_tenant sub)) None rt ri m s1)"
      if "qs_first ord P (subscriptions s) = Some sub"
        "save_subscription now (apply_period (sub\<lparr>sb_stripe_subscription_id := x, sb_status := y, sb_stripe_price_id := z\<rparr>) obj) s = (r, s1)"
      for ord P sub x y z r s1 a rt ri m
    proof -
      have sub: "sub \<in> set (subscriptions s)" using that(1) by (auto dest: qs_first_Some)
      have "db_ok s1" by (rule write_subscription_db_ok [OF ok sub _ _ _ _ that(2)]) (simp_all add: apply_period_def)
      with billing_log_db_ok [OF ok sub this save_frame(1) [OF that(2)]] show ?thesis by blast
    qed
    with ok show ?thesis
      by (auto simp: on_subscription_created_def Let_def simp del: qs_first_None split: option.splits prod.splits sum.splits)
  qed
  have updated: "db_ok (snd (on_subscription_updated now obj s))"
  proof -
    have "db_ok s1"
      if "qs_get P (subscriptions s) = Inr sub"
        "save_subscription now (apply_period (sub\<lparr>sb_status := y, sb_cancel_at_period_end := z\<rparr>) obj) s = (r, s1)"
      for P sub y z r s1
      using that(1) by (intro write_subscription_db_ok [OF ok _ _ _ _ _ that(2)])
        (auto simp: apply_period_def dest: qs_get_Inr)
    with ok show ?thesis
      by (auto simp: on_subscription_updated_def atomic_def Let_def split: option.splits prod.splits sum.splits)
  qed
  have status: "db_ok s1 \<and> db_ok (AuditService_log now a None (Some (sb_tenant sub)) None rt ri m s1) \<and>
      db_ok (snd (delay tk s1))"
    if "qs_get P (subscriptions s) = Inr sub" "save_status now (sub\<lparr>sb_status := y, sb_grace_period_end := g\<rparr>) s = (r, s1)"
    for P sub y g r s1 a rt ri m tk
  proof -
    have sub: "sub \<in> set (subscriptions s)" using that(1) by (auto dest: qs_get_Inr)
    have ok1: "db_ok s1" by (rule save_status_db_ok [OF ok sub that(2)])
    from billing_log_db_ok [OF ok sub this save_frame(2) [OF that(2)]] ok1 show ?thesis
      by (simp add: db_ok_delay)
  qed
  have canceled: "db_ok (snd (on_subscription_canceled now obj s))"
    using ok status by (auto simp: on_subscription_canceled_def split: option.splits prod.splits sum.splits)
  have succeeded: "db_ok (snd (on_payment_succeeded now obj s))"
    using ok status by (auto simp: on_payment_succeeded_def atomic_def Let_def split: option.splits prod.splits sum.splits)
  have failed: "db_ok (snd (on_payment_failed now obj s))"
    using ok status by (auto simp: on_payment_failed_def atomic_def Let_def split: option.splits prod.splits sum.splits)
  show ?thesis
    using ok created updated canceled succeeded failed by (simp add: process_event_def on_trial_ending_def)
qed

lemma handle_event_db_ok:
  assumes "db_ok s"
  shows "db_ok (snd (handle_stripe_event now i ty obj s))"
proof -
  have "db_ok (snd (with_retries 5 (process_event now ty obj) s))"
    by (rule with_retries_inv [OF process_event_db_ok assms])
  then show ?thesis by (auto simp: handle_stripe_event_def split: prod.splits sum.splits)
qed

lemma webhook_db_ok:
  assumes ok: "db_ok s"
  shows "db_ok (snd (StripeWebhookView_post c secret now body rq s))"
proof -
  obtain resp s' where run: "StripeWebhookView_post c secret now body rq s = (resp, s')" by fastforce
  have uniq: "distinct (map we_stripe_event_id (webhook_events s))" using db_okD(9) [OF ok] by (simp add: tbl_ok_def)
  from run uniq have "db_ok s'"
  proof (cases rule: webhook_cases)
    case (recorded i ty obj)
    have "tbl_ok we_stripe_event_id (webhook_events s @ [\<lparr>we_stripe_event_id = i, we_event_type = ty,
        we_processed_at = now, we_payload = obj\<rparr>])"
      using uniq recorded(2) by (simp add: tbl_ok_def)
    with recorded(3) show ?thesis using db_ok_webhooks [OF ok] db_ok_queue by metis
  qed (use ok in simp)
  with run show ?thesis by simp
qed


subsection \<open>The sample database\<close>

lemma alice_bob_normal: "user_row alice" "user_row bob"
  by (simp_all add: user_row_def, code_simp+)

lemma db_ok_demo: "db_ok demo_db"
  using alice_bob_normal
  by (simp add: db_ok_def users_ok_def tenancy_ok_def totps_ok_def invitations_ok_def subs_ok_def tbl_ok_def tenant_of_def)

end
