(* ===== verification/Seeding.thy ===== *)
theory Seeding
  imports Integrity
begin

text \<open>
  \<open>services/demo/seed_service.py\<close> with \<open>examples/demo_config.py\<close> and the command \<open>seed_demo\<close>: the demo tenants, their domains
  and the demo administrator, created or brought up to date in one transaction. The thread-local
  flag the service sets is read by the tests only and left out.
\<close>

subsection \<open>Demo data\<close>

record demo_tenant_spec =
  ds_id :: uuid
  ds_name :: string
  ds_slug :: string

definition TENANT1_ID :: uuid where "TENANT1_ID = ''00000000-0000-4000-8000-000000000001''"

definition TENANT2_ID :: uuid where "TENANT2_ID = ''00000000-0000-4000-8000-000000000002''"

definition DEMO_TENANTS :: "demo_tenant_spec list" where
  "DEMO_TENANTS =
     [\<lparr>ds_id = TENANT1_ID, ds_name = ''Tenant One'', ds_slug = ''tenant1''\<rparr>,
      \<lparr>ds_id = TENANT2_ID, ds_name = ''Tenant Two'', ds_slug = ''tenant2''\<rparr>]"

record demo_admin_spec =
  da_email :: string
  da_username :: string
  da_password :: string
  da_first_name :: string
  da_last_name :: string
  da_role :: string

definition DEMO_ADMIN :: demo_admin_spec where
  "DEMO_ADMIN = \<lparr>da_email = ''admin'' @ [CHR 0x40] @ ''tenant1.localhost'',
     da_username = ''admin'' @ [CHR 0x40] @ ''tenant1.localhost'', da_password = ''password123'',
     da_first_name = ''Demo'', da_last_name = ''Admin'', da_role = ''admin''\<rparr>"

subsection \<open>DemoSeedService\<close>

text \<open>\<open>Tenant.objects.update_or_create(id=..., defaults=...)\<close> and
  \<open>Domain.objects.update_or_create(tenant=..., domain=..., defaults=...)\<close>; the unique columns raise.\<close>

definition put_tenant :: "instant \<Rightarrow> demo_tenant_spec \<Rightarrow> (db, tenant) op" where
  "put_tenant now spec s =
     (case qs_get (\<lambda>t. tn_id t = ds_id spec) (tenants s) of
        Inr t \<Rightarrow>
          if qs_exists (\<lambda>x. tn_id x \<noteq> ds_id spec \<and> (tn_slug x = ds_slug spec \<or> tn_schema_name x = ds_slug spec))
               (tenants s)
          then (Inl IntegrityError, s)
          else (let t' = t\<lparr>tn_name := ds_name spec, tn_slug := ds_slug spec, tn_schema_name := ds_slug spec,
                           tn_updated_at := now\<rparr>
                in (Inr t', s\<lparr>tenants := qs_update (\<lambda>x. tn_id x = ds_id spec) (\<lambda>_. t') (tenants s)\<rparr>))
      | Inl e \<Rightarrow>
          if e = DoesNotExist
          then insert_tenant \<lparr>tn_id = ds_id spec, tn_name = ds_name spec, tn_slug = ds_slug spec,
                 tn_schema_name = ds_slug spec, tn_is_active = True, tn_created_at = now, tn_updated_at = now\<rparr> s
          else (Inl e, s))"

definition put_domain :: "uuid \<Rightarrow> uuid \<Rightarrow> string \<Rightarrow> (db, domain) op" where
  "put_domain new_id tenant_id host s =
     (let P = (\<lambda>d. dm_tenant d = tenant_id \<and> dm_domain d = host)
      in case qs_get P (domains s) of
           Inr d \<Rightarrow> (Inr (d\<lparr>dm_is_primary := True\<rparr>),
                     s\<lparr>domains := qs_update P (\<lambda>d. d\<lparr>dm_is_primary := True\<rparr>) (domains s)\<rparr>)
         | Inl e \<Rightarrow>
             if e = DoesNotExist
             then insert_domain \<lparr>dm_id = new_id, dm_tenant = tenant_id, dm_domain = host, dm_is_primary = True\<rparr> s
             else (Inl e, s))"

text \<open>The loop of \<open>_ensure_tenants\<close>; each round comes with the id of a domain it may create.\<close>

fun ensure_tenants :: "instant \<Rightarrow> (demo_tenant_spec \<times> uuid) list \<Rightarrow> (db, tenant list) op" where
  "ensure_tenants now [] s = (Inr [], s)"
| "ensure_tenants now ((spec, new_id) # specs) s =
     (case put_tenant now spec s of
        (Inl e, s1) \<Rightarrow> (Inl e, s1)
      | (Inr t, s1) \<Rightarrow>
          (case put_domain new_id (tn_id t) (ds_slug spec @ ''.localhost'') s1 of
             (Inl e, s2) \<Rightarrow> (Inl e, s2)
           | (Inr _, s2) \<Rightarrow>
               (case ensure_tenants now specs s2 of
                  (Inl e, s3) \<Rightarrow> (Inl e, s3) | (Inr ts, s3) \<Rightarrow> (Inr (t # ts), s3))))"

definition ensure_admin_user :: "(string \<Rightarrow> string) \<Rightarrow> (db, user) op" where
  "ensure_admin_user make_password s =
     (case (case qs_get (\<lambda>u. us_username u = da_username DEMO_ADMIN) (users s) of
              Inr u \<Rightarrow> (Inr u, s)
            | Inl e \<Rightarrow>
                if e = DoesNotExist
                then insert_user \<lparr>us_pk = 0, us_username = da_username DEMO_ADMIN, us_email = da_email DEMO_ADMIN,
                       us_first_name = da_first_name DEMO_ADMIN, us_last_name = da_last_name DEMO_ADMIN,
                       us_password = [], us_is_active = True, us_is_superuser = False\<rparr> s
                else (Inl e, s)) of
        (Inl e, s1) \<Rightarrow> (Inl e, s1)
      | (Inr u, s1) \<Rightarrow>
          (let u' = u\<lparr>us_email := da_email DEMO_ADMIN, us_first_name := da_first_name DEMO_ADMIN,
                      us_last_name := da_last_name DEMO_ADMIN,
                      us_password := make_password (da_password DEMO_ADMIN)\<rparr>
           in (Inr u', s1\<lparr>users := qs_update (\<lambda>x. us_pk x = us_pk u) (\<lambda>_. u') (users s1)\<rparr>)))"

text \<open>\<open>domain_ids\<close> and \<open>role_id\<close> are the random ids of rows that may be created.\<close>

definition seed :: "(string \<Rightarrow> string) \<Rightarrow> instant \<Rightarrow> uuid \<times> uuid \<Rightarrow> uuid \<Rightarrow> (db, tenant list \<times> user) op" where
  "seed make_password now domain_ids role_id =
     atomic (\<lambda>s.
       case ensure_tenants now (zip DEMO_TENANTS [fst domain_ids, snd domain_ids]) s of
         (Inl e, s1) \<Rightarrow> (Inl e, s1)
       | (Inr ts, s1) \<Rightarrow>
           (case ensure_admin_user make_password s1 of
              (Inl e, s2) \<Rightarrow> (Inl e, s2)
            | (Inr admin, s2) \<Rightarrow>
                (case find (\<lambda>t. tn_slug t = ''tenant1'') ts of
                   None \<Rightarrow> (Inl StopIteration, s2)
                 | Some tenant1 \<Rightarrow>
                     (case assign_role now role_id admin tenant1 ''admin'' None s2 of
                        (Inl e, s3) \<Rightarrow> (Inl e, s3) | (Inr _, s3) \<Rightarrow> (Inr (ts, admin), s3)))))"


text \<open>The command \<open>seed_demo\<close>: what it prints; an error of the service ends it.\<close>

definition seed_demo_lines :: "tenant list \<Rightarrow> string list" where
  "seed_demo_lines ts =
     [''Demo data seeded successfully.'', [], ''Tenants:''] @
     map (\<lambda>t. ''  - '' @ tn_name t @ '' (slug='' @ tn_slug t @ '', id='' @ tn_id t @ '')'') ts @
     [[], ''Demo admin (Tenant One):'', ''  username: '' @ da_username DEMO_ADMIN,
      ''  password: '' @ da_password DEMO_ADMIN, [],
      ''Next: open http://localhost:8000/api/docs/ and try the demo examples.'']"

definition seed_demo :: "(string \<Rightarrow> string) \<Rightarrow> instant \<Rightarrow> uuid \<times> uuid \<Rightarrow> uuid \<Rightarrow> (db, string list) op" where
  "seed_demo make_password now domain_ids role_id s =
     (case seed make_password now domain_ids role_id s of
        (Inl e, s') \<Rightarrow> (Inl e, s') | (Inr (ts, _), s') \<Rightarrow> (Inr (seed_demo_lines ts), s'))"

subsection \<open>Lemmas\<close>

definition seeded_tenant :: "demo_tenant_spec \<Rightarrow> db \<Rightarrow> bool" where
  "seeded_tenant spec s \<longleftrightarrow>
     (\<exists>t\<in>set (tenants s). tn_id t = ds_id spec \<and> tn_name t = ds_name spec \<and> tn_slug t = ds_slug spec \<and>
        tn_schema_name t = ds_slug spec) \<and>
     (\<exists>d\<in>set (domains s). dm_tenant d = ds_id spec \<and> dm_domain d = ds_slug spec @ ''.localhost'' \<and> dm_is_primary d)"

text \<open>The tables of tenants other than those with the given ids, and nothing else, stay.\<close>

definition only_tenants :: "uuid set \<Rightarrow> db \<Rightarrow> db \<Rightarrow> bool" where
  "only_tenants A s s' \<longleftrightarrow> s'\<lparr>tenants := [], domains := []\<rparr> = s\<lparr>tenants := [], domains := []\<rparr> \<and>
     (\<forall>x. tn_id x \<notin> A \<longrightarrow> (x \<in> set (tenants s') \<longleftrightarrow> x \<in> set (tenants s))) \<and>
     (\<forall>d. dm_tenant d \<notin> A \<longrightarrow> (d \<in> set (domains s') \<longleftrightarrow> d \<in> set (domains s)))"

lemma only_tenants_refl [simp]: "only_tenants A s s"
  by (simp add: only_tenants_def)

lemma only_tenants_trans:
  assumes "only_tenants A a b" "only_tenants B b c"
  shows "only_tenants (A \<union> B) a c"
  using assms by (simp add: only_tenants_def)

lemma only_tenants_frame:
  "only_tenants A s s' \<Longrightarrow> users s' = users s \<and> roles s' = roles s \<and> invitations s' = invitations s \<and>
     next_user_pk s' = next_user_pk s \<and> audit_logs s' = audit_logs s \<and> queue s' = queue s"
  by (cases s; cases s') (simp add: only_tenants_def)

lemma only_tenants_seeded:
  "\<lbrakk>only_tenants A s s'; ds_id spec \<notin> A; seeded_tenant spec s\<rbrakk> \<Longrightarrow> seeded_tenant spec s'"
  unfolding only_tenants_def seeded_tenant_def by metis

lemma put_tenant_effect:
  assumes ok: "db_ok s" and run: "put_tenant now spec s = (r, s')"
  shows "(r = Inl IntegrityError \<and> s' = s) \<or>
    (\<exists>t. r = Inr t \<and> t \<in> set (tenants s') \<and> tn_id t = ds_id spec \<and> tn_name t = ds_name spec \<and>
       tn_slug t = ds_slug spec \<and> tn_schema_name t = ds_slug spec \<and> db_ok s' \<and> only_tenants {ds_id spec} s s')"
proof -
  have ten: "tenancy_ok s" using db_okD(2) [OF ok] .
  then have "distinct (map tn_id (tenants s))" by (simp add: tenancy_ok_def tbl_ok_def)
  then show ?thesis
  proof (cases rule: qs_get_key_cases [where k = "ds_id spec"])
    case None
    let ?t = "\<lparr>tn_id = ds_id spec, tn_name = ds_name spec, tn_slug = ds_slug spec,
       tn_schema_name = ds_slug spec, tn_is_active = True, tn_created_at = now, tn_updated_at = now\<rparr>"
    show ?thesis
    proof (cases "r = Inl IntegrityError \<and> s' = s")
      case False
      with None run have s': "r = Inr ?t" "s' = s\<lparr>tenants := tenants s @ [?t], domains := domains s\<rparr>"
        and free: "\<forall>x\<in>set (tenants s). tn_id x \<noteq> ds_id spec \<and> tn_slug x \<noteq> ds_slug spec \<and> tn_schema_name x \<noteq> ds_slug spec"
        by (auto simp: put_tenant_def insert_tenant_def split: if_splits)
      have "tenancy_ok s'" using ten free unfolding s'(2)
        by (auto simp: tenancy_ok_def tbl_ok_def tenant_of_def list_all_iff find_None_iff)
      then have "db_ok s'" unfolding s'(2) by (rule db_ok_tenants [OF ok]) (auto simp: tenant_ids_def)
      moreover have "only_tenants {ds_id spec} s s'" by (auto simp: only_tenants_def s'(2))
      ultimately show ?thesis using s' by simp
    qed simp
  next
    case (One t)
    let ?t = "t\<lparr>tn_name := ds_name spec, tn_slug := ds_slug spec, tn_schema_name := ds_slug spec, tn_updated_at := now\<rparr>"
    let ?ts = "qs_update (\<lambda>x. tn_id x = ds_id spec) (\<lambda>_. ?t) (tenants s)"
    show ?thesis
    proof (cases "r = Inl IntegrityError \<and> s' = s")
      case False
      with One run have s': "r = Inr ?t" "s' = s\<lparr>tenants := ?ts, domains := domains s\<rparr>"
        and free: "\<forall>x\<in>set (tenants s). tn_id x \<noteq> ds_id spec \<longrightarrow> tn_slug x \<noteq> ds_slug spec \<and> tn_schema_name x \<noteq> ds_slug spec"
        by (auto simp: put_tenant_def Let_def split: if_splits)
      have ids: "map tn_id ?ts = map tn_id (tenants s)" using One(3) by (intro map_qs_update) simp
      have "tbl_ok tn_id ?ts" using ten ids by (simp add: tenancy_ok_def tbl_ok_def)
      moreover have "tbl_ok tn_slug ?ts" "tbl_ok tn_schema_name ?ts"
        using ten free One(3) by (auto simp: tenancy_ok_def intro!: tbl_ok_replace [where key = tn_id])
      moreover have img: "tn_id ` set ?ts = tn_id ` set (tenants s)" using ids by (metis list.set_map)
      then have "tenant_ids s' = tenant_ids s" by (simp add: tenant_ids_def s'(2) del: set_qs_update)
      then have "tenant_of s' k \<noteq> None \<longleftrightarrow> tenant_of s k \<noteq> None" for k by (metis tenant_ids_of)
      ultimately have "tenancy_ok s'" using ten
        unfolding tenancy_ok_def by (simp add: s'(2) list_all_iff del: set_qs_update)
      then have "db_ok s'" unfolding s'(2)
        by (rule db_ok_tenants [OF ok]) (use img in \<open>simp add: tenant_ids_def del: set_qs_update\<close>)
      moreover have "only_tenants {ds_id spec} s s'" using One(3) by (auto simp: only_tenants_def s'(2) image_iff)
      moreover have "?t \<in> set ?ts" using One(2,3) by (auto simp: image_iff intro!: bexI [of _ t])
      ultimately show ?thesis using s' One(3) by simp
    qed simp
  qed
qed


lemma put_domain_effect:
  assumes ok: "db_ok s" and t: "i \<in> tenant_ids s" and run: "put_domain new_id i host s = (r, s')"
  shows "(r = Inl IntegrityError \<and> s' = s) \<or>
    (\<exists>d. r = Inr d \<and> (\<exists>x\<in>set (domains s'). dm_tenant x = i \<and> dm_domain x = host \<and> dm_is_primary x) \<and>
       tenants s' = tenants s \<and> db_ok s' \<and> only_tenants {i} s s')"
proof -
  let ?P = "\<lambda>d. dm_tenant d = i \<and> dm_domain d = host"
  have ten: "tenancy_ok s" using db_okD(2) [OF ok] .
  have T: "tenant_ids s \<subseteq> tn_id ` set (tenants s)" by (simp add: tenant_ids_def)
  have tof: "tenant_of (s\<lparr>tenants := tenants s, domains := ds\<rparr>) = tenant_of s" for ds by (simp add: tenant_of_def fun_eq_iff)
  from ten have dist: "distinct (map dm_domain (domains s))" by (simp add: tenancy_ok_def tbl_ok_def)
  have "qs_get ?P (domains s) = Inl DoesNotExist \<or> (\<exists>d. qs_get ?P (domains s) = Inr d \<and> d \<in> set (domains s) \<and> ?P d)"
    by (rule qs_get_unique_cases [OF dist, of ?P]) auto
  then consider (None) "qs_get ?P (domains s) = Inl DoesNotExist"
    | (One) d where "qs_get ?P (domains s) = Inr d" "d \<in> set (domains s)" "?P d" by blast
  then show ?thesis
  proof cases
    case None
    let ?d = "\<lparr>dm_id = new_id, dm_tenant = i, dm_domain = host, dm_is_primary = True\<rparr>"
    show ?thesis
    proof (cases "r = Inl IntegrityError \<and> s' = s")
      case False
      with None run have s': "r = Inr ?d" "s' = s\<lparr>tenants := tenants s, domains := domains s @ [?d]\<rparr>"
        and free: "\<forall>x\<in>set (domains s). dm_id x \<noteq> new_id \<and> dm_domain x \<noteq> host"
        by (auto simp: put_domain_def insert_domain_def Let_def split: if_splits)
      have "tenancy_ok s'" using ten free t unfolding s'(2) tenancy_ok_def tof
        by (auto simp: tbl_ok_def tenant_ids_of)
      then have "db_ok s'" unfolding s'(2) by (rule db_ok_tenants [OF ok]) (rule T)
      moreover have "only_tenants {i} s s'" by (auto simp: only_tenants_def s'(2))
      ultimately show ?thesis using s' by simp
    qed simp
  next
    case (One d)
    let ?ds = "qs_update ?P (\<lambda>d. d\<lparr>dm_is_primary := True\<rparr>) (domains s)"
    from One run have s': "r = Inr (d\<lparr>dm_is_primary := True\<rparr>)" "s' = s\<lparr>tenants := tenants s, domains := ?ds\<rparr>"
      by (auto simp: put_domain_def Let_def)
    have "tenancy_ok s'" using ten unfolding s'(2) tenancy_ok_def tof
      by (auto simp: list_all_iff intro!: tbl_ok_update)
    then have "db_ok s'" unfolding s'(2) by (rule db_ok_tenants [OF ok]) (rule T)
    moreover have "only_tenants {i} s s'" by (auto simp: only_tenants_def s'(2) image_iff)
    moreover have "\<exists>x\<in>set ?ds. dm_tenant x = i \<and> dm_domain x = host \<and> dm_is_primary x"
      using One(2,3) by (intro bexI [of _ "d\<lparr>dm_is_primary := True\<rparr>"]) (auto simp: image_iff)
    ultimately show ?thesis using s' by simp
  qed
qed

lemma ensure_tenants_effect:
  assumes "db_ok s" and "distinct (map (ds_id \<circ> fst) specs)" and "ensure_tenants now specs s = (r, s')"
  shows "r = Inl IntegrityError \<or>
    (\<exists>ts. r = Inr ts \<and> map tn_id ts = map (ds_id \<circ> fst) specs \<and> map tn_slug ts = map (ds_slug \<circ> fst) specs \<and>
       (\<forall>p\<in>set specs. seeded_tenant (fst p) s') \<and> db_ok s' \<and> only_tenants (set (map (ds_id \<circ> fst) specs)) s s')"
  using assms
proof (induction now specs s arbitrary: r s' rule: ensure_tenants.induct)
  case (1 now s)
  then show ?case by auto
next
  case (2 now spec new_id specs s)
  obtain r1 s1 where 1: "put_tenant now spec s = (r1, s1)" by fastforce
  show ?case
  proof (cases "r1 = Inl IntegrityError")
    case True
    with 1 2(4) show ?thesis by auto
  next
    case False
    with put_tenant_effect [OF 2(2) 1] obtain t where t: "r1 = Inr t" "t \<in> set (tenants s1)" "tn_id t = ds_id spec"
        "tn_name t = ds_name spec" "tn_slug t = ds_slug spec" "tn_schema_name t = ds_slug spec"
      and ok1: "db_ok s1" and o1: "only_tenants {ds_id spec} s s1" by blast
    obtain r2 s2 where d: "put_domain new_id (tn_id t) (ds_slug spec @ ''.localhost'') s1 = (r2, s2)" by fastforce
    show ?thesis
    proof (cases "r2 = Inl IntegrityError")
      case True
      with 1 t(1) d 2(4) show ?thesis by auto
    next
      case False
      have "tn_id t \<in> tenant_ids s1" using t(2) by (simp add: tenant_ids_def)
      with put_domain_effect [OF ok1 _ d] False t(3) obtain x where x: "r2 = Inr x"
        and dom: "\<exists>y\<in>set (domains s2). dm_tenant y = ds_id spec \<and> dm_domain y = ds_slug spec @ ''.localhost'' \<and> dm_is_primary y"
        and ten: "tenants s2 = tenants s1" and ok2: "db_ok s2" and o2: "only_tenants {ds_id spec} s1 s2" by auto
      have this_one: "seeded_tenant spec s2" using t dom ten by (auto simp: seeded_tenant_def)
      obtain r3 s3 where rest: "ensure_tenants now specs s2 = (r3, s3)" by fastforce
      note IH = 2(1) [OF 1 [symmetric] t(1) d [symmetric] x ok2 _ rest]
      show ?thesis
      proof (cases "r3 = Inl IntegrityError")
        case True
        with 1 t(1) d x rest 2(4) show ?thesis by auto
      next
        case False
        with IH 2(3) obtain ts where ts: "r3 = Inr ts" "map tn_id ts = map (ds_id \<circ> fst) specs"
            "map tn_slug ts = map (ds_slug \<circ> fst) specs" "\<forall>p\<in>set specs. seeded_tenant (fst p) s3" "db_ok s3"
          and o3: "only_tenants (set (map (ds_id \<circ> fst) specs)) s2 s3" by auto
        have "seeded_tenant spec s3"
          by (rule only_tenants_seeded [OF o3 _ this_one]) (use 2(3) in auto)
        moreover have "only_tenants (set (map (ds_id \<circ> fst) ((spec, new_id) # specs))) s s3"
          using only_tenants_trans [OF only_tenants_trans [OF o1 o2] o3] by simp
        ultimately show ?thesis using 1 t(1,3,5) d x rest ts 2(4) by auto
      qed
    qed
  qed
qed


text \<open>The address of the demo administrator is nobody else's.\<close>

definition demo_email_free :: "db \<Rightarrow> bool" where
  "demo_email_free s \<longleftrightarrow>
     (\<forall>u\<in>set (users s). us_email u = da_email DEMO_ADMIN \<longrightarrow> us_username u = da_username DEMO_ADMIN)"

definition demo_admin_row :: "(string \<Rightarrow> string) \<Rightarrow> user \<Rightarrow> bool" where
  "demo_admin_row make_password u \<longleftrightarrow>
     us_username u = da_username DEMO_ADMIN \<and> us_email u = da_email DEMO_ADMIN \<and>
     us_first_name u = da_first_name DEMO_ADMIN \<and> us_last_name u = da_last_name DEMO_ADMIN \<and>
     us_password u = make_password (da_password DEMO_ADMIN)"

lemma demo_email_normal: "strip_lower (da_email DEMO_ADMIN) = da_email DEMO_ADMIN"
  by code_simp

lemma set_admin_effect:
  assumes ok: "db_ok s" and free: "demo_email_free s" and u: "u \<in> set (users s)" "us_username u = da_username DEMO_ADMIN"
    and u': "u' = u\<lparr>us_email := da_email DEMO_ADMIN, us_first_name := da_first_name DEMO_ADMIN,
       us_last_name := da_last_name DEMO_ADMIN, us_password := mk (da_password DEMO_ADMIN)\<rparr>"
    and s': "s' = s\<lparr>users := qs_update (\<lambda>x. us_pk x = us_pk u) (\<lambda>_. u') (users s)\<rparr>"
  shows "db_ok s' \<and> u' \<in> set (users s') \<and> demo_admin_row mk u' \<and> us_pk u' = us_pk u"
proof -
  have name: "us_username x \<noteq> da_username DEMO_ADMIN" if "x \<in> set (users s)" "us_pk x \<noteq> us_pk u" for x
    using db_okD(1) [OF ok] that u by (metis users_ok_def tbl_ok_def distinct_map inj_onD)
  have "db_ok s'"
    unfolding s'
  proof (rule db_ok_update_user [OF ok])
    fix y assume "y \<in> set (users s)" "us_pk y = us_pk u"
    show "us_pk u' = us_pk u \<and> strip_lower (us_email u') = us_email u' \<and>
       (\<forall>x\<in>set (users s). us_pk x \<noteq> us_pk u \<longrightarrow> us_username x \<noteq> us_username u' \<and> us_email x \<noteq> us_email u')"
      using name free u(2) by (auto simp: u' demo_email_normal demo_email_free_def)
  qed
  moreover have "u' \<in> set (users s')" using u(1) by (force simp: s')
  ultimately show ?thesis using u(2) by (simp add: u' demo_admin_row_def)
qed

lemma ensure_admin_effect:
  assumes ok: "db_ok s" and free: "demo_email_free s" and run: "ensure_admin_user mk s = (r, s')"
  shows "\<exists>u. r = Inr u \<and> u \<in> set (users s') \<and> demo_admin_row mk u \<and> db_ok s' \<and>
    s'\<lparr>users := [], next_user_pk := 0\<rparr> = s\<lparr>users := [], next_user_pk := 0\<rparr> \<and>
    (us_pk u = next_user_pk s \<or> us_pk u \<in> user_pks s)"
proof -
  let ?set = "\<lambda>u. u\<lparr>us_email := da_email DEMO_ADMIN, us_first_name := da_first_name DEMO_ADMIN,
       us_last_name := da_last_name DEMO_ADMIN, us_password := mk (da_password DEMO_ADMIN)\<rparr>"
  from db_okD(1) [OF ok] have dist: "distinct (map us_username (users s))" by (simp add: users_ok_def tbl_ok_def)
  then show ?thesis
  proof (cases rule: qs_get_key_cases [where k = "da_username DEMO_ADMIN"])
    case None
    let ?u = "\<lparr>us_pk = next_user_pk s, us_username = da_username DEMO_ADMIN, us_email = da_email DEMO_ADMIN,
       us_first_name = da_first_name DEMO_ADMIN, us_last_name = da_last_name DEMO_ADMIN,
       us_password = [], us_is_active = True, us_is_superuser = False\<rparr>"
    let ?s = "s\<lparr>users := users s @ [?u], next_user_pk := next_user_pk s + 1\<rparr>"
    have fresh: "\<forall>x\<in>set (users s). us_username x \<noteq> da_username DEMO_ADMIN" using None(2) by (metis imageI)
    then have ok1: "db_ok ?s"
      using free by (intro db_ok_new_user [OF ok]) (auto simp: demo_email_normal demo_email_free_def)
    have free1: "demo_email_free ?s" using free by (auto simp: demo_email_free_def)
    have s': "r = Inr (?set ?u)" "s' = ?s\<lparr>users := qs_update (\<lambda>x. us_pk x = us_pk ?u) (\<lambda>_. ?set ?u) (users ?s)\<rparr>"
      using None run fresh by (auto simp: ensure_admin_user_def insert_user_def Let_def)
    have "?u \<in> set (users ?s)" by simp
    from set_admin_effect [where s = ?s and u = ?u and mk = mk and s' = s' and u' = "?set ?u", OF ok1 free1 this _ refl s'(2)] s'(1)
    show ?thesis by (simp add: s'(2))
  next
    case (One u)
    have s': "r = Inr (?set u)" "s' = s\<lparr>users := qs_update (\<lambda>x. us_pk x = us_pk u) (\<lambda>_. ?set u) (users s)\<rparr>"
      using One run by (auto simp: ensure_admin_user_def Let_def)
    from set_admin_effect [where mk = mk and u' = "?set u" and s' = s', OF ok free One(2,3) refl s'(2)] s'(1) One(2) show ?thesis
      by (simp add: s'(2) user_pks_def)
  qed
qed


lemma demo_specs: "map (ds_id \<circ> fst) (zip DEMO_TENANTS [a, b]) = [TENANT1_ID, TENANT2_ID]"
  "map (ds_slug \<circ> fst) (zip DEMO_TENANTS [a, b]) = [''tenant1'', ''tenant2'']"
  "fst ` set (zip DEMO_TENANTS [a, b]) = set DEMO_TENANTS" "TENANT1_ID \<noteq> TENANT2_ID"
  by (simp_all add: DEMO_TENANTS_def TENANT1_ID_def TENANT2_ID_def)

definition seeded :: "(string \<Rightarrow> string) \<Rightarrow> db \<Rightarrow> bool" where
  "seeded make_password s \<longleftrightarrow>
     (\<forall>spec\<in>set DEMO_TENANTS. seeded_tenant spec s) \<and>
     (\<exists>u\<in>set (users s). demo_admin_row make_password u \<and> role_map s (us_pk u, TENANT1_ID) = Some ''admin'')"

lemma seeded_tenant_eq:
  "\<lbrakk>tenants s' = tenants s; domains s' = domains s\<rbrakk> \<Longrightarrow> seeded_tenant spec s' = seeded_tenant spec s"
  by (simp add: seeded_tenant_def)

text \<open>Every run of the service: it fails as a whole on a taken slug or domain, or it seeds.\<close>

lemma seed_effect:
  assumes ok: "db_ok s" and free: "demo_email_free s" and run: "seed mk now dids rid s = (r, s')"
  shows "(r = Inl IntegrityError \<and> s' = s) \<or>
    (\<exists>ts u s1 s2. r = Inr (ts, u) \<and> map tn_id ts = [TENANT1_ID, TENANT2_ID] \<and> u \<in> set (users s') \<and>
       demo_admin_row mk u \<and> db_ok s' \<and> seeded mk s' \<and> only_tenants {TENANT1_ID, TENANT2_ID} s s1 \<and>
       s2\<lparr>users := [], next_user_pk := 0\<rparr> = s1\<lparr>users := [], next_user_pk := 0\<rparr> \<and>
       ensure_tenants now (zip DEMO_TENANTS [fst dids, snd dids]) s = (Inr ts, s1) \<and>
       ensure_admin_user mk s1 = (Inr u, s2) \<and>
       role_map s' = (role_map s)((us_pk u, TENANT1_ID) \<mapsto> ''admin'') \<and>
       s' = AuditService_log now ''role_assigned'' None (Some TENANT1_ID) None ''User'' (str_nat (us_pk u))
         [(''role'', ''admin''), (''target_email'', us_email u)] (s2\<lparr>roles := roles s'\<rparr>))"
proof -
  let ?specs = "zip DEMO_TENANTS [fst dids, snd dids]"
  obtain r1 s1 where 1: "ensure_tenants now ?specs s = (r1, s1)" by fastforce
  have dist: "distinct (map (ds_id \<circ> fst) ?specs)" unfolding demo_specs using demo_specs(4) by simp
  show ?thesis
  proof (cases "r1 = Inl IntegrityError")
    case True
    with 1 run show ?thesis by (simp add: seed_def atomic_def)
  next
    case False
    with ensure_tenants_effect [OF ok dist 1] obtain ts where ts: "r1 = Inr ts" "map tn_id ts = [TENANT1_ID, TENANT2_ID]"
        "map tn_slug ts = [''tenant1'', ''tenant2'']" "\<forall>p\<in>set ?specs. seeded_tenant (fst p) s1" "db_ok s1"
      and o1: "only_tenants {TENANT1_ID, TENANT2_ID} s s1" unfolding demo_specs by auto
    from ts(2,3) obtain t1 t2 where t1: "ts = [t1, t2]" "tn_id t1 = TENANT1_ID" "tn_slug t1 = ''tenant1''" by (cases ts) auto
    have found: "find (\<lambda>t. tn_slug t = ''tenant1'') ts = Some t1" using t1 by simp
    note fr = only_tenants_frame [OF o1]
    have "demo_email_free s1" using free fr by (simp add: demo_email_free_def)
    obtain r2 s2 where 2: "ensure_admin_user mk s1 = (r2, s2)" by fastforce
    from ensure_admin_effect [OF ts(5) \<open>demo_email_free s1\<close> 2] obtain u where u: "r2 = Inr u" "u \<in> set (users s2)"
        "demo_admin_row mk u" "db_ok s2"
      and o2: "s2\<lparr>users := [], next_user_pk := 0\<rparr> = s1\<lparr>users := [], next_user_pk := 0\<rparr>" by blast
    have fr2: "tenants s2 = tenants s1" "domains s2 = domains s1" "roles s2 = roles s1"
      using o2 by (cases s1; cases s2; simp)+
    obtain r3 s3 where 3: "assign_role now rid u t1 ''admin'' None s2 = (r3, s3)" by fastforce
    have valid: "''admin'' \<in> set RoleChoices_values" by (simp add: RoleChoices_values_def)
    obtain obj where obj: "r3 = Inr obj" "role_map s3 = (role_map s2)((us_pk u, tn_id t1) \<mapsto> ''admin'')"
      and s3: "s3 = AuditService_log now ''role_assigned'' None (Some (tn_id t1)) None ''User'' (str_nat (us_pk u))
         [(''role'', ''admin''), (''target_email'', us_email u)] (s2\<lparr>roles := roles s3\<rparr>)"
      using 3 db_okD(3) [OF u(4)] valid by (cases rule: assign_role_cases) auto
    have s': "r = Inr (ts, u)" "s' = s3"
      using run 1 2 3 ts(1) u(1) obj(1) found by (simp_all add: seed_def atomic_def)
    have same: "users s3 = users s2" "tenants s3 = tenants s2" "domains s3 = domains s2"
      by (subst s3, simp)+
    have "tenant_ids s2 = tenant_ids s1" using fr2 by (simp add: tenant_ids_def)
    moreover have "TENANT1_ID \<in> tenant_ids s1"
      using ts(4) by (auto simp: DEMO_TENANTS_def seeded_tenant_def tenant_ids_def) (metis imageI)
    ultimately have "db_ok s3"
      using assign_role_db_ok [OF u(4), of u t1 None now rid "''admin''"] 3 u(2) t1(2) by (auto simp: user_pks_def)
    moreover have "seeded mk s3"
    proof -
      have "seeded_tenant spec s3" if "spec \<in> set DEMO_TENANTS" for spec
        using ts(4) that demo_specs(3) [of "fst dids" "snd dids"] seeded_tenant_eq [of s3 s1 spec] same fr2
        by (metis (no_types, lifting) imageE)
      with u(2,3) obj(2) t1(2) same(1) show ?thesis by (auto simp: seeded_def)
    qed
    moreover have "role_map s3 = (role_map s)((us_pk u, TENANT1_ID) \<mapsto> ''admin'')"
      using obj(2) t1(2) role_map_roles [of s2 s] fr2(3) fr by simp
    ultimately show ?thesis
      using s' s3 ts(1,2) 1 2 u o1 o2 same t1(2) by (intro disjI2 exI conjI) (assumption | simp)+
  qed
qed


lemma seed_cases [consumes 3, case_names failed seeded]:
  assumes ok: "db_ok s" and free: "demo_email_free s" and run: "seed mk now dids rid s = (r, s')"
    and failed: "r = Inl IntegrityError \<Longrightarrow> s' = s \<Longrightarrow> P"
    and ok': "\<And>ts u s1 s2. r = Inr (ts, u) \<Longrightarrow> map tn_id ts = [TENANT1_ID, TENANT2_ID] \<Longrightarrow> u \<in> set (users s') \<Longrightarrow>
       demo_admin_row mk u \<Longrightarrow> db_ok s' \<Longrightarrow> seeded mk s' \<Longrightarrow> only_tenants {TENANT1_ID, TENANT2_ID} s s1 \<Longrightarrow>
       s2\<lparr>users := [], next_user_pk := 0\<rparr> = s1\<lparr>users := [], next_user_pk := 0\<rparr> \<Longrightarrow>
       ensure_tenants now (zip DEMO_TENANTS [fst dids, snd dids]) s = (Inr ts, s1) \<Longrightarrow>
       ensure_admin_user mk s1 = (Inr u, s2) \<Longrightarrow>
       role_map s' = (role_map s)((us_pk u, TENANT1_ID) \<mapsto> ''admin'') \<Longrightarrow>
       s' = AuditService_log now ''role_assigned'' None (Some TENANT1_ID) None ''User'' (str_nat (us_pk u))
         [(''role'', ''admin''), (''target_email'', us_email u)] (s2\<lparr>roles := roles s'\<rparr>) \<Longrightarrow> P"
  shows P
  using seed_effect [OF ok free run]
  by (elim disjE exE conjE) (rule failed, assumption+, rule ok', assumption+)

text \<open>On seeded data a run only touches timestamps of the tenants.\<close>

definition unstamped :: "tenant \<Rightarrow> tenant" where "unstamped t = t\<lparr>tn_updated_at := 0\<rparr>"

definition restamped :: "db \<Rightarrow> db \<Rightarrow> bool" where
  "restamped s s' \<longleftrightarrow> s'\<lparr>tenants := []\<rparr> = s\<lparr>tenants := []\<rparr> \<and> map unstamped (tenants s') = map unstamped (tenants s)"

lemma restamped_refl [simp]: "restamped s s"
  by (simp add: restamped_def)

lemma restamped_trans: "restamped a b \<Longrightarrow> restamped b c \<Longrightarrow> restamped a c"
  by (simp add: restamped_def)

lemma restamped_frame: "restamped s s' \<Longrightarrow> domains s' = domains s \<and> users s' = users s \<and> roles s' = roles s"
  by (cases s; cases s') (simp add: restamped_def)

lemma restamped_seeded: "restamped s s' \<Longrightarrow> seeded_tenant spec s \<Longrightarrow> seeded_tenant spec s'"
proof -
  assume r: "restamped s s'" and seeded: "seeded_tenant spec s"
  then obtain t where t: "t \<in> set (tenants s)" "tn_id t = ds_id spec" "tn_name t = ds_name spec"
    "tn_slug t = ds_slug spec" "tn_schema_name t = ds_slug spec" by (auto simp: seeded_tenant_def)
  have "unstamped t \<in> unstamped ` set (tenants s')"
    using r t(1) by (metis restamped_def imageI list.set_map)
  then obtain t' where "t' \<in> set (tenants s')" "unstamped t' = unstamped t" by auto
  moreover from this(2) have "tn_id t' = tn_id t" "tn_name t' = tn_name t" "tn_slug t' = tn_slug t"
    "tn_schema_name t' = tn_schema_name t"
    by (cases t; cases t'; simp add: unstamped_def)+
  ultimately have "\<exists>x\<in>set (tenants s'). tn_id x = ds_id spec \<and> tn_name x = ds_name spec \<and> tn_slug x = ds_slug spec \<and>
      tn_schema_name x = ds_slug spec" using t(2-) by (intro bexI [of _ t']) simp_all
  moreover have "domains s' = domains s" using restamped_frame [OF r] by simp
  ultimately show ?thesis using seeded by (simp add: seeded_tenant_def)
qed

lemma put_tenant_seeded:
  assumes ok: "db_ok s" and seeded: "seeded_tenant spec s"
  obtains t s' where "put_tenant now spec s = (Inr t, s')" "tn_id t = ds_id spec" "restamped s s'"
proof -
  from seeded obtain t where t: "t \<in> set (tenants s)" "tn_id t = ds_id spec" "tn_name t = ds_name spec"
    "tn_slug t = ds_slug spec" "tn_schema_name t = ds_slug spec" by (auto simp: seeded_tenant_def)
  have ten: "tenancy_ok s" using db_okD(2) [OF ok] .
  then have get: "qs_get (\<lambda>x. tn_id x = ds_id spec) (tenants s) = Inr t"
    using t(1) unfolding t(2) [symmetric] by (intro qs_get_key) (simp_all add: tenancy_ok_def tbl_ok_def)
  have same: "x = t" if "x \<in> set (tenants s)" "tn_id x = ds_id spec \<or> tn_slug x = ds_slug spec \<or> tn_schema_name x = ds_slug spec" for x
    using ten that t unfolding tenancy_ok_def tbl_ok_def by (metis distinct_map inj_onD)
  then have free: "\<not> qs_exists (\<lambda>x. tn_id x \<noteq> ds_id spec \<and> (tn_slug x = ds_slug spec \<or> tn_schema_name x = ds_slug spec)) (tenants s)"
    using t(2) by auto
  let ?t = "t\<lparr>tn_name := ds_name spec, tn_slug := ds_slug spec, tn_schema_name := ds_slug spec, tn_updated_at := now\<rparr>"
  let ?s = "s\<lparr>tenants := qs_update (\<lambda>x. tn_id x = ds_id spec) (\<lambda>_. ?t) (tenants s)\<rparr>"
  have "unstamped (if tn_id x = ds_id spec then ?t else x) = unstamped x" if "x \<in> set (tenants s)" for x
    using same [OF that] t by (cases t) (auto simp: unstamped_def)
  then have "restamped s ?s" by (simp add: restamped_def qs_update_def)
  with that [of ?t ?s] get free t(2) show ?thesis
    by (simp add: put_tenant_def Let_def del: qs_exists_iff)
qed

lemma put_domain_seeded:
  assumes ok: "db_ok s" and seeded: "seeded_tenant spec s"
  shows "\<exists>d. put_domain new_id (ds_id spec) (ds_slug spec @ ''.localhost'') s = (Inr d, s)"
proof -
  let ?P = "\<lambda>d. dm_tenant d = ds_id spec \<and> dm_domain d = ds_slug spec @ ''.localhost''"
  from seeded obtain d where d: "d \<in> set (domains s)" "?P d" "dm_is_primary d" by (auto simp: seeded_tenant_def)
  have dist: "distinct (map dm_domain (domains s))" using db_okD(2) [OF ok] by (simp add: tenancy_ok_def tbl_ok_def)
  then have same: "x = d" if "x \<in> set (domains s)" "?P x" for x
    using that d by (metis distinct_map inj_onD)
  have "qs_get ?P (domains s) = Inr d"
  proof (rule qs_get_unique_cases [OF dist, of ?P])
    show "dm_domain a = dm_domain b" if "?P a" "?P b" for a b using that by simp
    show "qs_get ?P (domains s) = Inr d" if "\<forall>r\<in>set (domains s). \<not> ?P r" using that d by blast
    show "qs_get ?P (domains s) = Inr d" if "qs_get ?P (domains s) = Inr r" "r \<in> set (domains s)" "?P r" for r
      using that same by metis
  qed
  moreover have "qs_update ?P (\<lambda>d. d\<lparr>dm_is_primary := True\<rparr>) (domains s) = domains s"
    using same d(3) by (auto simp: qs_update_def intro!: map_idI)
  ultimately show ?thesis by (simp add: put_domain_def Let_def)
qed

lemma ensure_tenants_seeded:
  assumes "db_ok s" and "\<forall>p\<in>set specs. seeded_tenant (fst p) s" and "distinct (map (ds_id \<circ> fst) specs)"
  shows "\<exists>ts s'. ensure_tenants now specs s = (Inr ts, s') \<and> restamped s s'"
  using assms
proof (induction now specs s rule: ensure_tenants.induct)
  case (1 now s)
  show ?case by simp
next
  case (2 now spec new_id specs s)
  obtain t s1 where t: "put_tenant now spec s = (Inr t, s1)" "tn_id t = ds_id spec" and r1: "restamped s s1"
    using put_tenant_seeded [OF 2(2), of spec now] 2(3) by auto
  have ok1: "db_ok s1" using put_tenant_effect [OF 2(2) t(1)] by auto
  obtain d where d: "put_domain new_id (ds_id spec) (ds_slug spec @ ''.localhost'') s1 = (Inr d, s1)"
    using put_domain_seeded [OF ok1] restamped_seeded [OF r1] 2(3) by fastforce
  have "\<forall>p\<in>set specs. seeded_tenant (fst p) s1" using restamped_seeded [OF r1] 2(3) by simp
  moreover have "(Inr d, s1) = put_domain new_id (tn_id t) (ds_slug spec @ ''.localhost'') s1" using d t(2) by simp
  moreover have "distinct (map (ds_id \<circ> fst) specs)" using 2(4) by (simp add: comp_def)
  ultimately obtain ts s2 where "ensure_tenants now specs s1 = (Inr ts, s2)" "restamped s1 s2"
    using 2(1) [OF t(1) [symmetric] refl _ refl ok1] by metis
  with t d r1 show ?case by (auto intro: restamped_trans)
qed

lemma ensure_admin_seeded:
  assumes ok: "db_ok s" and u: "u \<in> set (users s)" "demo_admin_row mk u"
  shows "ensure_admin_user mk' s = (Inr (u\<lparr>us_password := mk' (da_password DEMO_ADMIN)\<rparr>),
    s\<lparr>users := qs_update (\<lambda>x. us_pk x = us_pk u) (\<lambda>x. x\<lparr>us_password := mk' (da_password DEMO_ADMIN)\<rparr>) (users s)\<rparr>)"
proof -
  have uok: "users_ok s" using db_okD(1) [OF ok] .
  then have "qs_get (\<lambda>x. us_username x = da_username DEMO_ADMIN) (users s) = Inr u"
    using u qs_get_key [of us_username "users s" u] by (simp add: users_ok_def tbl_ok_def demo_admin_row_def)
  moreover have same: "x = u" if "x \<in> set (users s)" "us_pk x = us_pk u" for x
    using uok that u(1) by (metis users_ok_def tbl_ok_def distinct_map inj_onD)
  have "qs_update (\<lambda>x. us_pk x = us_pk u) (\<lambda>_. u\<lparr>us_password := h\<rparr>) (users s) =
      qs_update (\<lambda>x. us_pk x = us_pk u) (\<lambda>x. x\<lparr>us_password := h\<rparr>) (users s)" for h
    by (rule qs_update_cong) (metis same)
  moreover have "u\<lparr>us_email := da_email DEMO_ADMIN, us_first_name := da_first_name DEMO_ADMIN,
      us_last_name := da_last_name DEMO_ADMIN, us_password := h\<rparr> = u\<lparr>us_password := h\<rparr>" for h
    using u(2) by (cases u) (simp add: demo_admin_row_def)
  ultimately show ?thesis
    by (simp add: ensure_admin_user_def Let_def)
qed


subsection \<open>Properties\<close>

text \<open>Seeding is one transaction and idempotent. It fails only on a slug or host name another tenant
  has, and then changes nothing. Otherwise both demo tenants exist with their names, slugs and primary
  domains, the demo administrator exists with the configured name, address and password and is an admin
  of the first tenant, every other tenant and every other role is untouched and the database stays
  consistent; and from then on every further run succeeds, finds the same administrator and changes
  no domain, no role and nothing of a tenant but its timestamp. The hypothesis on the address: the
  table of users does not keep it unique, so an account of somebody else with it would be doubled.\<close>

theorem seed_correct:
  assumes ok: "db_ok s" and free: "demo_email_free s" and run: "seed mk now dids rid s = (r, s')"
  shows "(\<forall>e. r = Inl e \<longrightarrow> e = IntegrityError \<and> s' = s) \<and>
    (\<forall>ts u. r = Inr (ts, u) \<longrightarrow>
       db_ok s' \<and> map tn_id ts = [TENANT1_ID, TENANT2_ID] \<and> (\<forall>spec\<in>set DEMO_TENANTS. seeded_tenant spec s') \<and>
       u \<in> set (users s') \<and> demo_admin_row mk u \<and>
       role_map s' = (role_map s)((us_pk u, TENANT1_ID) \<mapsto> ''admin'') \<and>
       (\<forall>t. tn_id t \<notin> {TENANT1_ID, TENANT2_ID} \<longrightarrow> (t \<in> set (tenants s') \<longleftrightarrow> t \<in> set (tenants s))) \<and>
       (\<forall>mk' now' dids' rid'. \<exists>ts' u' s''. seed mk' now' dids' rid' s' = (Inr (ts', u'), s'') \<and>
          us_pk u' = us_pk u \<and> domains s'' = domains s' \<and> role_map s'' = role_map s' \<and>
          map unstamped (tenants s'') = map unstamped (tenants s') \<and>
          users s'' = qs_update (\<lambda>x. us_pk x = us_pk u)
            (\<lambda>x. x\<lparr>us_password := mk' (da_password DEMO_ADMIN)\<rparr>) (users s')))"
  using ok free run
proof (cases rule: seed_cases)
  case (seeded ts u s1 s2)
  note r = seeded(1-6) and o1 = seeded(7) and o2 = seeded(8) and role = seeded(11) and s' = seeded(12)
  have "tenants s2 = tenants s1" using o2 by (cases s1; cases s2; simp)
  moreover have "tenants s' = tenants s2" by (subst s') simp
  ultimately have others: "\<forall>t. tn_id t \<notin> {TENANT1_ID, TENANT2_ID} \<longrightarrow> (t \<in> set (tenants s') \<longleftrightarrow> t \<in> set (tenants s))"
    using o1 by (simp add: only_tenants_def)
  have seeds: "\<forall>spec\<in>set DEMO_TENANTS. seeded_tenant spec s'" using r(6) by (simp add: seeded_def)
  have email: "demo_email_free s'"
    using db_okD(1) [OF r(5)] r(3,4) unfolding demo_email_free_def demo_admin_row_def users_ok_def tbl_ok_def
    by (metis distinct_map inj_onD)
  have again: "\<exists>ts' u' s''. seed mk' now' dids' rid' s' = (Inr (ts', u'), s'') \<and>
      us_pk u' = us_pk u \<and> domains s'' = domains s' \<and> role_map s'' = role_map s' \<and>
      map unstamped (tenants s'') = map unstamped (tenants s') \<and>
      users s'' = qs_update (\<lambda>x. us_pk x = us_pk u)
        (\<lambda>x. x\<lparr>us_password := mk' (da_password DEMO_ADMIN)\<rparr>) (users s')" for mk' now' dids' rid'
  proof -
    let ?specs = "zip DEMO_TENANTS [fst dids', snd dids']"
    have "\<forall>p\<in>set ?specs. seeded_tenant (fst p) s'" using seeds demo_specs(3) [of "fst dids'" "snd dids'"] by blast
    moreover have "distinct (map (ds_id \<circ> fst) ?specs)" unfolding demo_specs using demo_specs(4) by simp
    ultimately obtain ts' t1 where t1: "ensure_tenants now' ?specs s' = (Inr ts', t1)" "restamped s' t1"
      using ensure_tenants_seeded [OF r(5)] by blast
    obtain r2 s'' where run2: "seed mk' now' dids' rid' s' = (r2, s'')" by fastforce
    have fr: "users t1 = users s'" "domains t1 = domains s'" "roles t1 = roles s'" using restamped_frame [OF t1(2)] by simp_all
    have ok1: "db_ok t1" using ensure_tenants_effect [OF r(5) \<open>distinct (map (ds_id \<circ> fst) ?specs)\<close> t1(1)] by auto
    let ?u = "u\<lparr>us_password := mk' (da_password DEMO_ADMIN)\<rparr>"
    let ?us = "qs_update (\<lambda>x. us_pk x = us_pk u) (\<lambda>x. x\<lparr>us_password := mk' (da_password DEMO_ADMIN)\<rparr>) (users s')"
    have admin: "ensure_admin_user mk' t1 = (Inr ?u, t1\<lparr>users := ?us\<rparr>)"
      using ensure_admin_seeded [OF ok1 _ r(4), of mk'] r(3) fr(1) by simp
    have "r2 \<noteq> Inl IntegrityError"
    proof
      assume err: "r2 = Inl IntegrityError"
      have "assign_role now' rid' ?u t ''admin'' None s \<noteq> (Inl e, x)" if "roles_ok s" for t e s x
        using assign_role_effect [OF that, of "''admin''" now' rid' ?u t None] by (force simp: RoleChoices_values_def)
      moreover have "roles_ok (t1\<lparr>users := ?us\<rparr>)" using db_okD(3) [OF ok1] by (simp add: roles_ok_def)
      ultimately show False
        using run2 t1(1) admin err by (auto simp: seed_def atomic_def split: option.splits sum.splits prod.splits)
    qed
    with run2 show ?thesis
    proof (cases rule: seed_cases [OF r(5) email run2])
      case (2 ts2 u2 v1 v2)
      note v = 2(1,9,10,11) and s'' = 2(12)
      have eq: "u2 = ?u" "v2 = t1\<lparr>users := ?us\<rparr>" using v(2,3) t1(1) admin by auto
      have "users s'' = ?us" "domains s'' = domains s'" "tenants s'' = tenants t1"
        by (subst s'', simp add: eq fr)+
      moreover have "role_map s'' = role_map s'" using v(4) role eq(1) by (auto simp: fun_eq_iff)
      ultimately show ?thesis using run2 v(1) eq(1) t1(2) by (auto simp: restamped_def)
    qed simp
  qed
  show ?thesis using r seeds others role again by simp
qed simp

theorem seed_correct_witness:
  "\<exists>ts u s'. seed id 5 (''d8'', ''d9'') ''r9'' demo_db = (Inr (ts, u), s') \<and> us_password u = ''password123'' \<and>
     role_map s' (us_pk u, TENANT1_ID) = Some ''admin''"
proof -
  have free: "demo_email_free demo_db" by (simp add: demo_email_free_def DEMO_ADMIN_def)
  obtain r s' where run: "seed id 5 (''d8'', ''d9'') ''r9'' demo_db = (r, s')" by fastforce
  have "\<exists>x. r = Inr x"
  proof -
    have "fst (seed id 5 (''d8'', ''d9'') ''r9'' demo_db) \<noteq> Inl IntegrityError" by code_simp
    with run seed_effect [OF db_ok_demo free run] show ?thesis by auto
  qed
  with seed_correct [OF db_ok_demo free run] run show ?thesis
    by (auto simp: demo_admin_row_def DEMO_ADMIN_def)
qed

end
