(* ===== verification/Audit_Views.thy ===== *)
theory Audit_Views
  imports Rbac
begin

text \<open>
  \<open>apps/audit/views.py\<close>: the audit log of the request's tenant, for its owners and admins.
  \<open>narrow\<close> is the paging of the generic view. \<open>icontains\<close> ignores case as \<open>py_lower\<close> does.
\<close>

fun contains :: "string \<Rightarrow> string \<Rightarrow> bool" where
  "contains [] needle = (needle = [])"
| "contains (c # cs) needle = (starts_with (c # cs) needle \<or> contains cs needle)"

definition icontains :: "string \<Rightarrow> string \<Rightarrow> bool" where
  "icontains s needle = contains (py_lower s) (py_lower needle)"

definition given :: "string option \<Rightarrow> bool" where
  "given p = (case p of Some v \<Rightarrow> v \<noteq> [] | None \<Rightarrow> False)"

text \<open>\<open>action\<close> and \<open>actor\<close> are the query parameters.\<close>

definition audit_queryset :: "string option \<Rightarrow> string option \<Rightarrow> tenant option \<Rightarrow> db \<Rightarrow> audit_log list" where
  "audit_queryset action actor tn s =
     (case tn of
        None \<Rightarrow> []
      | Some t \<Rightarrow>
          (let qs = filter (\<lambda>a. al_tenant a = Some (tn_id t)) (audit_logs s);
               qs1 = (if given action then filter (\<lambda>a. al_action a = the action) qs else qs);
               qs2 = (if given actor then filter (\<lambda>a. icontains (al_actor_email a) (the actor)) qs1 else qs1)
           in sort_key (\<lambda>a. - al_timestamp a) qs2))"

definition AuditLogListView_get ::
  "(string \<Rightarrow> uuid option) \<Rightarrow> (audit_log list \<Rightarrow> audit_log list) \<Rightarrow> string option \<Rightarrow> string option \<Rightarrow> request \<Rightarrow> db \<Rightarrow>
   audit_log list response \<times> db" where
  "AuditLogListView_get parse_uuid narrow action actor rq =
     authenticated_with_role parse_uuid [''owner'', ''admin''] rq None
       (\<lambda>u s. (Response 200 (narrow (audit_queryset action actor (rq_tenant rq) s)), s))"

lemma contains_iff: "contains s needle \<longleftrightarrow> (\<exists>a b. s = a @ needle @ b)"
proof (induction s)
  case (Cons c cs)
  have "(\<exists>a b. c # cs = a @ needle @ b) \<longleftrightarrow> (\<exists>b. c # cs = needle @ b) \<or> (\<exists>a b. cs = a @ needle @ b)"
    by (metis append_Cons append_Nil list.exhaust list.inject)
  with Cons show ?case by (simp add: starts_with_prefix)
qed simp

text \<open>The audit endpoint reads the log and never writes it. Anonymous callers are answered 401 and
  callers the permission refuses 403, without entries. Otherwise the entries are those of the tenant of
  the request's host and of no other, newest first, narrowed to the exact action and to the actors whose
  address contains the text; without a tenant there are none.\<close>

theorem audit_list_scoped:
  assumes run: "AuditLogListView_get parse_uuid narrow action actor rq s = (resp, s')"
  shows "s' = s \<and>
    (rq_user rq = None \<longrightarrow> resp = Detail 401 []) \<and>
    (HasRolePermission parse_uuid [''owner'', ''admin''] rq None s = Inr False \<longrightarrow> status_code resp \<in> {401, 403}) \<and>
    (\<forall>rows. resp = Response 200 rows \<longrightarrow>
       HasRolePermission parse_uuid [''owner'', ''admin''] rq None s = Inr True \<and>
       (\<exists>entries. rows = narrow entries \<and> sorted (map (\<lambda>a. - al_timestamp a) entries) \<and>
          (rq_tenant rq = None \<longrightarrow> entries = []) \<and>
          (\<forall>t. rq_tenant rq = Some t \<longrightarrow> set entries =
             {a \<in> set (audit_logs s). al_tenant a = Some (tn_id t) \<and>
                (\<forall>x. action = Some x \<and> x \<noteq> [] \<longrightarrow> al_action a = x) \<and>
                (\<forall>x. actor = Some x \<and> x \<noteq> [] \<longrightarrow> (\<exists>p q. py_lower (al_actor_email a) = p @ py_lower x @ q))})))"
proof -
  let ?entries = "audit_queryset action actor (rq_tenant rq) s"
  have sorted: "sorted (map (\<lambda>a. - al_timestamp a) ?entries)"
    by (cases "rq_tenant rq") (simp_all add: audit_queryset_def Let_def)
  have scope: "set ?entries = {a \<in> set (audit_logs s). al_tenant a = Some (tn_id t) \<and>
      (\<forall>x. action = Some x \<and> x \<noteq> [] \<longrightarrow> al_action a = x) \<and>
      (\<forall>x. actor = Some x \<and> x \<noteq> [] \<longrightarrow> (\<exists>p q. py_lower (al_actor_email a) = p @ py_lower x @ q))}"
    if "rq_tenant rq = Some t" for t
    using that
    by (cases action; cases actor) (auto simp: audit_queryset_def given_def icontains_def contains_iff Let_def)
  have none: "?entries = []" if "rq_tenant rq = None" using that by (simp add: audit_queryset_def)
  show ?thesis
  proof (cases "rq_user rq")
    case None
    with run show ?thesis by (auto simp: AuditLogListView_get_def authenticated_with_role_def)
  next
    case (Some u)
    show ?thesis
    proof (cases "HasRolePermission parse_uuid [''owner'', ''admin''] rq None s = Inr True")
      case True
      with Some run have "resp = Response 200 (narrow ?entries)" "s' = s"
        by (auto simp: AuditLogListView_get_def authenticated_with_role_def)
      with Some True sorted scope none show ?thesis by (auto intro!: exI [of _ ?entries])
    next
      case False
      with Some run show ?thesis
        by (auto simp: AuditLogListView_get_def authenticated_with_role_def split: sum.splits if_splits)
    qed
  qed
qed

definition audit_row :: "uuid \<Rightarrow> string \<Rightarrow> instant \<Rightarrow> audit_log" where
  "audit_row t email now = \<lparr>al_tenant = Some t, al_actor = None, al_actor_email = email, al_action = ''role_assigned'',
     al_resource_type = [], al_resource_id = [], al_metadata = [], al_ip_address = None, al_user_agent = [],
     al_timestamp = now\<rparr>"

definition audit_db :: db where
  "audit_db = demo_db\<lparr>roles := [member_row 2 ''t1'' ''admin''],
     audit_logs := [audit_row ''t1'' ''bob@acme.test'' 1, audit_row ''t2'' ''bob@acme.test'' 2,
                    audit_row ''t1'' ''alice@acme.test'' 3]\<rparr>"

theorem audit_list_scoped_witness:
  "\<exists>entries. fst (AuditLogListView_get (\<lambda>_. None) (\<lambda>x. x) None None
     (demo_request\<lparr>rq_user := Some bob, rq_tenant := Some demo_tenant\<rparr>) audit_db) = Response 200 entries \<and>
   set entries = {audit_row ''t1'' ''bob@acme.test'' 1, audit_row ''t1'' ''alice@acme.test'' 3}"
proof -
  let ?rq = "demo_request\<lparr>rq_user := Some bob, rq_tenant := Some demo_tenant\<rparr>"
  obtain resp s' where run: "AuditLogListView_get (\<lambda>_. None) (\<lambda>x. x) None None ?rq audit_db = (resp, s')"
    by (cases "AuditLogListView_get (\<lambda>_. None) (\<lambda>x. x) None None ?rq audit_db")
  have allowed: "HasRolePermission (\<lambda>_. None) [''owner'', ''admin''] ?rq None audit_db = Inr True"
    by (simp add: HasRolePermission_def resolve_request_tenant_def has_role_def role_key_def audit_db_def)
  with run obtain rows where rows: "resp = Response 200 rows"
    by (auto simp: AuditLogListView_get_def authenticated_with_role_def)
  have logs: "set (audit_logs audit_db) = {audit_row ''t1'' ''bob@acme.test'' 1, audit_row ''t2'' ''bob@acme.test'' 2,
      audit_row ''t1'' ''alice@acme.test'' 3}" by (simp add: audit_db_def)
  have tenant: "al_tenant (audit_row t e n) = Some t" for t e n by (simp add: audit_row_def)
  from audit_list_scoped [OF run] rows have "set rows = {a \<in> set (audit_logs audit_db). al_tenant a = Some ''t1''}"
    by auto
  also have "\<dots> = {audit_row ''t1'' ''bob@acme.test'' 1, audit_row ''t1'' ''alice@acme.test'' 3}"
    unfolding logs by (auto simp: tenant)
  finally show ?thesis using run rows by auto
qed

end
