(* ===== verification/System.thy ===== *)
theory System
  imports Seeding Audit_Views "HOL-Library.Sublist"
begin

text \<open>
  The whole program: the endpoints with their URLs (which \<open>Routing\<close> resolves), running
  behind \<open>TenantMiddleware\<close>, the Celery worker, the management commands and the services other code
  calls, as one machine over the database and the caches. An event carries the instant it happens at and
  the random values it draws; what libraries and settings decide is the \<open>environment\<close>.
\<close>

subsection \<open>Environment, random values, endpoints\<close>

record environment =
  env_parse_uuid :: "string \<Rightarrow> uuid option"
  env_parse_pk :: "string \<Rightarrow> pk option"
  env_frontend_url :: string
  env_valid_registration :: "create_user_input \<Rightarrow> bool"
  env_password_errors :: "string \<Rightarrow> string \<Rightarrow> string \<Rightarrow> string list"
  env_reset_errors :: "string \<Rightarrow> user \<Rightarrow> string list"
  env_make_password :: "string \<Rightarrow> string"
  env_clean_errors :: "user \<Rightarrow> string list"
  env_timezones :: "string list"
  env_authenticate :: "string \<Rightarrow> string \<Rightarrow> db \<Rightarrow> user option"
  env_mint :: "user \<Rightarrow> string \<Rightarrow> string \<times> string"
  env_totp_verify :: "string \<Rightarrow> string \<Rightarrow> bool"
  env_provisioning_uri :: "user \<Rightarrow> string \<Rightarrow> string"
  env_qr_svg :: "string \<Rightarrow> string"
  env_providers :: providers
  env_valid_email :: "string \<Rightarrow> bool"
  env_clean_email :: "string \<Rightarrow> string option"
  env_valid_text :: "string \<Rightarrow> bool"
  env_encode_uid :: "pk \<Rightarrow> string"
  env_decode_uid :: "string \<Rightarrow> pk option"
  env_make_token :: "instant \<Rightarrow> user \<Rightarrow> string"
  env_check_token :: "instant \<Rightarrow> user \<Rightarrow> string \<Rightarrow> bool"
  env_reset_timeout :: int
  env_construct_event :: "string \<Rightarrow> string \<Rightarrow> string \<Rightarrow> verified"
  env_webhook_secret :: string
  env_waffle :: "waffle_api option"
  env_narrow_users :: "user list \<Rightarrow> user list"
  env_narrow_audit :: "audit_log list \<Rightarrow> audit_log list"
  env_paginate :: "notification list \<Rightarrow> notification list"
  env_plan_flags :: "(string \<times> (string \<times> bool) list) list"

record entropy =
  rnd_id :: uuid
  rnd_jti :: string
  rnd_jti2 :: string
  rnd_secret :: string
  rnd_codes :: "string list"

text \<open>The endpoints with the data of their request.\<close>

datatype endpoint =
    Token_obtain string string
  | Two_factor_complete string string
  | Two_factor_setup
  | Two_factor_enable string
  | Two_factor_disable string
  | Auth_register create_user_input
  | Password_reset string
  | Password_reset_confirm string string string
  | Social_auth string string
  | User_list
  | User_create create_user_input
  | User_me
  | Profile_get
  | Profile_update profile_data
  | Profile_delete
  | Role_list string
  | Role_assign string pk string
  | Role_revoke string pk
  | Invitation_list
  | Invitation_create string "string option"
  | Invitation_detail string
  | Invitation_accept string
  | Invitation_revoke uuid
  | Notification_list "string option"
  | Notification_read uuid
  | Stripe_webhook string
  | Audit_log_list "string option" "string option"
  | Feature_flag_list
  | Feature_flag_detail string

fun route :: "endpoint \<Rightarrow> string" where
  "route (Token_obtain _ _) = ''/api/v1/auth/token/''"
| "route (Two_factor_complete _ _) = ''/api/v1/auth/2fa/complete/''"
| "route Two_factor_setup = ''/api/v1/auth/2fa/setup/''"
| "route (Two_factor_enable _) = ''/api/v1/auth/2fa/enable/''"
| "route (Two_factor_disable _) = ''/api/v1/auth/2fa/disable/''"
| "route (Auth_register _) = ''/api/v1/auth/register/''"
| "route (Password_reset _) = ''/api/v1/auth/password/reset/''"
| "route (Password_reset_confirm _ _ _) = ''/api/v1/auth/password/reset/confirm/''"
| "route (Social_auth _ _) = ''/api/v1/auth/social/''"
| "route User_list = ''/api/v1/users/''"
| "route (User_create _) = ''/api/v1/users/create/''"
| "route User_me = ''/api/v1/users/me/''"
| "route Profile_get = ''/api/v1/users/me/profile/''"
| "route (Profile_update _) = ''/api/v1/users/me/profile/''"
| "route Profile_delete = ''/api/v1/users/me/profile/''"
| "route (Role_list t) = ''/api/v1/rbac/'' @ t @ ''/roles/''"
| "route (Role_assign t _ _) = ''/api/v1/rbac/'' @ t @ ''/roles/assign/''"
| "route (Role_revoke t _) = ''/api/v1/rbac/'' @ t @ ''/roles/revoke/''"
| "route Invitation_list = ''/api/v1/invitations/''"
| "route (Invitation_create _ _) = ''/api/v1/invitations/''"
| "route (Invitation_detail token) = ''/api/v1/invitations/'' @ token @ ''/''"
| "route (Invitation_accept token) = ''/api/v1/invitations/'' @ token @ ''/accept/''"
| "route (Invitation_revoke i) = ''/api/v1/invitations/'' @ i @ ''/revoke/''"
| "route (Notification_list _) = ''/api/v1/notifications/''"
| "route (Notification_read i) = ''/api/v1/notifications/'' @ i @ ''/read/''"
| "route (Stripe_webhook _) = ''/api/v1/billing/webhook/''"
| "route (Audit_log_list _ _) = ''/api/v1/audit-logs/''"
| "route Feature_flag_list = ''/api/v1/features/''"
| "route (Feature_flag_detail f) = ''/api/v1/features/'' @ f @ ''/''"

subsection \<open>The view behind each route\<close>

text \<open>What a request leaves besides its body: the status and the state. The exception handler turns an
  uncaught exception into a response, so the middleware always gets one.\<close>

fun answered :: "'a response \<Rightarrow> unit response" where
  "answered (Response n _) = Response n ()"
| "answered (Detail n m) = Detail n m"
| "answered (Uncaught e) = Uncaught e"

definition on_db :: "(db \<Rightarrow> 'a response \<times> db) \<Rightarrow> site \<Rightarrow> unit response \<times> site" where
  "on_db view st = (case view (site_db st) of (resp, s) \<Rightarrow> (answered resp, st\<lparr>site_db := s\<rparr>))"

definition on_site :: "(site \<Rightarrow> 'a response \<times> site) \<Rightarrow> site \<Rightarrow> unit response \<times> site" where
  "on_site view st = (case view st of (resp, st') \<Rightarrow> (answered resp, st'))"

definition reading :: "(db \<Rightarrow> 'a response) \<Rightarrow> site \<Rightarrow> unit response \<times> site" where
  "reading view st = (answered (view (site_db st)), st)"

fun view :: "environment \<Rightarrow> instant \<Rightarrow> entropy \<Rightarrow> endpoint \<Rightarrow> request \<Rightarrow> site \<Rightarrow> unit response \<times> site" where
  "view env now r (Token_obtain name pw) rq =
     on_site (ThrottledTokenObtainPairView_post (env_authenticate env) (env_mint env) now (rnd_jti r) (rnd_jti2 r)
       (rnd_secret r) name pw)"
| "view env now r (Two_factor_complete key code) rq =
     on_site (TwoFactorCompleteView_post (env_totp_verify env) (env_mint env) now (rnd_jti r) key code)"
| "view env now r Two_factor_setup rq =
     on_db (TwoFactorSetupView_get (env_provisioning_uri env) (env_qr_svg env) now (rnd_id r) (rnd_secret r)
       (rnd_codes r) rq)"
| "view env now r (Two_factor_enable code) rq = on_db (TwoFactorVerifyEnableView_post (env_totp_verify env) now rq code)"
| "view env now r (Two_factor_disable code) rq = on_db (TwoFactorDisableView_post (env_totp_verify env) now rq code)"
| "view env now r (Auth_register data) rq =
     on_db (RegisterView_post (env_valid_registration env) (env_password_errors env) (env_make_password env)
       (env_clean_errors env) now rq data)"
| "view env now r (Password_reset email) rq =
     on_db (PasswordResetRequestView_post (env_valid_email env) (env_encode_uid env) (env_make_token env)
       (env_frontend_url env) (env_reset_timeout env) now rq email)"
| "view env now r (Password_reset_confirm uid token pw) rq =
     on_db (PasswordResetConfirmView_post (env_valid_text env) (env_decode_uid env) (env_check_token env)
       (env_reset_errors env) (env_make_password env) now uid token pw)"
| "view env now r (Social_auth provider token) rq =
     on_db (SocialAuthView_post (env_providers env) (env_mint env) (rnd_secret r) (rnd_jti r) provider token)"
| "view env now r User_list rq = on_db (UserListView_get (env_parse_uuid env) (env_narrow_users env) rq)"
| "view env now r (User_create data) rq =
     on_db (UserCreateView_post (env_valid_registration env) (env_password_errors env) (env_make_password env)
       (env_clean_errors env) data)"
| "view env now r User_me rq = on_db (MeView_get now rq)"
| "view env now r Profile_get rq = on_db (ProfileView_get now rq)"
| "view env now r (Profile_update d) rq = on_db (ProfileView_update (env_timezones env) now rq d)"
| "view env now r Profile_delete rq = on_db (ProfileView_delete now rq)"
| "view env now r (Role_list t) rq = on_db (TenantRoleListView_get (env_parse_uuid env) rq t)"
| "view env now r (Role_assign t u role) rq = on_db (AssignRoleView_post (env_parse_uuid env) now (rnd_id r) rq t u role)"
| "view env now r (Role_revoke t u) rq = on_db (RevokeRoleView_post (env_parse_uuid env) now rq t u)"
| "view env now r Invitation_list rq = on_db (TenantInvitationListCreateView_get (env_parse_uuid env) now rq)"
| "view env now r (Invitation_create email role) rq =
     on_db (TenantInvitationListCreateView_post (env_parse_uuid env) (env_clean_email env) (env_frontend_url env)
       now (rnd_id r) (rnd_secret r) rq email role)"
| "view env now r (Invitation_detail token) rq = reading (InvitationDetailView_get token)"
| "view env now r (Invitation_accept token) rq = on_db (InvitationAcceptView_post now (rnd_id r) rq token)"
| "view env now r (Invitation_revoke i) rq = on_db (InvitationRevokeView_delete (env_parse_uuid env) now rq i)"
| "view env now r (Notification_list unread) rq = on_db (NotificationListView_get (env_paginate env) unread rq)"
| "view env now r (Notification_read i) rq = on_db (MarkNotificationReadView_patch rq i)"
| "view env now r (Stripe_webhook body) rq =
     on_db (StripeWebhookView_post (env_construct_event env) (env_webhook_secret env) now body rq)"
| "view env now r (Audit_log_list action actor) rq = on_db (AuditLogListView_get (env_parse_uuid env) (env_narrow_audit env) action actor rq)"
| "view env now r Feature_flag_list rq = reading (FeatureFlagsView_get (env_waffle env) FEATURE_FLAGS_DEFAULTS rq)"
| "view env now r (Feature_flag_detail f) rq =
     reading (FeatureFlagDetailView_get (env_waffle env) FEATURE_FLAGS_DEFAULTS rq f)"

text \<open>A request: the tenant middleware around the view.\<close>

definition serve :: "environment \<Rightarrow> instant \<Rightarrow> entropy \<Rightarrow> endpoint \<Rightarrow> request \<Rightarrow> (site, unit response) op" where
  "serve env now r ep rq =
     TenantMiddleware_call now (\<lambda>rq st. case view env now r ep rq st of (resp, st') \<Rightarrow> (Inr resp, st'))
       (rq\<lparr>rq_path := route ep\<rparr>)"

subsection \<open>The machine\<close>

datatype event =
    Http instant entropy request endpoint
  | Worker instant
  | Notify instant uuid user string string
  | Set_flag instant tenant string bool string string
  | Sync_plan instant tenant
  | Create_tenant instant uuid uuid string string string bool
  | Seed_demo instant "uuid \<times> uuid" uuid
  | Erase_user string string string bool bool string
  | Invalidate_host string

fun event_step :: "environment \<Rightarrow> site \<Rightarrow> event \<Rightarrow> site" where
  "event_step env st (Http now r rq ep) = snd (serve env now r ep rq st)"
| "event_step env st (Worker now) =
     (case queue (site_db st) of
        [] \<Rightarrow> st | t # q \<Rightarrow> st\<lparr>site_db := run_task now t ((site_db st)\<lparr>queue := q\<rparr>)\<rparr>)"
| "event_step env st (Notify now k u title body) =
     st\<lparr>site_db := fst (snd (create_notification (\<lambda>_ _ l. (True, l)) now k u title body (site_db st, None :: unit option)))\<rparr>"
| "event_step env st (Set_flag now t f b source note) =
     st\<lparr>site_db := snd (set_for_tenant now t f b source note (site_db st))\<rparr>"
| "event_step env st (Sync_plan now t) = st\<lparr>site_db := snd (sync_plan_flags now (env_plan_flags env) t (site_db st))\<rparr>"
| "event_step env st (Create_tenant now tid did name schema domain primary) =
     st\<lparr>site_db := snd (create_tenant now tid did name schema domain primary (site_db st))\<rparr>"
| "event_step env st (Seed_demo now dids rid) =
     st\<lparr>site_db := snd (seed (env_make_password env) now dids rid (site_db st))\<rparr>"
| "event_step env st (Erase_user tag pw user_id hard no_input confirm) =
     st\<lparr>site_db := snd (delete_user_data (env_parse_pk env) tag pw user_id hard no_input confirm (site_db st))\<rparr>"
| "event_step env st (Invalidate_host host) = invalidate_cache host st"


subsection \<open>What the operations leave alone\<close>

definition keeps_roles :: "db \<Rightarrow> db \<Rightarrow> bool" where
  "keeps_roles s s' \<longleftrightarrow> roles s' = roles s"

text \<open>The audit log only grows. Erasing an account for good empties the reference to the actor and leaves the
  rest of the row, so the rows are compared without it.\<close>

definition unsigned :: "audit_log \<Rightarrow> audit_log" where
  "unsigned a = a\<lparr>al_actor := None\<rparr>"

definition keeps_audit :: "db \<Rightarrow> db \<Rightarrow> bool" where
  "keeps_audit s s' \<longleftrightarrow> prefix (map unsigned (audit_logs s)) (map unsigned (audit_logs s'))"

definition keeps_tenants :: "db \<Rightarrow> db \<Rightarrow> bool" where
  "keeps_tenants s s' \<longleftrightarrow> tenants s' = tenants s \<and> prefix (queue s) (queue s') \<and> keeps_audit s s'"

lemma log_grows [simp]:
  "prefix ls (map unsigned (audit_logs s)) \<Longrightarrow>
     prefix ls (map unsigned (audit_logs (AuditService_log now a rq tn actor rt ri m s)))"
  by (auto simp: AuditService_log_def Let_def)

lemma unsigned_actor [simp]: "unsigned (a\<lparr>al_actor := p\<rparr>) = unsigned a"
  by (simp add: unsigned_def)

lemmas keeps = keeps_roles_def keeps_tenants_def keeps_audit_def

lemma create_user_keeps:
  "keeps_roles s (snd (create_user pe mk ce data s)) \<and> keeps_tenants s (snd (create_user pe mk ce data s))"
proof -
  obtain r s' where run: "create_user pe mk ce data s = (r, s')" by fastforce
  then have "roles s' = roles s \<and> tenants s' = tenants s \<and> prefix (queue s) (queue s') \<and> keeps_audit s s'"
    by (cases rule: create_user_cases) (simp_all add: keeps_audit_def)
  with run show ?thesis by (simp add: keeps)
qed

lemma register_keeps:
  "keeps_roles s (snd (UserCreateView_post vi pe mk ce data s)) \<and> keeps_tenants s (snd (UserCreateView_post vi pe mk ce data s))"
  "keeps_roles s (snd (RegisterView_post vi pe mk ce now rq data s)) \<and>
   keeps_tenants s (snd (RegisterView_post vi pe mk ce now rq data s))"
  using create_user_keeps [of s pe mk ce data]
  by (auto simp: keeps UserCreateView_post_def RegisterView_post_def split: prod.splits sum.splits)

lemma get_profile_keeps:
  "keeps_roles s (snd (get_profile now u s)) \<and> keeps_tenants s (snd (get_profile now u s))"
  by (auto simp: keeps get_profile_def split: prod.splits sum.splits)

lemma profile_views_keep:
  "keeps_roles s (snd (MeView_get now rq s)) \<and> keeps_tenants s (snd (MeView_get now rq s))"
  "keeps_roles s (snd (ProfileView_get now rq s)) \<and> keeps_tenants s (snd (ProfileView_get now rq s))"
  "keeps_roles s (snd (ProfileView_update tzs now rq d s)) \<and> keeps_tenants s (snd (ProfileView_update tzs now rq d s))"
  "keeps_roles s (snd (ProfileView_delete now rq s)) \<and> keeps_tenants s (snd (ProfileView_delete now rq s))"
  using get_profile_keeps [of s now]
  by (auto simp: keeps MeView_get_def ProfileView_get_def ProfileView_update_def ProfileView_delete_def
      split: option.splits prod.splits sum.splits dest: snd_eqD) (metis snd_conv)+

lemma two_factor_keeps:
  "keeps_roles s (snd (TwoFactorSetupView_get uri svg now k secret hex rq s)) \<and>
   keeps_tenants s (snd (TwoFactorSetupView_get uri svg now k secret hex rq s))"
  "keeps_roles s (snd (TwoFactorVerifyEnableView_post tv now rq code s)) \<and>
   keeps_tenants s (snd (TwoFactorVerifyEnableView_post tv now rq code s))"
  "keeps_roles s (snd (TwoFactorDisableView_post tv now rq code s)) \<and>
   keeps_tenants s (snd (TwoFactorDisableView_post tv now rq code s))"
  by (auto simp: keeps TwoFactorSetupView_get_def TwoFactorVerifyEnableView_post_def TwoFactorDisableView_post_def
      second_factor_def use_backup_code_def save_totp_def Let_def
      split: option.splits prod.splits sum.splits if_splits)

lemma login_keeps:
  "keeps_roles (site_db st) (site_db (snd (ThrottledTokenObtainPairView_post au mint now j1 j2 key name pw st))) \<and>
   keeps_tenants (site_db st) (site_db (snd (ThrottledTokenObtainPairView_post au mint now j1 j2 key name pw st))) \<and>
   tenant_cache (snd (ThrottledTokenObtainPairView_post au mint now j1 j2 key name pw st)) = tenant_cache st"
  "keeps_roles (site_db st) (site_db (snd (TwoFactorCompleteView_post tv mint now j key code st))) \<and>
   keeps_tenants (site_db st) (site_db (snd (TwoFactorCompleteView_post tv mint now j key code st))) \<and>
   tenant_cache (snd (TwoFactorCompleteView_post tv mint now j key code st)) = tenant_cache st"
  by (auto simp: keeps ThrottledTokenObtainPairView_post_def TwoFactorCompleteView_post_def refresh_token_for_user_def
      second_factor_def use_backup_code_def save_totp_def Let_def
      split: option.splits prod.splits sum.splits if_splits)

lemma account_views_keep:
  "keeps_roles s (snd (SocialAuthView_post web mint un j p tok s)) \<and> keeps_tenants s (snd (SocialAuthView_post web mint un j p tok s))"
  "keeps_roles s (snd (PasswordResetRequestView_post ve enc mkt url to now rq email s)) \<and>
   keeps_tenants s (snd (PasswordResetRequestView_post ve enc mkt url to now rq email s))"
  "keeps_roles s (snd (PasswordResetConfirmView_post vt dec chk pe mk now uid tok pw s)) \<and>
   keeps_tenants s (snd (PasswordResetConfirmView_post vt dec chk pe mk now uid tok pw s))"
  by (auto simp: keeps SocialAuthView_post_def social_authenticate_def get_or_create_user_def insert_user_def atomic_def
      refresh_token_for_user_def PasswordResetRequestView_post_def request_reset_def delay_def
      PasswordResetConfirmView_post_def confirm_reset_def Let_def simp del: qs_first_None
      split: option.splits prod.splits sum.splits if_splits exn.splits)


lemma reading_views_keep:
  "snd (UserListView_get pu nu rq s) = s" "snd (TenantRoleListView_get pu rq t s) = s"
  "snd (TenantInvitationListCreateView_get pu now rq s) = s" "snd (NotificationListView_get pg unread rq s) = s"
  "snd (AuditLogListView_get pu na action actor rq s) = s"
  by (auto simp: UserListView_get_def TenantRoleListView_get_def authenticated_with_role_def
      TenantInvitationListCreateView_get_def NotificationListView_get_def AuditLogListView_get_def
      split: option.splits prod.splits sum.splits if_splits)

lemma mark_read_keeps:
  "keeps_roles s (snd (MarkNotificationReadView_patch rq k s)) \<and> keeps_tenants s (snd (MarkNotificationReadView_patch rq k s))"
  by (auto simp: keeps MarkNotificationReadView_patch_def mark_read_def split: option.splits prod.splits sum.splits exn.splits)

lemma webhook_keeps:
  "keeps_roles s (snd (StripeWebhookView_post c secret now body rq s)) \<and>
   keeps_tenants s (snd (StripeWebhookView_post c secret now body rq s))"
  by (auto simp: keeps StripeWebhookView_post_def get_or_create_def delay_def Let_def
      split: option.splits prod.splits sum.splits if_splits verified.splits)

lemma process_event_keeps:
  "keeps_roles s (snd (process_event now ty obj s)) \<and> keeps_tenants s (snd (process_event now ty obj s))"
  by (auto simp: keeps process_event_def on_subscription_created_def on_subscription_updated_def on_subscription_canceled_def
      on_payment_succeeded_def on_payment_failed_def on_trial_ending_def atomic_def save_subscription_def save_status_def
      delay_def Let_def simp del: qs_first_None split: option.splits prod.splits sum.splits if_splits)

lemma run_task_keeps: "keeps_roles s (run_task now t s) \<and> keeps_tenants s (run_task now t s)"
proof -
  have "keeps_roles s (snd (with_retries 5 (process_event now ty obj) s)) \<and>
      keeps_tenants s (snd (with_retries 5 (process_event now ty obj) s))" for ty obj
  proof (rule with_retries_inv)
    fix s1 assume "keeps_roles s s1 \<and> keeps_tenants s s1"
    with process_event_keeps [of s1 now ty obj]
    show "keeps_roles s (snd (process_event now ty obj s1)) \<and> keeps_tenants s (snd (process_event now ty obj s1))"
      by (auto simp: keeps intro: prefix_order.trans)
  qed (simp add: keeps)
  then show ?thesis
    by (cases t) (auto simp: run_task_def handle_stripe_event_def keeps case_prod_beta split: sum.splits)
qed

lemma set_for_tenant_keeps:
  "keeps_roles s (snd (set_for_tenant now t f b source note s)) \<and> keeps_tenants s (snd (set_for_tenant now t f b source note s))"
  by (auto simp: keeps set_for_tenant_def update_or_create_def split: prod.splits sum.splits)

lemma set_plan_flags_keeps:
  "keeps_roles s (snd (set_plan_flags now t slug fs s)) \<and> keeps_tenants s (snd (set_plan_flags now t slug fs s))"
proof (induction now t slug fs s rule: set_plan_flags.induct)
  case (2 now t slug f b fs s)
  with set_for_tenant_keeps [of s now t f b "''plan''" "''Auto-set by plan: '' @ slug"] show ?case
    by (auto simp: keeps split: prod.splits sum.splits)
qed (simp add: keeps)

lemma sync_plan_flags_keeps:
  "keeps_roles s (snd (sync_plan_flags now pf t s)) \<and> keeps_tenants s (snd (sync_plan_flags now pf t s))"
  using set_plan_flags_keeps [of s now t] by (auto simp: sync_plan_flags_def keeps split: option.splits)

lemma create_notification_keeps:
  "keeps_roles s (fst (snd (create_notification gsend now k u title body (s, l)))) \<and>
   keeps_tenants s (fst (snd (create_notification gsend now k u title body (s, l))))"
  by (auto simp: keeps create_notification_def Let_def split: prod.splits if_splits)

lemma role_views_keep_tenants:
  "keeps_tenants s (snd (AssignRoleView_post pu now k rq t u role s))"
  "keeps_tenants s (snd (RevokeRoleView_post pu now rq t u s))"
  by (auto simp: keeps AssignRoleView_post_def RevokeRoleView_post_def authenticated_with_role_def assign_role_def
      revoke_role_def update_or_create_def Let_def split: option.splits prod.splits sum.splits if_splits exn.splits)

lemma assign_role_keeps_tenants: "keeps_tenants s (snd (assign_role now k u t role by s))"
  by (auto simp: keeps assign_role_def update_or_create_def Let_def split: prod.splits sum.splits if_splits)

lemma authenticated_keeps:
  assumes "\<And>u. P s (snd (handler u s))" and "P s s"
  shows "P s (snd (authenticated_with_role pu required rq url_tenant handler s))"
  using assms by (auto simp: authenticated_with_role_def split: option.splits sum.splits)

lemma invitation_services_keep:
  "keeps_tenants s (snd (send_invitation url now k tok t email role u s)) \<and>
   keeps_roles s (snd (send_invitation url now k tok t email role u s))"
  "keeps_tenants s (snd (revoke_invitation now i t u s)) \<and> keeps_roles s (snd (revoke_invitation now i t u s))"
  by (auto simp: keeps send_invitation_def revoke_invitation_def save_invitation_def insert_invitation_def dispatch_email_def
      delay_def atomic_def Let_def split: option.splits prod.splits sum.splits if_splits exn.splits)

lemma invitation_views_keep:
  "keeps_tenants s (snd (TenantInvitationListCreateView_post pu cl url now k tok rq email role s)) \<and>
   keeps_roles s (snd (TenantInvitationListCreateView_post pu cl url now k tok rq email role s))"
  "keeps_tenants s (snd (InvitationRevokeView_delete pu now rq i s)) \<and>
   keeps_roles s (snd (InvitationRevokeView_delete pu now rq i s))"
  unfolding TenantInvitationListCreateView_post_def InvitationRevokeView_delete_def
  subgoal
    by (rule authenticated_keeps [where P = "\<lambda>s s'. keeps_tenants s s' \<and> keeps_roles s s'"])
      (use invitation_services_keep [of s] in
        \<open>simp_all add: keeps Let_def case_prod_beta split: option.splits sum.splits\<close>)
  subgoal
    by (rule authenticated_keeps [where P = "\<lambda>s s'. keeps_tenants s s' \<and> keeps_roles s s'"])
      (use invitation_services_keep [of s] in
        \<open>simp_all add: keeps Let_def case_prod_beta split: option.splits sum.splits\<close>)
  done

lemma accept_view_keeps_tenants: "keeps_tenants s (snd (InvitationAcceptView_post now k rq tok s))"
  using assign_role_keeps_tenants [of s]
  by (auto simp: keeps InvitationAcceptView_post_def accept_invitation_def save_invitation_def
      Let_def case_prod_beta split: option.splits sum.splits if_splits)


text \<open>The middleware's own cache only ever names tenants that exist.\<close>

definition cached_tenants_known :: "site \<Rightarrow> bool" where
  "cached_tenants_known st \<longleftrightarrow>
     (\<forall>k t e. tenant_cache st k = Some (Some t, e) \<longrightarrow> tn_id t \<in> tenant_ids (site_db st))"

definition site_ok :: "site \<Rightarrow> bool" where
  "site_ok st \<longleftrightarrow> db_ok (site_db st) \<and> cached_tenants_known st"

lemma site_okI:
  assumes "site_ok st" and "db_ok (site_db st')" and "tenant_ids (site_db st) \<subseteq> tenant_ids (site_db st')"
    and "tenant_cache st' = tenant_cache st"
  shows "site_ok st'"
  using assms unfolding site_ok_def cached_tenants_known_def by fastforce

lemma site_ok_ctx [simp]:
  "site_ok (clear_tenant st) = site_ok st" "site_ok (set_tenant_id i st) = site_ok st"
  by (simp_all add: site_ok_def cached_tenants_known_def clear_tenant_def set_tenant_id_def)

lemma domain_tenant_known: "domain_tenant host s = Inr t \<Longrightarrow> tn_id t \<in> tenant_ids s"
  by (auto simp: domain_tenant_def tenant_of_def find_Some_iff tenant_ids_def split: sum.splits option.splits
      dest: nth_mem)

lemma resolve_site_ok:
  assumes ok: "site_ok st" and run: "resolve_tenant now host st = (r, st')"
  shows "site_ok st' \<and> (\<forall>t. r = Inr (Some t) \<longrightarrow> tn_id t \<in> tenant_ids (site_db st'))"
proof -
  have ten: "tenancy_ok (site_db st)" using ok db_okD(2) by (simp add: site_ok_def)
  show ?thesis
  proof (cases "cache_get now (tenant_cache st) (tenant_cache_key host)")
    case None
    have "tn_id t \<in> tenant_ids (site_db st)" if "db_answer host (site_db st) = Some t" for t
      using that domain_tenant_known by (auto simp: db_answer_def split: sum.splits)
    moreover have "db_ok (site_db st)"
      and "tenant_cache st k = Some (Some t, e) \<Longrightarrow> tn_id t \<in> tenant_ids (site_db st)" for k t e
      using ok by (auto simp: site_ok_def cached_tenants_known_def)
    ultimately show ?thesis
      using run unfolding resolve_tenant_miss [OF ten None]
      by (auto simp: site_ok_def cached_tenants_known_def cache_set_def split: if_splits)
  next
    case (Some v)
    with run have "r = Inr v" "st' = st" by (simp_all add: resolve_tenant_hit)
    with Some ok show ?thesis
      by (fastforce simp: site_ok_def cached_tenants_known_def cache_get_def split: option.splits if_splits)
  qed
qed


text \<open>What the libraries and the random source are relied on for: the authentication backend returns a
  user of the database, identifiers drawn are new.\<close>

definition env_ok :: "environment \<Rightarrow> bool" where
  "env_ok env \<longleftrightarrow> (\<forall>name pw s u. env_authenticate env name pw s = Some u \<longrightarrow> us_pk u \<in> user_pks s)"

definition entropy_fresh :: "entropy \<Rightarrow> db \<Rightarrow> bool" where
  "entropy_fresh r s \<longleftrightarrow> (\<forall>t\<in>set (totps s). tp_id t \<noteq> rnd_id r) \<and>
     jti_fresh (rnd_jti r) s \<and> jti_fresh (rnd_jti2 r) s \<and> rnd_jti r \<noteq> rnd_jti2 r"

definition known_user :: "request \<Rightarrow> db \<Rightarrow> bool" where
  "known_user rq s \<longleftrightarrow> null_or_in (user_pks s) (map_option us_pk (rq_user rq))"

lemma on_db_effect:
  assumes "db_ok (snd (v (site_db st)))" and "keeps_tenants (site_db st) (snd (v (site_db st)))" and "site_ok st"
  shows "site_ok (snd (on_db v st))"
  using assms by (intro site_okI [OF assms(3)]) (auto simp: on_db_def keeps_tenants_def tenant_ids_def split: prod.splits)

lemma on_site_effect:
  assumes "db_ok (site_db (snd (v st)))" and "keeps_tenants (site_db st) (site_db (snd (v st)))"
    and "tenant_cache (snd (v st)) = tenant_cache st" and "site_ok st"
  shows "site_ok (snd (on_site v st))"
  using assms by (intro site_okI [OF assms(4)]) (auto simp: on_site_def keeps_tenants_def tenant_ids_def split: prod.splits)

lemma keeps_tenants_refl [simp]: "keeps_tenants s s" "keeps_roles s s"
  by (simp_all add: keeps)

lemma view_site_ok:
  assumes ok: "site_ok st" and env: "env_ok env" and caller: "caller_ok rq (site_db st)"
    and fresh: "entropy_fresh r (site_db st)"
  shows "site_ok (snd (view env now r ep rq st))"
proof -
  have db: "db_ok (site_db st)" using ok by (simp add: site_ok_def)
  have user: "null_or_in (user_pks (site_db st)) (map_option us_pk (rq_user rq))"
    using caller by (simp add: caller_ok_def)
  note pre = db caller
  note frames = register_keeps profile_views_keep two_factor_keeps login_keeps account_views_keep reading_views_keep
    mark_read_keeps webhook_keeps role_views_keep_tenants invitation_views_keep accept_view_keeps_tenants
  have login: "db_ok (site_db (snd (ThrottledTokenObtainPairView_post (env_authenticate env) (env_mint env) now
      (rnd_jti r) (rnd_jti2 r) (rnd_secret r) name pw st)))" for name pw
    using db env fresh by (intro password_step_db_ok) (auto simp: env_ok_def entropy_fresh_def)
  have second: "db_ok (site_db (snd (TwoFactorCompleteView_post (env_totp_verify env) (env_mint env) now (rnd_jti r) key code st)))"
    for key code
    using second_step_db_ok [OF db] fresh by (metis entropy_fresh_def prod.collapse)
  show ?thesis
    using fresh frames login second
    by (cases ep) (auto intro!: on_db_effect on_site_effect ok db UserCreateView_db_ok RegisterView_db_ok [OF db user]
        profile_views_db_ok [OF pre] setup_db_ok [OF pre] enable_db_ok disable_db_ok social_view_db_ok
        reset_request_db_ok [OF pre] reset_confirm_db_ok mark_read_db_ok role_views_db_ok [OF pre]
        invitation_views_db_ok [OF pre] webhook_db_ok simp: reading_def entropy_fresh_def)
qed


text \<open>What an event may bring: callers and rows that exist, identifiers that are new.\<close>

fun event_admits :: "site \<Rightarrow> event \<Rightarrow> bool" where
  "event_admits st (Http now r rq ep) = (known_user rq (site_db st) \<and> entropy_fresh r (site_db st))"
| "event_admits st (Notify now k u title body) =
     (us_pk u \<in> user_pks (site_db st) \<and> (\<forall>n\<in>set (notifications (site_db st)). nt_id n \<noteq> k))"
| "event_admits st (Set_flag now t f b source note) = (tn_id t \<in> tenant_ids (site_db st))"
| "event_admits st (Sync_plan now t) = (tn_id t \<in> tenant_ids (site_db st))"
| "event_admits st (Seed_demo now dids rid) = demo_email_free (site_db st)"
| "event_admits st (Erase_user tag pw user_id hard no_input confirm) = tag_fresh tag (site_db st)"
| "event_admits st _ = True"

lemma site_ok_db:
  "\<lbrakk>site_ok st; db_ok s; tenant_ids (site_db st) \<subseteq> tenant_ids s\<rbrakk> \<Longrightarrow> site_ok (st\<lparr>site_db := s\<rparr>)"
  by (rule site_okI) simp_all

lemma serve_site_ok:
  assumes ok: "site_ok st" and env: "env_ok env" and user: "known_user rq (site_db st)"
    and fresh: "entropy_fresh r (site_db st)"
  shows "site_ok (snd (serve env now r ep rq st))"
proof -
  obtain x st1 where run: "resolve_tenant now (split_head (CHR '':'') (rq_host rq)) st = (x, st1)" by fastforce
  note res = resolve_site_ok [OF ok run]
  have db: "site_db st1 = site_db st" using resolve_tenant_frame [OF run] by simp
  have open_path: "site_ok (snd (view env now r ep (rq\<lparr>rq_path := p, rq_tenant := None\<rparr>) (clear_tenant st)))" for p
    using ok env user fresh
    by (intro view_site_ok) (simp_all add: caller_ok_def known_user_def, simp_all add: clear_tenant_def)
  have hosted: "site_ok (snd (view env now r ep (rq\<lparr>rq_path := p, rq_tenant := Some t\<rparr>) (set_tenant_id (Some (tn_id t)) st1)))"
    if "x = Inr (Some t)" for t p
    using res that env user fresh db
    by (intro view_site_ok) (simp_all add: caller_ok_def known_user_def, simp_all add: set_tenant_id_def)
  show ?thesis
    using run res open_path hosted
    by (auto simp: serve_def TenantMiddleware_call_def case_prod_beta split: sum.splits option.splits)
qed

lemma create_tenant_grows: "tenant_ids s \<subseteq> tenant_ids (snd (create_tenant now ti di nm sc dn prim s))"
proof -
  obtain x s' where run: "create_tenant now ti di nm sc dn prim s = (x, s')" by fastforce
  show ?thesis
  proof (cases x)
    case (Inl e)
    with run have "s' = s" by (auto dest: create_tenant_error)
    with run show ?thesis by simp
  next
    case (Inr td)
    then obtain t d where "x = Inr (t, d)" by (cases td) auto
    with run create_tenant_Ok [of now ti di nm sc dn prim s t d s'] show ?thesis by (auto simp: tenant_ids_def)
  qed
qed

lemma seed_site_effect:
  assumes ok: "db_ok s" and free: "demo_email_free s"
  shows "db_ok (snd (seed mk now dids rid s)) \<and> tenant_ids s \<subseteq> tenant_ids (snd (seed mk now dids rid s))"
proof -
  obtain x s' where run: "seed mk now dids rid s = (x, s')" by fastforce
  from ok free run show ?thesis
  proof (cases rule: seed_cases)
    case (seeded ts u s1 s2)
    note o1 = seeded(7) and o2 = seeded(8) and s' = seeded(12)
    have "tenants s2 = tenants s1" using o2 by (cases s1; cases s2; simp)
    moreover have "tenants s' = tenants s2" by (subst s') simp
    ultimately have "tenants s' = tenants s1" by simp
    have "TENANT1_ID \<in> tenant_ids s' \<and> TENANT2_ID \<in> tenant_ids s'"
      using seeded(6) unfolding seeded_def seeded_tenant_def DEMO_TENANTS_def tenant_ids_def
      by simp (metis imageI)
    moreover have "tn_id t \<in> tenant_ids s'" if "t \<in> set (tenants s)" "tn_id t \<notin> {TENANT1_ID, TENANT2_ID}" for t
      using o1 that \<open>tenants s' = tenants s1\<close> unfolding only_tenants_def tenant_ids_def by (metis imageI)
    ultimately have "tenant_ids s \<subseteq> tenant_ids s'"
      unfolding tenant_ids_def by (metis image_subsetI insert_iff empty_iff)
    with seeded(5) run show ?thesis by simp
  qed (use ok run in simp)
qed

lemma erase_keeps_tenants: "keeps_tenants s (snd (delete_user_data pp tag pw user_id hard no_input confirm s))"
  by (auto simp: keeps comp_def delete_user_data_def hard_delete_def anonymize_def save_user_def delete_user_def atomic_def revoke_tokens_def
      delete_notifications_def delete_roles_def Let_def split: option.splits prod.splits sum.splits if_splits)

lemma event_site_ok:
  assumes ok: "site_ok st" and env: "env_ok env" and adm: "event_admits st e"
  shows "site_ok (event_step env st e)"
proof -
  have db: "db_ok (site_db st)" using ok by (simp add: site_ok_def)
  have same: "tenant_ids (site_db st) \<subseteq> tenant_ids s" if "keeps_tenants (site_db st) s" for s
    using that by (simp add: keeps_tenants_def tenant_ids_def)
  show ?thesis
  proof (cases e)
    case (Http now r rq ep)
    with adm serve_site_ok [OF ok env, of rq r now ep] show ?thesis by simp
  next
    case (Worker now)
    have "db_ok (run_task now t ((site_db st)\<lparr>queue := q\<rparr>))" for t q
      using handle_event_db_ok db by (auto simp: run_task_def split: celery_task.splits)
    moreover have "tenant_ids (site_db st) \<subseteq> tenant_ids (run_task now t ((site_db st)\<lparr>queue := q\<rparr>))" for t q
      using run_task_keeps [of "(site_db st)\<lparr>queue := q\<rparr>" now t] by (simp add: keeps_tenants_def tenant_ids_def)
    ultimately have "site_ok (st\<lparr>site_db := run_task now t ((site_db st)\<lparr>queue := q\<rparr>)\<rparr>)" for t q
      using ok by (intro site_ok_db)
    with Worker ok show ?thesis by (simp split: list.splits)
  next
    case (Notify now k u title body)
    with adm ok db show ?thesis
      by (auto intro!: site_ok_db create_notification_db_ok same create_notification_keeps [THEN conjunct2])
  next
    case (Set_flag now t f b src msg)
    with adm ok set_for_tenant_db_ok [OF db] set_for_tenant_keeps show ?thesis
      by (auto intro!: site_ok_db same) (metis prod.collapse)
  next
    case (Sync_plan now t)
    with adm ok db sync_plan_flags_keeps show ?thesis
      by (auto intro!: site_ok_db sync_plan_flags_db_ok same)
  next
    case (Create_tenant now tid did name schema dom primary)
    with ok db show ?thesis by (simp add: site_ok_db create_tenant_db_ok create_tenant_grows)
  next
    case (Seed_demo now dids rid)
    with adm ok seed_site_effect [OF db, of "env_make_password env" now dids rid] show ?thesis by (simp add: site_ok_db)
  next
    case (Erase_user tag pw user_id hard no_input confirm)
    with adm ok db erase_keeps_tenants show ?thesis by (auto intro!: site_ok_db delete_user_data_db_ok same)
  next
    case (Invalidate_host host)
    with ok show ?thesis
      by (auto simp: invalidate_cache_def site_ok_def cached_tenants_known_def cache_delete_def)
  qed
qed


interpretation program: preserved "event_step env" event_admits "\<lambda>st. env_ok env \<and> site_ok st" for env
  using event_site_ok by unfold_locales blast

subsection \<open>Who changes a role\<close>

text \<open>Every request either stops in the middleware or reaches its view with the same caller and data.\<close>

lemma serve_through_view:
  "site_db (snd (serve env now r ep rq st)) = site_db st \<or>
   (\<exists>rq' st'. rq_user rq' = rq_user rq \<and> rq_headers rq' = rq_headers rq \<and> site_db st' = site_db st \<and>
      site_db (snd (serve env now r ep rq st)) = site_db (snd (view env now r ep rq' st')))"
proof -
  obtain x st1 where run: "resolve_tenant now (split_head (CHR '':'') (rq_host rq)) st = (x, st1)" by fastforce
  note db = resolve_tenant_frame [OF run]
  let ?rq = "\<lambda>t. rq\<lparr>rq_path := route ep, rq_tenant := t\<rparr>"
  have "serve env now r ep rq st = (Inr (fst (view env now r ep (?rq None) (clear_tenant st))), snd (view env now r ep (?rq None) (clear_tenant st))) \<or>
      snd (serve env now r ep rq st) = st1 \<or>
      (\<exists>t. site_db (snd (serve env now r ep rq st)) = site_db (snd (view env now r ep (?rq (Some t)) (set_tenant_id (Some (tn_id t)) st1))))"
    using run by (auto simp: serve_def TenantMiddleware_call_def clear_tenant_def case_prod_beta split: sum.splits option.splits)
  then show ?thesis
  proof (elim disjE exE)
    assume "snd (serve env now r ep rq st) = st1"
    with db show ?thesis by simp
  next
    fix t assume "site_db (snd (serve env now r ep rq st)) = site_db (snd (view env now r ep (?rq (Some t)) (set_tenant_id (Some (tn_id t)) st1)))"
    with db show ?thesis
      by (intro disjI2 exI [of _ "?rq (Some t)"] exI [of _ "set_tenant_id (Some (tn_id t)) st1"]) (simp add: set_tenant_id_def)
  qed (intro disjI2 exI [of _ "?rq None"] exI [of _ "clear_tenant st"], simp add: clear_tenant_def)
qed

fun touches_roles :: "endpoint \<Rightarrow> bool" where
  "touches_roles (Role_assign _ _ _) = True"
| "touches_roles (Role_revoke _ _) = True"
| "touches_roles (Invitation_accept _) = True"
| "touches_roles _ = False"

lemma view_keeps_roles:
  assumes "\<not> touches_roles ep"
  shows "keeps_roles (site_db st) (site_db (snd (view env now r ep rq st)))"
proof -
  note frames = register_keeps profile_views_keep two_factor_keeps login_keeps account_views_keep reading_views_keep
    mark_read_keeps webhook_keeps invitation_views_keep
  show ?thesis using assms frames
    by (cases ep) (simp_all add: on_db_def on_site_def reading_def case_prod_beta)
qed


text \<open>
  Who may turn the role at a key (user, tenant) into a new one: an owner, admin or superuser for the tenant of
  the URL; the caller who holds a pending invitation, for himself, with the invited role; the demo
  seeding for its first tenant; the erasure, which only takes roles from the user it is run for.
\<close>

definition manages :: "user \<Rightarrow> uuid \<Rightarrow> db \<Rightarrow> bool" where
  "manages u i s \<longleftrightarrow> us_is_superuser u \<or> role_map s (us_pk u, i) \<in> {Some ''owner'', Some ''admin''}"

definition role_authority :: "environment \<Rightarrow> db \<Rightarrow> event \<Rightarrow> pk \<times> uuid \<Rightarrow> string option \<Rightarrow> bool" where
  "role_authority env s e k new \<longleftrightarrow>
     (case e of
        Http now r rq (Role_assign i p role) \<Rightarrow>
          k = (p, i) \<and> new = Some role \<and> role \<in> set RoleChoices_values \<and> (\<exists>u. rq_user rq = Some u \<and> manages u i s)
      | Http now r rq (Role_revoke i p) \<Rightarrow>
          k = (p, i) \<and> new = None \<and> (\<exists>u. rq_user rq = Some u \<and> manages u i s)
      | Http now r rq (Invitation_accept token) \<Rightarrow>
          role_map s k = None \<and>
          (\<exists>u. rq_user rq = Some u \<and> us_pk u = fst k) \<and>
          (\<exists>i\<in>set (invitations s). iv_token i = token \<and> is_usable now i \<and> iv_tenant i = snd k \<and> new = Some (iv_role i))
      | Seed_demo now dids rid \<Rightarrow> snd k = TENANT1_ID \<and> new = Some ''admin''
      | Erase_user tag pw user_id hard no_input confirm \<Rightarrow> env_parse_pk env user_id = Some (fst k) \<and> new = None
      | _ \<Rightarrow> False)"

text \<open>The URL converter hands over tenant ids in the form the tables use.\<close>

fun routed :: "environment \<Rightarrow> event \<Rightarrow> bool" where
  "routed env (Http now r rq (Role_assign i p role)) = (i \<noteq> [] \<and> env_parse_uuid env i = Some i)"
| "routed env (Http now r rq (Role_revoke i p)) = (i \<noteq> [] \<and> env_parse_uuid env i = Some i)"
| "routed env e = True"

lemma qs_get_tenant:
  "tenancy_ok s \<Longrightarrow> qs_get (\<lambda>t. tn_id t = i) (tenants s) = (case tenant_of s i of None \<Rightarrow> Inl DoesNotExist | Some t \<Rightarrow> Inr t)"
  unfolding tenant_of_lookup tenancy_ok_def by (rule qs_get_tbl_lookup) (simp add: tbl_ok_def)

lemma permission_manages:
  assumes ok: "db_ok s" and url: "i \<noteq> []" "pu i = Some i" and t: "tenant_of s i = Some t" and caller: "rq_user rq = Some u"
  shows "HasRolePermission pu [''owner'', ''admin''] rq (Some i) s = Inr (manages u i s)"
proof -
  have "has_role (Some u) t [''owner'', ''admin''] s = manages u i s"
    using tenant_id_of [OF t] by (simp add: has_role_map manages_def db_okD(3) [OF ok])
  with assms show ?thesis
    by (simp add: HasRolePermission_def resolve_request_tenant_def qs_get_tenant db_okD(2))
qed


lemma assign_view_roles:
  assumes ok: "db_ok s" and url: "i \<noteq> []" "pu i = Some i"
    and changed: "role_map (snd (AssignRoleView_post pu now k rq i p role s)) key \<noteq> role_map s key"
  shows "key = (p, i) \<and> role_map (snd (AssignRoleView_post pu now k rq i p role s)) key = Some role \<and>
    role \<in> set RoleChoices_values \<and> (\<exists>u. rq_user rq = Some u \<and> manages u i s)"
proof -
  obtain u where u: "rq_user rq = Some u"
    using changed by (auto simp: AssignRoleView_post_def authenticated_with_role_def split: option.splits)
  obtain t where t: "tenant_of s i = Some t"
    using changed by (auto simp: AssignRoleView_post_def authenticated_with_role_def split: option.splits sum.splits if_splits)
  note perm = permission_manages [where pu = pu, OF ok url t u]
  obtain v where m: "manages u i s" and v: "user_of s p = Some v" and role: "role \<in> set RoleChoices_values"
    using changed u t perm
    by (auto simp: AssignRoleView_post_def authenticated_with_role_def split: option.splits if_splits)
  obtain obj s' where run: "assign_role now k v t role (Some u) s = (Inr obj, s')"
    and map: "role_map s' = (role_map s)((us_pk v, tn_id t) \<mapsto> role)"
    using assign_role_effect [OF db_okD(3) [OF ok] role] by metis
  have "snd (AssignRoleView_post pu now k rq i p role s) = s'"
    using u t perm m v role run by (simp add: AssignRoleView_post_def authenticated_with_role_def)
  with changed map m role u user_of_pk [OF v] tenant_id_of [OF t] show ?thesis by (auto split: if_splits)
qed

lemma revoke_view_roles:
  assumes ok: "db_ok s" and url: "i \<noteq> []" "pu i = Some i"
    and changed: "role_map (snd (RevokeRoleView_post pu now rq i p s)) key \<noteq> role_map s key"
  shows "key = (p, i) \<and> role_map (snd (RevokeRoleView_post pu now rq i p s)) key = None \<and>
    (\<exists>u. rq_user rq = Some u \<and> manages u i s)"
proof -
  obtain u where u: "rq_user rq = Some u"
    using changed by (auto simp: RevokeRoleView_post_def authenticated_with_role_def split: option.splits)
  obtain t where t: "tenant_of s i = Some t"
    using changed by (auto simp: RevokeRoleView_post_def authenticated_with_role_def split: option.splits sum.splits if_splits)
  note perm = permission_manages [where pu = pu, OF ok url t u]
  obtain v where m: "manages u i s" and v: "user_of s p = Some v"
    using changed u t perm
    by (auto simp: RevokeRoleView_post_def authenticated_with_role_def split: option.splits if_splits)
  obtain b s' where run: "revoke_role now v t s = (Inr b, s')"
    and map: "role_map s' = (role_map s)((us_pk v, tn_id t) := None)"
    using revoke_role_effect [OF db_okD(3) [OF ok]] by metis
  have "snd (RevokeRoleView_post pu now rq i p s) = s'"
    using u t perm m v run by (simp add: RevokeRoleView_post_def authenticated_with_role_def)
  with changed map m u user_of_pk [OF v] tenant_id_of [OF t] show ?thesis by (auto split: if_splits)
qed

lemma accept_view_roles:
  assumes ok: "db_ok s" and changed: "role_map (snd (InvitationAcceptView_post now k rq token s)) key \<noteq> role_map s key"
  shows "role_map s key = None \<and> (\<exists>u. rq_user rq = Some u \<and> us_pk u = fst key) \<and>
    (\<exists>i\<in>set (invitations s). iv_token i = token \<and> is_usable now i \<and> iv_tenant i = snd key \<and>
       role_map (snd (InvitationAcceptView_post now k rq token s)) key = Some (iv_role i))"
proof -
  obtain u where u: "rq_user rq = Some u"
    using changed by (cases "rq_user rq") (simp_all add: InvitationAcceptView_post_def)
  obtain r s' where run: "accept_invitation now k token u s = (r, s')" by fastforce
  then have view: "snd (InvitationAcceptView_post now k rq token s) = s'"
    using u by (simp add: InvitationAcceptView_post_def split: sum.splits)
  have saved: "role_map (save_invitation x s) = role_map s" for x
    by (simp add: role_map_def fun_eq_iff save_invitation_def)
  from db_okD(4) [OF ok] db_okD(3) [OF ok] run show ?thesis
    by (cases rule: accept_cases) (use changed view u saved in \<open>auto split: if_splits\<close>)
qed

lemma role_map_without:
  "role_map (s\<lparr>roles := map (\<lambda>r. r\<lparr>ur_assigned_by := f (ur_assigned_by r)\<rparr>) (qs_delete (\<lambda>r. ur_user r = p) rs)\<rparr>) key =
     (if fst key = p then None else role_map (s\<lparr>roles := rs\<rparr>) key)"
  by (induction rs) (auto simp: role_map_def tbl_lookup_def qs_delete_def role_key_def)

lemma role_map_deleted:
  "role_map (s\<lparr>roles := qs_delete (\<lambda>r. ur_user r = p) rs\<rparr>) key = (if fst key = p then None else role_map (s\<lparr>roles := rs\<rparr>) key)"
  by (induction rs) (auto simp: role_map_def tbl_lookup_def qs_delete_def role_key_def)

lemma erase_roles:
  assumes changed: "role_map (snd (delete_user_data pp tag pw user_id hard no_input confirm s)) key \<noteq> role_map s key"
  shows "pp user_id = Some (fst key) \<and> role_map (snd (delete_user_data pp tag pw user_id hard no_input confirm s)) key = None"
proof -
  obtain p u where p: "pp user_id = Some p" "user_of s p = Some u"
    using changed by (auto simp: delete_user_data_def split: option.splits)
  then have pk: "us_pk u = p" by (simp add: user_of_pk)
  have gone: "role_map s' key = (if fst key = p then None else role_map s key)"
    if "roles s' = qs_delete (\<lambda>r. ur_user r = p) (roles s) \<or>
      roles s' = map (\<lambda>r. r\<lparr>ur_assigned_by := null_if p (ur_assigned_by r)\<rparr>)
        (qs_delete (\<lambda>r. ur_user r = p) (qs_delete (\<lambda>r. ur_user r = p) (roles s)))" for s'
  proof -
    have "role_map s' = role_map (s\<lparr>roles := roles s'\<rparr>)" by (simp add: role_map_def fun_eq_iff)
    with that role_map_deleted [where s = s and p = p and rs = "roles s" and key = key]
      role_map_without [where s = s and f = "null_if p" and p = p and key = key
        and rs = "qs_delete (\<lambda>r. ur_user r = p) (roles s)"]
    show ?thesis by auto
  qed
  have anon: "roles (snd (anonymize tag pw u s)) = roles s \<or> roles (snd (anonymize tag pw u s)) = qs_delete (\<lambda>r. ur_user r = p) (roles s)"
    by (auto simp: anonymize_def atomic_def revoke_tokens_def delete_notifications_def delete_roles_def save_user_def pk Let_def
        split: prod.splits sum.splits if_splits)
  have hard: "roles (snd (hard_delete u s)) = map (\<lambda>r. r\<lparr>ur_assigned_by := null_if p (ur_assigned_by r)\<rparr>)
        (qs_delete (\<lambda>r. ur_user r = p) (qs_delete (\<lambda>r. ur_user r = p) (roles s)))"
    by (simp add: hard_delete_def atomic_def revoke_tokens_def delete_notifications_def delete_roles_def delete_user_def pk Let_def)
  have kinds: "role_map (snd (anonymize tag pw u s)) key = role_map s key \<or>
      role_map (snd (anonymize tag pw u s)) key = (if fst key = p then None else role_map s key)"
    using anon
  proof
    assume "roles (snd (anonymize tag pw u s)) = roles s"
    from role_map_roles [OF this] show ?thesis by simp
  next
    assume "roles (snd (anonymize tag pw u s)) = qs_delete (\<lambda>r. ur_user r = p) (roles s)"
    then show ?thesis by (intro disjI2 gone disjI1)
  qed
  have "role_map (snd (hard_delete u s)) key = (if fst key = p then None else role_map s key)"
    by (rule gone [OF disjI2 [OF hard]])
  moreover have "snd (delete_user_data pp tag pw user_id hard no_input confirm s) = s \<or>
      snd (delete_user_data pp tag pw user_id hard no_input confirm s) = snd (anonymize tag pw u s) \<or>
      snd (delete_user_data pp tag pw user_id hard no_input confirm s) = snd (hard_delete u s)"
    using p by (simp add: delete_user_data_def case_prod_beta split: sum.splits)
  ultimately show ?thesis
    using changed p(1) kinds by (elim disjE) (simp_all split: if_splits)
qed

subsection \<open>Properties\<close>


text \<open>An environment in which libraries answer, and a run: the demo data is seeded, then the
  seeded administrator makes \<open>bob\<close> a member through the endpoint.\<close>

definition demo_env :: environment where
  "demo_env = \<lparr>env_parse_uuid = Some, env_parse_pk = (\<lambda>_. Some 2), env_frontend_url = ''https://app'',
     env_valid_registration = (\<lambda>_. True), env_password_errors = (\<lambda>_ _ _. []), env_reset_errors = (\<lambda>_ _. []),
     env_make_password = id, env_clean_errors = (\<lambda>_. []), env_timezones = [''UTC''],
     env_authenticate = (\<lambda>name pw s. find (\<lambda>u. us_username u = name \<and> us_password u = pw) (users s)),
     env_mint = (\<lambda>u jti. (jti, us_username u)), env_totp_verify = (\<lambda>_ _. False),
     env_provisioning_uri = (\<lambda>_ s. s), env_qr_svg = id,
     env_providers = \<lparr>google = (\<lambda>_. None), github_profile = (\<lambda>_. None), github_emails = (\<lambda>_. None)\<rparr>,
     env_valid_email = (\<lambda>_. True), env_clean_email = Some, env_valid_text = (\<lambda>_. True),
     env_encode_uid = str_nat, env_decode_uid = (\<lambda>_. None), env_make_token = (\<lambda>_ u. us_password u),
     env_check_token = (\<lambda>_ u tok. tok = us_password u), env_reset_timeout = 3600,
     env_construct_event = (\<lambda>_ _ _. Bad_payload), env_webhook_secret = ''whsec'', env_waffle = None,
     env_narrow_users = id, env_narrow_audit = id, env_paginate = id, env_plan_flags = PLAN_FEATURE_FLAGS\<rparr>"

definition demo_entropy :: entropy where
  "demo_entropy = \<lparr>rnd_id = ''r7'', rnd_jti = ''j1'', rnd_jti2 = ''j2'', rnd_secret = ''s'', rnd_codes = []\<rparr>"

definition demo_run :: "event list" where
  "demo_run = [Seed_demo 5 (''d8'', ''d9'') ''r9'',
     Http 6 demo_entropy (demo_request\<lparr>rq_host := ''tenant1.localhost'', rq_user := Some (bob\<lparr>us_pk := 3\<rparr>)\<rparr>)
       (Role_assign TENANT1_ID 2 ''member'')]"

lemma demo_env_ok: "env_ok demo_env"
  by (auto simp: env_ok_def demo_env_def user_pks_def find_Some_iff)

lemma demo_site_ok: "site_ok (demo_site demo_db)"
  by (simp add: site_ok_def cached_tenants_known_def db_ok_demo)


text \<open>The events that leave the roles alone, whatever they do.\<close>

fun quiet_event :: "event \<Rightarrow> bool" where
  "quiet_event (Http _ _ _ _) = False"
| "quiet_event (Seed_demo _ _ _) = False"
| "quiet_event (Erase_user _ _ _ _ _ _) = False"
| "quiet_event _ = True"

lemma quiet_event_roles:
  assumes "quiet_event e"
  shows "roles (site_db (event_step env st e)) = roles (site_db st)"
proof (cases e)
  case (Worker now)
  have "roles (run_task now t ((site_db st)\<lparr>queue := q\<rparr>)) = roles (site_db st)" for t q
    using run_task_keeps [of "(site_db st)\<lparr>queue := q\<rparr>" now t] by (simp add: keeps_roles_def)
  with Worker show ?thesis by (auto split: list.splits)
next
  case (Notify now k u title body)
  then show ?thesis by (simp add: create_notification_keeps [unfolded keeps_roles_def])
next
  case (Set_flag now t f b src msg)
  then show ?thesis using set_for_tenant_keeps by (simp add: keeps_roles_def)
next
  case (Sync_plan now t)
  then show ?thesis using sync_plan_flags_keeps by (simp add: keeps_roles_def)
next
  case (Create_tenant now tid did name schema dom primary)
  have "roles (snd (create_tenant now tid did name schema dom primary s)) = roles s" for s
    by (auto simp: create_tenant_def insert_tenant_def insert_domain_def atomic_def Let_def
        split: sum.splits prod.splits if_splits)
  with Create_tenant show ?thesis by simp
next
  case (Invalidate_host host)
  then show ?thesis by (simp add: invalidate_cache_def)
qed (use assms in simp_all)

lemma http_role_authority:
  assumes ok: "db_ok (site_db st)" and url: "routed env (Http now r rq ep)"
    and changed: "role_map (site_db (event_step env st (Http now r rq ep))) key \<noteq> role_map (site_db st) key"
  shows "role_authority env (site_db st) (Http now r rq ep) key (role_map (site_db (event_step env st (Http now r rq ep))) key)"
proof -
  obtain rq' st' where through: "rq_user rq' = rq_user rq" "site_db st' = site_db st"
    "site_db (event_step env st (Http now r rq ep)) = site_db (snd (view env now r ep rq' st'))"
    using serve_through_view [of env now r ep rq st] changed by auto
  then have "roles (site_db (snd (view env now r ep rq' st'))) \<noteq> roles (site_db st)"
    using changed by (auto simp: role_map_def)
  with through(2) have "touches_roles ep"
    using view_keeps_roles [of ep st' env now r rq'] unfolding keeps_roles_def by metis
  then consider (assign) i p role where "ep = Role_assign i p role" | (revoke) i p where "ep = Role_revoke i p"
    | (accept) token where "ep = Invitation_accept token" by (cases ep) auto
  then show ?thesis
  proof cases
    case assign
    with url changed through assign_view_roles [OF ok, of i "env_parse_uuid env" now "rnd_id r" rq' p role key]
    show ?thesis by (auto simp: role_authority_def on_db_def case_prod_beta)
  next
    case revoke
    with url changed through revoke_view_roles [OF ok, of i "env_parse_uuid env" now rq' p key]
    show ?thesis by (auto simp: role_authority_def on_db_def case_prod_beta)
  next
    case accept
    with changed through accept_view_roles [OF ok, of now "rnd_id r" rq' token key]
    show ?thesis by (simp add: role_authority_def on_db_def case_prod_beta)
  qed
qed




text \<open>No endpoint is exempt from the tenant middleware, the Stripe webhook included: whatever the request,
  an unknown host is answered 404 and an inactive tenant 403 before any view runs, and a view runs
  with the active tenant of the host as its tenant and as the context.\<close>

theorem every_endpoint_needs_tenant:
  "serve env now r ep rq st =
     (case resolve_tenant now (split_head (CHR '':'') (rq_host rq)) st of
        (Inl e, st1) \<Rightarrow> (Inl e, st1)
      | (Inr None, st1) \<Rightarrow> (Inr (Detail 404 ''Tenant not found.''), st1)
      | (Inr (Some t), st1) \<Rightarrow>
          if \<not> tn_is_active t then (Inr (Detail 403 ''This tenant is inactive.''), st1)
          else (case view env now r ep (rq\<lparr>rq_path := route ep, rq_tenant := Some t\<rparr>) (set_tenant_id (Some (tn_id t)) st1) of
                  (resp, st2) \<Rightarrow> (Inr resp, clear_tenant st2)))"
proof -
  have "\<not> list_ex (starts_with (route ep)) EXEMPT_PREFIXES"
    by (cases ep) (simp_all add: EXEMPT_PREFIXES_def)
  then show ?thesis
    by (auto simp: serve_def TenantMiddleware_call_def split: prod.splits sum.splits option.splits)
qed

end
