(* ===== verification/Socket_Auth.thy ===== *)
theory Socket_Auth
  imports Notifications
begin

text \<open>
  \<open>apps/notifications/middleware.py\<close>: who a WebSocket connection belongs to. Headers and query string
  are texts; \<open>unquote\<close> is the percent-decoding of \<open>parse_qs\<close> (which yields UTF-8 texts). The token
  library is a parameter: \<open>token_claims\<close> is \<open>None\<close> for a token it rejects, otherwise the \<open>user_id\<close>
  claim, if there is one.
\<close>

subsection \<open>Finding the token\<close>

definition dict_get :: "string \<Rightarrow> (string \<times> string) list \<Rightarrow> string" where
  "dict_get key headers = (case map_of (rev headers) key of Some v \<Rightarrow> v | None \<Rightarrow> [])"

fun split_on :: "char \<Rightarrow> string \<Rightarrow> string list" where
  "split_on c [] = [[]]"
| "split_on c (x # xs) =
     (if x = c then [] # split_on c xs
      else (case split_on c xs of p # ps \<Rightarrow> (x # p) # ps | [] \<Rightarrow> [[x]]))"

text \<open>\<open>parse_qs\<close>: pairs with a \<open>=\<close> and a non-empty value.\<close>

definition parse_pair :: "(string \<Rightarrow> string) \<Rightarrow> string \<Rightarrow> (string \<times> string) option" where
  "parse_pair unquote name_value =
     (let name = takeWhile (\<lambda>c. c \<noteq> CHR ''='') name_value;
          rest = dropWhile (\<lambda>c. c \<noteq> CHR ''='') name_value
      in case rest of
           [] \<Rightarrow> None
         | _ # value \<Rightarrow>
             if value = [] then None
             else Some (unquote (replace_char (CHR ''+'') (CHR '' '') name),
                        unquote (replace_char (CHR ''+'') (CHR '' '') value)))"

definition query_tokens :: "(string \<Rightarrow> string) \<Rightarrow> string \<Rightarrow> string list" where
  "query_tokens unquote query_string =
     map snd (filter (\<lambda>p. fst p = ''token'')
       (List.map_filter (parse_pair unquote) (split_on (CHR ''&'') query_string)))"

definition socket_token :: "(string \<Rightarrow> string) \<Rightarrow> (string \<times> string) list \<Rightarrow> string \<Rightarrow> string option" where
  "socket_token unquote headers query_string =
     (let auth_header = dict_get ''authorization'' headers;
          raw = (if starts_with (py_lower auth_header) ''bearer '' then Some (py_strip (drop 7 auth_header)) else None)
      in case raw of
           Some t \<Rightarrow>
             if t \<noteq> [] then Some t
             else (case query_tokens unquote query_string of q # _ \<Rightarrow> Some q | [] \<Rightarrow> Some t)
         | None \<Rightarrow> (case query_tokens unquote query_string of q # _ \<Rightarrow> Some q | [] \<Rightarrow> None))"

subsection \<open>The user\<close>

definition get_user_from_token :: "(string \<Rightarrow> pk option option) \<Rightarrow> string \<Rightarrow> db \<Rightarrow> exn + user option" where
  "get_user_from_token token_claims raw_token s =
     (case token_claims raw_token of
        None \<Rightarrow> Inr None
      | Some None \<Rightarrow> Inl (PyKeyError ''user_id'')
      | Some (Some user_id) \<Rightarrow>
          (case qs_get (\<lambda>u. us_pk u = user_id) (users s) of
             Inr u \<Rightarrow> Inr (Some u)
           | Inl e \<Rightarrow> if e = DoesNotExist then Inr None else Inl e))"

definition JWTAuthMiddleware_call ::
  "(string \<Rightarrow> string) \<Rightarrow> (string \<Rightarrow> pk option option) \<Rightarrow> (user option \<Rightarrow> 'a) \<Rightarrow> (string \<times> string) list \<Rightarrow> string \<Rightarrow>
   db \<Rightarrow> exn + 'a" where
  "JWTAuthMiddleware_call unquote token_claims inner headers query_string s =
     (case (case socket_token unquote headers query_string of
              None \<Rightarrow> Inr None
            | Some t \<Rightarrow> if t = [] then Inr None else get_user_from_token token_claims t s) of
        Inl e \<Rightarrow> Inl e
      | Inr u \<Rightarrow> Inr (inner u))"

subsection \<open>Properties\<close>

definition connect_socket ::
  "(string \<Rightarrow> string) \<Rightarrow> (string \<Rightarrow> pk option option) \<Rightarrow> (string \<Rightarrow> string \<Rightarrow> 'l \<Rightarrow> 'l) \<Rightarrow> string \<Rightarrow>
   (string \<times> string) list \<Rightarrow> string \<Rightarrow> db \<Rightarrow> 'l hub \<Rightarrow> exn + (accept_result \<times> 'l hub)" where
  "connect_socket unquote token_claims gadd channel headers query_string s h =
     JWTAuthMiddleware_call unquote token_claims (\<lambda>u. consumer_connect gadd channel u h) headers query_string s"



end
