(* ===== verification/Error_Envelope.thy ===== *)
theory Error_Envelope
  imports Prelude
begin

text \<open>
  \<open>apps/common/exceptions.py\<close>: the error envelope of the API. An exception carries what the code
  reads of it; the REST framework's own handler is a parameter (\<open>None\<close>: not one of its exceptions),
  as is \<open>py_str\<close>, \<open>str\<close> of a dictionary of its error details.
\<close>

subsection \<open>Details and envelopes\<close>

text \<open>An error detail is a text with a code, a list or a dictionary of details.\<close>

datatype detail =
    Error_detail string string
  | Detail_list "detail list"
  | Detail_dict "(string \<times> detail) list"

datatype json = JStr string | JList "json list" | JObj "(string \<times> json) list"

record api_exception =
  ex_class :: string
  ex_default_code :: "string option"
  ex_detail :: "detail option"
  ex_is_validation :: bool
  ex_str :: string

record envelope =
  en_status :: nat
  en_error :: string
  en_message :: string
  en_details :: json

subsection \<open>Class names to codes\<close>

definition is_upper :: "char \<Rightarrow> bool" where
  "is_upper c = (let n = (of_char c :: nat) in 65 \<le> n \<and> n \<le> 90)"

definition is_lower :: "char \<Rightarrow> bool" where
  "is_lower c = (let n = (of_char c :: nat) in 97 \<le> n \<and> n \<le> 122)"

definition is_digit :: "char \<Rightarrow> bool" where
  "is_digit c = (let n = (of_char c :: nat) in 48 \<le> n \<and> n \<le> 57)"

text \<open>\<open>re.sub\<close> scans from the left and goes on after each match: first the pattern of any character
  (but a line feed), a capital and small letters, then a small letter or digit and a capital.\<close>

function split_words :: "string \<Rightarrow> string" where
  "split_words s =
     (case s of
        c # u # l # rest \<Rightarrow>
          if c \<noteq> CHR 0x0A \<and> is_upper u \<and> is_lower l
          then c # CHR ''_'' # u # takeWhile is_lower (l # rest) @ split_words (dropWhile is_lower (l # rest))
          else c # split_words (u # l # rest)
      | _ \<Rightarrow> s)"
  by pat_completeness auto

termination
  by (relation "measure length") (auto intro: le_less_trans [OF length_dropWhile_le])

declare split_words.simps [simp del]

fun split_caps :: "string \<Rightarrow> string" where
  "split_caps (a # b # rest) =
     (if (is_lower a \<or> is_digit a) \<and> is_upper b then a # CHR ''_'' # b # split_caps rest
      else a # split_caps (b # rest))"
| "split_caps s = s"

definition camel_to_snake :: "string \<Rightarrow> string" where
  "camel_to_snake name = py_lower (split_caps (split_words name))"

subsection \<open>Flattening and serialising\<close>

fun flatten_detail :: "((string \<times> detail) list \<Rightarrow> string) \<Rightarrow> detail \<Rightarrow> string"
  and flatten_list :: "((string \<times> detail) list \<Rightarrow> string) \<Rightarrow> detail list \<Rightarrow> string"
  and flatten_dict :: "((string \<times> detail) list \<Rightarrow> string) \<Rightarrow> string \<Rightarrow> (string \<times> detail) list \<Rightarrow> string" where
  "flatten_detail py_str (Error_detail msg code) = msg"
| "flatten_detail py_str (Detail_list items) = flatten_list py_str items"
| "flatten_detail py_str (Detail_dict items) =
     flatten_dict py_str (if items = [] then ''An error occurred.'' else py_str items) items"
| "flatten_list py_str [] = ''Invalid input.''"
| "flatten_list py_str (item # items) =
     (let msg = flatten_detail py_str item in if msg \<noteq> [] then msg else flatten_list py_str items)"
| "flatten_dict py_str fallback [] = fallback"
| "flatten_dict py_str fallback ((key, value) # items) =
     (let msg = flatten_detail py_str value
      in if msg \<noteq> [] then key @ '': '' @ msg else flatten_dict py_str fallback items)"

fun serialise_detail :: "detail \<Rightarrow> json" where
  "serialise_detail (Error_detail msg code) = JStr msg"
| "serialise_detail (Detail_list items) = JList (map serialise_detail items)"
| "serialise_detail (Detail_dict items) = JObj (map (\<lambda>(k, v). (k, serialise_detail v)) items)"

subsection \<open>The handlers\<close>

definition server_error :: envelope where
  "server_error = \<lparr>en_status = 500, en_error = ''server_error'',
     en_message = ''An unexpected error occurred.'', en_details = JObj []\<rparr>"

definition saas_exception_handler ::
  "(api_exception \<Rightarrow> nat option) \<Rightarrow> ((string \<times> detail) list \<Rightarrow> string) \<Rightarrow> api_exception \<Rightarrow> envelope" where
  "saas_exception_handler drf_handler py_str exc =
     (case drf_handler exc of
        None \<Rightarrow> server_error
      | Some status \<Rightarrow>
          (let error_code = str_or (case ex_default_code exc of Some c \<Rightarrow> c | None \<Rightarrow> [])
                                   (camel_to_snake (ex_class exc));
               (message, details) =
                 (if ex_is_validation exc
                  then (''Invalid input.'',
                        let raw = (case ex_detail exc of Some d \<Rightarrow> serialise_detail d | None \<Rightarrow> JObj [])
                        in case raw of JList l \<Rightarrow> JObj [(''non_field_errors'', raw)] | _ \<Rightarrow> raw)
                  else (case ex_detail exc of Some d \<Rightarrow> flatten_detail py_str d | None \<Rightarrow> ex_str exc, JObj []))
           in \<lparr>en_status = status, en_error = error_code, en_message = message, en_details = details\<rparr>))"

definition handler404 :: envelope where
  "handler404 = \<lparr>en_status = 404, en_error = ''not_found'',
     en_message = ''The requested resource was not found.'', en_details = JObj []\<rparr>"

definition handler500 :: envelope where
  "handler500 = \<lparr>en_status = 500, en_error = ''server_error'',
     en_message = ''An unexpected error occurred.'', en_details = JObj []\<rparr>"

subsection \<open>Lemmas\<close>

lemma flatten_nonempty:
  assumes "\<And>items. items \<noteq> [] \<Longrightarrow> py_str items \<noteq> []"
  shows "flatten_detail py_str d = [] \<longleftrightarrow> (\<exists>code. d = Error_detail [] code)"
    and "flatten_list py_str ds \<noteq> []"
    and "fallback \<noteq> [] \<Longrightarrow> flatten_dict py_str fallback kvs \<noteq> []"
  using assms
  by (induction py_str d and py_str ds and py_str fallback kvs
      rule: flatten_detail_flatten_list_flatten_dict.induct)
    (auto simp: Let_def)

text \<open>A word is a capital followed by small letters.\<close>

definition camel_word :: "string \<Rightarrow> bool" where
  "camel_word w \<longleftrightarrow> (\<exists>u ls. w = u # ls \<and> is_upper u \<and> ls \<noteq> [] \<and> list_all is_lower ls)"

lemma lower_not_upper [simp]: "is_lower c \<Longrightarrow> \<not> is_upper c"
  by (simp add: is_lower_def is_upper_def Let_def)

lemma upper_no_digit [simp]: "is_upper c \<Longrightarrow> \<not> is_lower c \<and> \<not> is_digit c"
  by (simp add: is_lower_def is_upper_def is_digit_def Let_def)

lemma underscore_class [simp]: "\<not> is_lower (CHR ''_'')" "\<not> is_upper (CHR ''_'')" "\<not> is_digit (CHR ''_'')"
  by code_simp+

lemma lower_no_newline [simp]: "is_lower c \<Longrightarrow> c \<noteq> CHR 0x0A" "is_upper c \<Longrightarrow> c \<noteq> CHR 0x0A"
  by (auto simp: is_lower_def is_upper_def)

lemma camel_wordE:
  assumes "camel_word w"
  obtains u l ls where "w = u # l # ls" "is_upper u" "is_lower l" "list_all is_lower ls"
  using assms unfolding camel_word_def by (cases w) (auto simp: neq_Nil_conv)

text \<open>Scanning a run of small letters: nothing happens up to a word that follows it.\<close>

lemma split_words_end: "list_all is_lower ls \<Longrightarrow> split_words ls = ls"
proof (induction ls)
  case Nil
  show ?case by (subst split_words.simps) simp
next
  case (Cons c ls)
  then show ?case by (subst split_words.simps) (auto split: list.splits)
qed

lemma split_words_run:
  assumes "list_all is_lower ls" "ls \<noteq> []" "camel_word w" "rest = [] \<or> is_upper (hd rest)"
  shows "split_words (ls @ w @ rest) = ls @ ''_'' @ w @ split_words rest"
proof -
  from assms(3) obtain u l ws where w: "w = u # l # ws" "is_upper u" "is_lower l" "list_all is_lower ws"
    by (rule camel_wordE)
  have span: "takeWhile is_lower (ws @ rest) = ws" "dropWhile is_lower (ws @ rest) = rest"
    using w(4) assms(4) by (induction ws) (auto split: list.splits, (cases rest; auto)+)
  from assms(1,2) show ?thesis
  proof (induction ls)
    case (Cons c ls)
    show ?case
    proof (cases ls)
      case Nil
      with Cons.prems w span show ?thesis
        by (subst split_words.simps) simp
    next
      case (Cons d ds)
      with Cons.prems have d: "is_lower d" by simp
      have "split_words ((c # ls) @ w @ rest) = c # split_words (ls @ w @ rest)"
        using d Cons w by (subst split_words.simps) (auto split: list.splits)
      with Cons.IH Cons.prems Cons show ?thesis by simp
    qed
  qed simp
qed

lemma split_words_first:
  assumes "camel_word w" "camel_word w'" "rest = [] \<or> is_upper (hd rest)"
  shows "split_words (w @ w' @ rest) = w @ ''_'' @ w' @ split_words rest"
proof -
  from assms(1) obtain u l ls where w: "w = u # l # ls" "is_upper u" "is_lower l" "list_all is_lower ls"
    by (rule camel_wordE)
  from assms(2) obtain v ws where w': "w' = v # ws" by (auto elim: camel_wordE)
  have "split_words (w @ w' @ rest) = u # split_words ((l # ls) @ w' @ rest)"
    using w w' by (subst split_words.simps) (auto split: list.splits)
  also have "split_words ((l # ls) @ w' @ rest) = (l # ls) @ ''_'' @ w' @ split_words rest"
    by (rule split_words_run) (use w assms in auto)
  finally show ?thesis by (simp add: w(1))
qed

text \<open>The first pass separates the words in pairs, as each match uses up a whole word.\<close>

fun in_pairs :: "string list \<Rightarrow> string" where
  "in_pairs (w # w' # ws) = w @ ''_'' @ w' @ in_pairs ws"
| "in_pairs [w] = w"
| "in_pairs [] = []"

lemma concat_upper: "list_all camel_word ws \<Longrightarrow> concat ws = [] \<or> is_upper (hd (concat ws))"
  by (cases ws) (auto elim: camel_wordE)

lemma split_words_concat: "list_all camel_word ws \<Longrightarrow> split_words (concat ws) = in_pairs ws"
proof (induction ws rule: in_pairs.induct)
  case (1 w w' ws)
  then show ?case using split_words_first [of w w' "concat ws"] concat_upper [of ws] by simp
next
  case (2 w)
  then obtain u l ls where w: "w = u # l # ls" "is_upper u" "is_lower l" "list_all is_lower ls"
    by (auto elim: camel_wordE)
  have "split_words w = u # split_words (l # ls)"
    using w split_words_end [of "l # ls"] by (subst split_words.simps) (auto split: list.splits)
  with w split_words_end [of "l # ls"] show ?case by simp
next
  case 3
  show ?case by (subst split_words.simps) simp
qed

text \<open>The second pass fills in the boundaries the first one left.\<close>

lemma split_caps_underscore [simp]: "split_caps (CHR ''_'' # rest) = CHR ''_'' # split_caps rest"
  by (cases rest) simp_all

lemma split_caps_run:
  "list_all is_lower ls \<Longrightarrow> split_caps (ls @ CHR ''_'' # rest) = ls @ CHR ''_'' # split_caps rest"
proof (induction ls)
  case (Cons c ls)
  then show ?case by (cases ls) simp_all
qed simp

lemma split_caps_lower: "list_all is_lower ls \<Longrightarrow> split_caps ls = ls"
  by (induction ls rule: split_caps.induct) auto

lemma split_caps_cap:
  "\<lbrakk>list_all is_lower ls; ls \<noteq> []; is_upper u\<rbrakk> \<Longrightarrow>
    split_caps (ls @ u # rest) = ls @ CHR ''_'' # u # split_caps rest"
proof (induction ls)
  case (Cons c ls)
  then show ?case by (cases ls) auto
qed simp

lemma split_caps_upper: "is_upper u \<Longrightarrow> split_caps (u # rest) = u # split_caps rest"
  by (cases rest) simp_all

lemma split_caps_pairs: "list_all camel_word ws \<Longrightarrow> split_caps (in_pairs ws) = join ''_'' ws"
proof (induction ws rule: in_pairs.induct)
  case (1 w w' ws)
  then have w: "camel_word w" and w': "camel_word w'" and ws: "list_all camel_word ws" by simp_all
  from w obtain u l ls where u: "w = u # l # ls" "is_upper u" "list_all is_lower (l # ls)"
    by (auto elim: camel_wordE)
  from w' obtain v m ms where v: "w' = v # m # ms" "is_upper v" "list_all is_lower (m # ms)"
    by (auto elim: camel_wordE)
  have "split_caps (in_pairs (w # w' # ws)) = w @ CHR ''_'' # v # split_caps ((m # ms) @ in_pairs ws)"
    using u v split_caps_run [of "l # ls"] by (simp add: split_caps_upper)
  moreover have "split_caps ((m # ms) @ in_pairs ws) =
      (m # ms) @ (if ws = [] then [] else ''_'' @ join ''_'' ws)"
  proof (cases ws)
    case Nil
    with v show ?thesis by (simp add: split_caps_lower)
  next
    case (Cons x xs)
    with ws obtain y ys where x: "x = y # ys" "is_upper y" by (auto elim: camel_wordE)
    from Cons x have "\<exists>r. in_pairs ws = y # r" by (cases xs) auto
    then obtain r where r: "in_pairs ws = y # r" by blast
    have "split_caps ((m # ms) @ y # r) = (m # ms) @ CHR ''_'' # y # split_caps r"
      by (rule split_caps_cap) (use v x in auto)
    moreover have "y # split_caps r = join ''_'' ws"
      using 1(1) [OF ws] x(2) by (simp add: r split_caps_upper)
    ultimately show ?thesis using Cons r by simp
  qed
  ultimately show ?case by (cases ws) (simp_all add: v)
next
  case (2 w)
  then obtain u l ls where "w = u # l # ls" "is_upper u" "list_all is_lower (l # ls)"
    by (auto elim: camel_wordE)
  then show ?case using split_caps_lower [of "l # ls"] by (simp add: split_caps_upper)
qed simp

subsection \<open>Properties\<close>

text \<open>The code of an exception class in camel case is its words in small letters, joined by
  underscores: for every sequence of words the two regular expressions together find every boundary,
  although the first alone finds every other one.\<close>

theorem camel_to_snake_words:
  assumes "list_all camel_word ws"
  shows "camel_to_snake (concat ws) = join ''_'' (map py_lower ws) \<and> split_words (concat ws) = in_pairs ws"
proof -
  have "py_lower (join ''_'' xs) = join ''_'' (map py_lower xs)" for xs
  proof (induction "''_''" xs rule: join.induct)
    case (3 p q ps)
    have "py_lower_char (CHR ''_'') = CHR ''_''" by code_simp
    with 3 show ?case by (simp add: py_lower_def)
  qed (simp_all add: py_lower_def)
  with assms show ?thesis
    by (simp add: camel_to_snake_def split_words_concat split_caps_pairs)
qed

theorem camel_to_snake_words_witness: "camel_to_snake ''NotAuthenticatedHere'' = ''not_authenticated_here''"
proof -
  have "list_all camel_word [''Not'', ''Authenticated'', ''Here'']"
    by (simp add: camel_word_def is_upper_def is_lower_def)
  moreover have "map py_lower [''Not'', ''Authenticated'', ''Here''] = [''not'', ''authenticated'', ''here'']"
    by code_simp
  ultimately show ?thesis
    using camel_to_snake_words [of "[''Not'', ''Authenticated'', ''Here'']"] by simp
qed



end
