(* ===== verification/Soft_Delete.thy ===== *)
theory Soft_Delete
  imports Store
begin

text \<open>
  \<open>apps/common/models.py\<close>: the soft-delete base model, its manager and queryset, on the concrete
  model \<open>Record\<close>. An instance is a copy of a row that may be out of date; \<open>save(update_fields=...)\<close>
  writes the named columns of the row with its key and raises when there is none.
\<close>

subsection \<open>Model\<close>

record base_row =
  bm_id :: uuid
  bm_created_at :: instant
  bm_updated_at :: instant
  bm_created_by :: "pk option"
  bm_updated_by :: "pk option"
  bm_is_deleted :: bool
  bm_deleted_at :: "instant option"
  bm_deleted_by :: "pk option"
  bm_title :: string

text \<open>\<open>objects\<close> and \<open>all_objects\<close>.\<close>

definition active_objects :: "base_row list \<Rightarrow> base_row list" where
  "active_objects t = filter (\<lambda>r. \<not> bm_is_deleted r) t"

definition save_deletion :: "base_row \<Rightarrow> (base_row list, unit) op" where
  "save_deletion r t =
     (if qs_exists (\<lambda>x. bm_id x = bm_id r) t
      then (Inr (), qs_update (\<lambda>x. bm_id x = bm_id r)
              (\<lambda>x. x\<lparr>bm_is_deleted := bm_is_deleted r, bm_deleted_at := bm_deleted_at r,
                     bm_deleted_by := bm_deleted_by r\<rparr>) t)
      else (Inl DatabaseError, t))"

text \<open>\<open>delete\<close>, \<open>hard_delete\<close> and \<open>restore\<close> of an instance; the first and last also return the
  instance as they leave it.\<close>

definition soft_delete :: "instant \<Rightarrow> pk option \<Rightarrow> base_row \<Rightarrow> (base_row list, nat \<times> base_row) op" where
  "soft_delete now deleted_by r t =
     (let r' = r\<lparr>bm_is_deleted := True, bm_deleted_at := Some now,
                 bm_deleted_by := (case deleted_by of Some p \<Rightarrow> Some p | None \<Rightarrow> bm_deleted_by r)\<rparr>
      in case save_deletion r' t of
           (Inl e, t') \<Rightarrow> (Inl e, t')
         | (Inr _, t') \<Rightarrow> (Inr (1, r'), t'))"

definition hard_delete_row :: "base_row \<Rightarrow> (base_row list, nat) op" where
  "hard_delete_row r t = (Inr (qs_count (\<lambda>x. bm_id x = bm_id r) t), qs_delete (\<lambda>x. bm_id x = bm_id r) t)"

definition restore :: "base_row \<Rightarrow> (base_row list, base_row) op" where
  "restore r t =
     (let r' = r\<lparr>bm_is_deleted := False, bm_deleted_at := None, bm_deleted_by := None\<rparr>
      in case save_deletion r' t of
           (Inl e, t') \<Rightarrow> (Inl e, t')
         | (Inr _, t') \<Rightarrow> (Inr r', t'))"

text \<open>The queryset operations, on \<open>objects.filter(P)\<close>.\<close>

definition queryset_delete :: "instant \<Rightarrow> (base_row \<Rightarrow> bool) \<Rightarrow> (base_row list, nat) op" where
  "queryset_delete now P t =
     (let Q = (\<lambda>r. \<not> bm_is_deleted r \<and> P r)
      in (Inr (qs_count Q t), qs_update Q (\<lambda>r. r\<lparr>bm_is_deleted := True, bm_deleted_at := Some now\<rparr>) t))"

definition queryset_hard_delete :: "(base_row \<Rightarrow> bool) \<Rightarrow> (base_row list, nat) op" where
  "queryset_hard_delete P t =
     (let Q = (\<lambda>r. \<not> bm_is_deleted r \<and> P r) in (Inr (qs_count Q t), qs_delete Q t))"

subsection \<open>Lemmas\<close>

interpretation record_tbl: keyed_table bm_id "tbl_lookup bm_id" "tbl_upsert bm_id" "tbl_remove bm_id" "tbl_ok bm_id"
  by (rule list_keyed_table)

definition clean_row :: "base_row \<Rightarrow> bool" where
  "clean_row r \<longleftrightarrow> \<not> bm_is_deleted r \<and> bm_deleted_at r = None \<and> bm_deleted_by r = None"

lemma same_id:
  "\<lbrakk>tbl_ok bm_id t; r \<in> set t; x \<in> set t\<rbrakk> \<Longrightarrow> bm_id x = bm_id r \<longleftrightarrow> x = r"
  unfolding tbl_ok_def by (metis distinct_map inj_onD)

lemma save_deletion_ok:
  assumes "r \<in> set t" "bm_id r' = bm_id r"
  shows "save_deletion r' t = (Inr (), qs_update (\<lambda>x. bm_id x = bm_id r)
     (\<lambda>x. x\<lparr>bm_is_deleted := bm_is_deleted r', bm_deleted_at := bm_deleted_at r', bm_deleted_by := bm_deleted_by r'\<rparr>) t)"
  using assms by (auto simp: save_deletion_def)

lemma bulk_as_fold:
  assumes "tbl_ok bm_id t" and "set rs \<subseteq> set t" "distinct rs" and "\<forall>r\<in>set rs. \<not> bm_is_deleted r"
  shows "foldl (\<lambda>t r. snd (soft_delete now None r t)) t rs =
    qs_update (\<lambda>r. r \<in> set rs) (\<lambda>r. r\<lparr>bm_is_deleted := True, bm_deleted_at := Some now\<rparr>) t"
  using assms
proof (induction rs rule: rev_induct)
  case Nil
  show ?case by (simp add: qs_update_def)
next
  case (snoc r rs)
  let ?d = "\<lambda>r. r\<lparr>bm_is_deleted := True, bm_deleted_at := Some now\<rparr>"
  let ?t = "qs_update (\<lambda>r. r \<in> set rs) ?d t"
  have IH: "foldl (\<lambda>t r. snd (soft_delete now None r t)) t rs = ?t" using snoc by simp
  have r: "r \<in> set t" "r \<notin> set rs" using snoc.prems by auto
  have rt: "r \<in> set ?t" using r by force
  have id: "bm_id (if x \<in> set rs then ?d x else x) = bm_id r \<longleftrightarrow> x = r" if "x \<in> set t" for x
    using same_id [OF snoc.prems(1) r(1) that] by simp
  have "snd (soft_delete now None r ?t) = qs_update (\<lambda>x. bm_id x = bm_id r)
      (\<lambda>x. x\<lparr>bm_is_deleted := True, bm_deleted_at := Some now, bm_deleted_by := bm_deleted_by r\<rparr>) ?t"
    by (simp add: soft_delete_def save_deletion_ok [OF rt])
  also have "\<dots> = qs_update (\<lambda>x. x \<in> set (rs @ [r])) ?d t"
    unfolding qs_update_def map_map comp_def
  proof (rule map_cong [OF refl])
    fix x assume "x \<in> set t"
    then show "(if bm_id (if x \<in> set rs then ?d x else x) = bm_id r
         then (if x \<in> set rs then ?d x else x)
           \<lparr>bm_is_deleted := True, bm_deleted_at := Some now, bm_deleted_by := bm_deleted_by r\<rparr>
         else if x \<in> set rs then ?d x else x) = (if x \<in> set (rs @ [r]) then ?d x else x)"
      using id [of x] r(2) by auto
  qed
  finally show ?case using IH by simp
qed

subsection \<open>Properties\<close>

text \<open>C35. Soft deletion and restoring are inverse. Deleting a live row keeps it in the table, with
  everything but the three deletion columns as it was and the deleter recorded, and hides exactly it
  from the default manager; restoring the returned instance gives back the very table. On a row that
  no longer exists both raise and change nothing, and a hard delete removes exactly the row.\<close>

theorem soft_delete_roundtrip:
  assumes ok: "tbl_ok bm_id t" and r: "r \<in> set t" "clean_row r"
  shows "\<exists>r' t'. soft_delete now by_user r t = (Inr (1, r'), t') \<and> r' \<in> set t' \<and>
      r' = r\<lparr>bm_is_deleted := True, bm_deleted_at := Some now, bm_deleted_by := by_user\<rparr> \<and>
      active_objects t' = filter (\<lambda>x. x \<noteq> r) (active_objects t) \<and>
      map bm_id t' = map bm_id t \<and>
      restore r' t' = (Inr r, t) \<and>
      (let t0 = snd (hard_delete_row r' t')
       in t0 = filter (\<lambda>x. x \<noteq> r) t \<and> soft_delete now by_user r t0 = (Inl DatabaseError, t0) \<and>
          restore r' t0 = (Inl DatabaseError, t0))"
proof -
  let ?r' = "r\<lparr>bm_is_deleted := True, bm_deleted_at := Some now, bm_deleted_by := by_user\<rparr>"
  let ?t' = "map (\<lambda>x. if x = r then ?r' else x) t"
  have uniq: "x = r" if "x \<in> set t" "bm_id x = bm_id r" for x
    using same_id [OF ok r(1) that(1)] that(2) by simp
  have "qs_update (\<lambda>x. bm_id x = bm_id r)
      (\<lambda>x. x\<lparr>bm_is_deleted := True, bm_deleted_at := Some now, bm_deleted_by := by_user\<rparr>) t = ?t'"
    unfolding qs_update_def by (rule map_cong) (auto dest: uniq)
  then have del: "soft_delete now by_user r t = (Inr (1, ?r'), ?t')"
    using r by (cases by_user) (simp_all add: soft_delete_def save_deletion_ok [OF r(1)] clean_row_def)
  have r': "?r' \<in> set ?t'" using r(1) by force
  have active: "active_objects ?t' = filter (\<lambda>x. x \<noteq> r) (active_objects t)"
    using r(2) unfolding active_objects_def
    by (induction t) (auto simp: clean_row_def)
  have ids: "map bm_id ?t' = map bm_id t" by auto
  have undo: "(if bm_id (if x = r then ?r' else x) = bm_id r
       then (if x = r then ?r' else x)\<lparr>bm_is_deleted := False, bm_deleted_at := None, bm_deleted_by := None\<rparr>
       else if x = r then ?r' else x) = x" if "x \<in> set t" for x
    using same_id [OF ok r(1) that] r(2) by (auto simp: clean_row_def)
  have rest: "restore ?r' ?t' = (Inr r, t)"
    using r(2) undo by (auto simp: restore_def save_deletion_ok [OF r'] qs_update_def clean_row_def map_idI)
  have gone: "snd (hard_delete_row ?r' ?t') = filter (\<lambda>x. x \<noteq> r) t"
  proof -
    have "filter (\<lambda>x. bm_id x \<noteq> bm_id r) (map (\<lambda>x. if x = r then ?r' else x) xs) = filter (\<lambda>x. x \<noteq> r) xs"
      if "set xs \<subseteq> set t" for xs
      using that by (induction xs) (use same_id [OF ok r(1)] in auto)
    then show ?thesis by (simp add: hard_delete_row_def qs_delete_def)
  qed
  have none: "\<not> qs_exists (\<lambda>x. bm_id x = bm_id r) (filter (\<lambda>x. x \<noteq> r) t)"
    using same_id [OF ok r(1)] by auto
  then have "soft_delete now by_user r (filter (\<lambda>x. x \<noteq> r) t) = (Inl DatabaseError, filter (\<lambda>x. x \<noteq> r) t)"
    "restore ?r' (filter (\<lambda>x. x \<noteq> r) t) = (Inl DatabaseError, filter (\<lambda>x. x \<noteq> r) t)"
    by (simp_all add: soft_delete_def restore_def save_deletion_def del: qs_exists_iff)
  with del r' active ids rest gone show ?thesis by (auto simp: Let_def)
qed

definition demo_row :: "uuid \<Rightarrow> base_row" where
  "demo_row i = \<lparr>bm_id = i, bm_created_at = 0, bm_updated_at = 0, bm_created_by = None, bm_updated_by = None,
     bm_is_deleted = False, bm_deleted_at = None, bm_deleted_by = None, bm_title = ''t''\<rparr>"

theorem soft_delete_roundtrip_witness:
  "\<exists>r' t'. soft_delete 5 (Some 7) (demo_row ''b'') [demo_row ''a'', demo_row ''b''] = (Inr (1, r'), t') \<and>
     active_objects t' = [demo_row ''a''] \<and> restore r' t' = (Inr (demo_row ''b''), [demo_row ''a'', demo_row ''b''])"
proof -
  have "tbl_ok bm_id [demo_row ''a'', demo_row ''b'']" "clean_row (demo_row ''b'')"
    by (simp_all add: tbl_ok_def demo_row_def clean_row_def)
  from soft_delete_roundtrip [OF this(1) _ this(2), of 5 "Some 7"] show ?thesis
    by (auto simp: active_objects_def demo_row_def)
qed

text \<open>Deleting a queryset is deleting its rows one by one: the bulk update leaves the same table as
  a soft delete, without a deleter, of every live row that matches, and reports their number.\<close>

theorem queryset_delete_is_fold:
  assumes ok: "tbl_ok bm_id t"
  shows "queryset_delete now P t =
    (Inr (length (filter P (active_objects t))),
     foldl (\<lambda>t r. snd (soft_delete now None r t)) t (filter P (active_objects t)))"
proof -
  let ?rs = "filter P (active_objects t)"
  have "distinct t" using ok by (auto simp: tbl_ok_def distinct_map)
  then have "foldl (\<lambda>t r. snd (soft_delete now None r t)) t ?rs =
      qs_update (\<lambda>r. r \<in> set ?rs) (\<lambda>r. r\<lparr>bm_is_deleted := True, bm_deleted_at := Some now\<rparr>) t"
    by (intro bulk_as_fold [OF ok]) (auto simp: active_objects_def)
  also have "\<dots> = qs_update (\<lambda>r. \<not> bm_is_deleted r \<and> P r)
      (\<lambda>r. r\<lparr>bm_is_deleted := True, bm_deleted_at := Some now\<rparr>) t"
    by (auto simp: qs_update_def active_objects_def)
  finally show ?thesis
    by (simp add: queryset_delete_def Let_def qs_count_def active_objects_def conj_commute)
qed

theorem queryset_delete_is_fold_witness:
  "queryset_delete 5 (\<lambda>r. bm_id r = ''a'') [demo_row ''a'', demo_row ''b''] =
     (Inr 1, foldl (\<lambda>t r. snd (soft_delete 5 None r t)) [demo_row ''a'', demo_row ''b''] [demo_row ''a''])"
proof -
  have ok: "tbl_ok bm_id [demo_row ''a'', demo_row ''b'']" by (simp add: tbl_ok_def demo_row_def)
  have "filter (\<lambda>r. bm_id r = ''a'') (active_objects [demo_row ''a'', demo_row ''b'']) = [demo_row ''a'']"
    by (simp add: active_objects_def demo_row_def)
  with queryset_delete_is_fold [OF ok, of 5 "\<lambda>r. bm_id r = ''a''"] show ?thesis by simp
qed

end
