(* ===== verification/Throttling.thy ===== *)
theory Throttling
  imports Samples
begin

text \<open>
  \<open>apps/common/throttling.py\<close>: the rates and the buckets of the rate limits. The REST framework's
  sliding window is a parameter: \<open>window rate key c\<close> is whether the request is allowed and the cache
  it leaves; \<open>cache_format scope ident\<close> is its key format.
\<close>

subsection \<open>Rates\<close>

type_synonym rates = "string \<Rightarrow> string option"

definition rate_or :: "string \<Rightarrow> string \<Rightarrow> rates \<Rightarrow> string" where
  "rate_or scope dflt rates = (case rates scope of Some r \<Rightarrow> r | None \<Rightarrow> dflt)"

text \<open>The scoped throttles read \<open>self.scope\<close>: the class's scope, until the framework replaces it by the
  view's \<open>throttle_scope\<close>.\<close>

definition LoginRateThrottle_scope :: string where "LoginRateThrottle_scope = ''login''"

definition RegisterRateThrottle_scope :: string where "RegisterRateThrottle_scope = ''register''"

definition PasswordResetRateThrottle_scope :: string where "PasswordResetRateThrottle_scope = ''password_reset''"

definition LoginRateThrottle_get_rate :: "string \<Rightarrow> rates \<Rightarrow> string" where
  "LoginRateThrottle_get_rate scope rates = rate_or scope ''5/minute'' rates"

definition RegisterRateThrottle_get_rate :: "string \<Rightarrow> rates \<Rightarrow> string" where
  "RegisterRateThrottle_get_rate scope rates = rate_or scope ''3/hour'' rates"

definition PasswordResetRateThrottle_get_rate :: "string \<Rightarrow> rates \<Rightarrow> string" where
  "PasswordResetRateThrottle_get_rate scope rates = rate_or scope ''5/hour'' rates"

definition scope_rate :: "string \<Rightarrow> rates \<Rightarrow> exn + string" where
  "scope_rate scope rates = (case rates scope of Some r \<Rightarrow> Inr r | None \<Rightarrow> Inl (PyKeyError scope))"

subsection \<open>Buckets of the anonymous and the user limit\<close>

text \<open>\<open>get_ident\<close>, the client address, is the framework's.\<close>

definition AnonRateThrottle_get_cache_key ::
  "(string \<Rightarrow> string \<Rightarrow> string) \<Rightarrow> (request \<Rightarrow> string) \<Rightarrow> request \<Rightarrow> string option" where
  "AnonRateThrottle_get_cache_key cache_format get_ident rq =
     (if rq_user rq \<noteq> None then None else Some (cache_format ''anon'' (get_ident rq)))"

definition UserRateThrottle_get_cache_key ::
  "(string \<Rightarrow> string \<Rightarrow> string) \<Rightarrow> (request \<Rightarrow> string) \<Rightarrow> request \<Rightarrow> string option" where
  "UserRateThrottle_get_cache_key cache_format get_ident rq =
     (let ident = (case rq_user rq of Some u \<Rightarrow> str_nat (us_pk u) | None \<Rightarrow> get_ident rq)
      in Some (cache_format ''user'' ident))"

subsection \<open>The plan limit\<close>

text \<open>\<open>tenant.subscription\<close> raises when there is none, which is caught; the slug of no plan is empty.\<close>

definition resolve_plan_rate :: "(string \<times> string) list \<Rightarrow> request \<Rightarrow> db \<Rightarrow> string option" where
  "resolve_plan_rate plan_rates rq s =
     (if plan_rates = [] then None
      else case rq_tenant rq of
             None \<Rightarrow> None
           | Some t \<Rightarrow>
               (case subscription_of s (tn_id t) of
                  None \<Rightarrow> None
                | Some sub \<Rightarrow>
                    (case sb_plan sub of
                       None \<Rightarrow> map_of plan_rates []
                     | Some p \<Rightarrow>
                         (case plan_of s p of
                            None \<Rightarrow> None | Some pl \<Rightarrow> map_of plan_rates (pl_slug pl)))))"

definition TenantPlanThrottle_get_rate :: "rates \<Rightarrow> string option \<Rightarrow> string" where
  "TenantPlanThrottle_get_rate rates user_rate_setting =
     (case rates ''user'' of
        Some r \<Rightarrow> r
      | None \<Rightarrow> (case user_rate_setting of Some r \<Rightarrow> r | None \<Rightarrow> ''100/minute''))"

definition TenantPlanThrottle_get_cache_key ::
  "(string \<Rightarrow> string \<Rightarrow> string) \<Rightarrow> request \<Rightarrow> string option" where
  "TenantPlanThrottle_get_cache_key cache_format rq =
     (case rq_user rq of
        None \<Rightarrow> None
      | Some u \<Rightarrow>
          (let tenant_id = (case rq_tenant rq of Some t \<Rightarrow> tn_id t | None \<Rightarrow> ''no_tenant'')
           in Some (cache_format ''plan'' (str_nat (us_pk u) @ '':'' @ tenant_id))))"

definition TenantPlanThrottle_allow_request ::
  "(string \<Rightarrow> string option \<Rightarrow> 'c \<Rightarrow> bool \<times> 'c) \<Rightarrow> (string \<Rightarrow> string \<Rightarrow> string) \<Rightarrow> (string \<times> string) list \<Rightarrow>
   rates \<Rightarrow> string option \<Rightarrow> request \<Rightarrow> db \<Rightarrow> 'c \<Rightarrow> bool \<times> 'c" where
  "TenantPlanThrottle_allow_request window cache_format plan_rates rates user_rate_setting rq s c =
     (if rq_user rq = None then (True, c)
      else
        (let rate = (case resolve_plan_rate plan_rates rq s of
                       Some r \<Rightarrow> r | None \<Rightarrow> TenantPlanThrottle_get_rate rates user_rate_setting)
         in window rate (TenantPlanThrottle_get_cache_key cache_format rq) c))"

text \<open>The shipped settings, with no variable set.\<close>

definition DEFAULT_THROTTLE_RATES :: "(string \<times> string) list" where
  "DEFAULT_THROTTLE_RATES =
     [(''anon'', ''20/minute''), (''user'', ''100/minute''), (''login'', ''5/minute''), (''register'', ''3/hour''),
      (''password_reset'', ''5/hour''), (''plan'', ''100/minute'')]"

definition PLAN_THROTTLE_RATES :: "(string \<times> string) list" where
  "PLAN_THROTTLE_RATES =
     [(''free'', ''60/minute''), (''starter'', ''300/minute''), (''pro'', ''1000/minute''),
      (''enterprise'', ''10000/minute'')]"

subsection \<open>Lemmas\<close>

text \<open>Every scope the throttles name has a shipped rate, so none of them raises.\<close>

lemma shipped_rates:
  "\<forall>scope\<in>{''anon'', ''user''}. \<exists>r. scope_rate scope (map_of DEFAULT_THROTTLE_RATES) = Inr r"
  "LoginRateThrottle_get_rate LoginRateThrottle_scope (map_of DEFAULT_THROTTLE_RATES) = ''5/minute''"
  "RegisterRateThrottle_get_rate RegisterRateThrottle_scope (map_of DEFAULT_THROTTLE_RATES) = ''3/hour''"
  "PasswordResetRateThrottle_get_rate PasswordResetRateThrottle_scope (map_of DEFAULT_THROTTLE_RATES) = ''5/hour''"
  by (simp_all add: scope_rate_def DEFAULT_THROTTLE_RATES_def LoginRateThrottle_get_rate_def LoginRateThrottle_scope_def
      RegisterRateThrottle_get_rate_def RegisterRateThrottle_scope_def PasswordResetRateThrottle_get_rate_def PasswordResetRateThrottle_scope_def rate_or_def)

text \<open>A request has exactly one of the anonymous and the plan bucket.\<close>

lemma bucket_kinds:
  "AnonRateThrottle_get_cache_key f ident rq = None \<longleftrightarrow> TenantPlanThrottle_get_cache_key f rq \<noteq> None"
  by (auto simp: AnonRateThrottle_get_cache_key_def TenantPlanThrottle_get_cache_key_def Let_def split: option.splits)

definition tenant_key :: "request \<Rightarrow> uuid option" where
  "tenant_key rq = map_option tn_id (rq_tenant rq)"

subsection \<open>Properties\<close>

text \<open>The plan limit. Anonymous requests pass without being counted. An authenticated one is counted
  at the rate of its tenant's plan when the tenant has a subscription to a plan that the settings rate,
  and at the user rate otherwise; it is counted in a bucket that two requests share exactly when they are
  of the same user in the same tenant (or both outside a tenant) - the plan is not part of it, so a plan
  change applies to what was counted before. The hypothesis is that the framework's format keeps
  different identifiers apart and that no tenant has the literal identifier \<open>no_tenant\<close>.\<close>

theorem plan_throttle_correct:
  assumes format: "\<And>scope a b. fmt scope a = fmt scope b \<Longrightarrow> a = b"
    and uuids: "tenant_key rq \<noteq> Some ''no_tenant''" "tenant_key rq' \<noteq> Some ''no_tenant''"
    and users: "rq_user rq = Some u" "rq_user rq' = Some u'"
  shows "(\<forall>anon. rq_user anon = None \<longrightarrow>
       TenantPlanThrottle_allow_request window fmt plan_rates rates dflt anon s c = (True, c)) \<and>
    (\<exists>rate key. TenantPlanThrottle_allow_request window fmt plan_rates rates dflt rq s c = window rate (Some key) c \<and>
       TenantPlanThrottle_get_cache_key fmt rq = Some key \<and>
       (\<forall>t sub p pl r. rq_tenant rq = Some t \<and> subscription_of s (tn_id t) = Some sub \<and> sb_plan sub = Some p \<and>
          plan_of s p = Some pl \<and> map_of plan_rates (pl_slug pl) = Some r \<longrightarrow> rate = r) \<and>
       (resolve_plan_rate plan_rates rq s = None \<longrightarrow> rate = TenantPlanThrottle_get_rate rates dflt)) \<and>
    (TenantPlanThrottle_get_cache_key fmt rq = TenantPlanThrottle_get_cache_key fmt rq' \<longleftrightarrow>
       us_pk u = us_pk u' \<and> tenant_key rq = tenant_key rq')"
proof (intro conjI)
  show "\<forall>anon. rq_user anon = None \<longrightarrow>
       TenantPlanThrottle_allow_request window fmt plan_rates rates dflt anon s c = (True, c)"
    by (simp add: TenantPlanThrottle_allow_request_def)
next
  show "\<exists>rate key. TenantPlanThrottle_allow_request window fmt plan_rates rates dflt rq s c = window rate (Some key) c \<and>
       TenantPlanThrottle_get_cache_key fmt rq = Some key \<and>
       (\<forall>t sub p pl r. rq_tenant rq = Some t \<and> subscription_of s (tn_id t) = Some sub \<and> sb_plan sub = Some p \<and>
          plan_of s p = Some pl \<and> map_of plan_rates (pl_slug pl) = Some r \<longrightarrow> rate = r) \<and>
       (resolve_plan_rate plan_rates rq s = None \<longrightarrow> rate = TenantPlanThrottle_get_rate rates dflt)"
    using users(1)
    by (auto simp: TenantPlanThrottle_allow_request_def TenantPlanThrottle_get_cache_key_def Let_def
        resolve_plan_rate_def split: option.splits)
next
  let ?id = "\<lambda>rq. case rq_tenant rq of Some t \<Rightarrow> tn_id t | None \<Rightarrow> ''no_tenant''"
  have key: "TenantPlanThrottle_get_cache_key fmt r = Some (fmt ''plan'' (str_nat (us_pk v) @ CHR '':'' # ?id r))"
    if "rq_user r = Some v" for r v
    using that by (simp add: TenantPlanThrottle_get_cache_key_def Let_def)
  have id: "?id rq = ?id rq' \<longleftrightarrow> tenant_key rq = tenant_key rq'"
    using uuids by (auto simp: tenant_key_def split: option.splits)
  have "fmt ''plan'' a = fmt ''plan'' b \<longleftrightarrow> a = b" for a b using format by blast
  then show "TenantPlanThrottle_get_cache_key fmt rq = TenantPlanThrottle_get_cache_key fmt rq' \<longleftrightarrow>
       us_pk u = us_pk u' \<and> tenant_key rq = tenant_key rq'"
    unfolding key [OF users(1)] key [OF users(2)] option.inject id [symmetric] by (simp only: str_nat_colon_inject)
qed

theorem plan_throttle_correct_witness:
  "\<exists>rate key. TenantPlanThrottle_allow_request (\<lambda>r k c. (True, (r, k) # c)) (\<lambda>a b. a @ ''_'' @ b) PLAN_THROTTLE_RATES
     (map_of DEFAULT_THROTTLE_RATES) None (demo_request\<lparr>rq_user := Some bob, rq_tenant := Some demo_tenant\<rparr>)
     (demo_db\<lparr>plans := [pro_plan], subscriptions := [sub_row ''t1'' (Some 1) ''active'']\<rparr>) [] =
     (True, [(rate, Some key)]) \<and> rate = ''1000/minute''"
proof -
  let ?rq = "demo_request\<lparr>rq_user := Some bob, rq_tenant := Some demo_tenant\<rparr>"
    and ?s = "demo_db\<lparr>plans := [pro_plan], subscriptions := [sub_row ''t1'' (Some 1) ''active'']\<rparr>"
  have hyp: "tenant_key ?rq \<noteq> Some ''no_tenant''" "rq_user ?rq = Some bob"
    by (simp_all add: tenant_key_def)
  have plan: "rq_tenant ?rq = Some demo_tenant" "subscription_of ?s (tn_id demo_tenant) = Some (sub_row ''t1'' (Some 1) ''active'')"
    "plan_of ?s 1 = Some pro_plan" "map_of PLAN_THROTTLE_RATES (pl_slug pro_plan) = Some ''1000/minute''"
    by (simp_all add: subscription_of_def plan_of_def PLAN_THROTTLE_RATES_def)
  from plan_throttle_correct [of "\<lambda>a b. a @ ''_'' @ b", OF _ hyp(1) hyp(1) hyp(2) hyp(2),
      of "\<lambda>r k c. (True, (r, k) # c)" PLAN_THROTTLE_RATES "map_of DEFAULT_THROTTLE_RATES" None ?s "[]"]
  obtain rate key where "TenantPlanThrottle_allow_request (\<lambda>r k c. (True, (r, k) # c)) (\<lambda>a b. a @ ''_'' @ b)
      PLAN_THROTTLE_RATES (map_of DEFAULT_THROTTLE_RATES) None ?rq ?s [] = (True, [(rate, Some key)])"
    and "\<forall>t sub p pl r. rq_tenant ?rq = Some t \<and> subscription_of ?s (tn_id t) = Some sub \<and> sb_plan sub = Some p \<and>
      plan_of ?s p = Some pl \<and> map_of PLAN_THROTTLE_RATES (pl_slug pl) = Some r \<longrightarrow> rate = r"
    by auto
  with plan show ?thesis by fastforce
qed

end
