(* ===== verification/Platform.thy ===== *)
theory Platform
  imports Schema
begin

text \<open>
  The process-level code: start-up checks (\<open>config/env.py\<close>), log redaction
  (\<open>apps/common/logging_config.py\<close>), request and trace ids (\<open>apps/common/middleware/\<close>,
  \<open>apps/common/celery_logging.py\<close>, \<open>apps/common/sentry.py\<close>) and the health probes
  (\<open>apps/common/health_checks.py\<close>, \<open>apps/common/views.py\<close>). The environment is a map
  (\<open>None\<close>: undefined), \<open>cast_bool\<close> the configuration library's reading of a truth value; the
  logging context is a map from names to texts.
\<close>

subsection \<open>Start-up\<close>

definition REQUIRED_VARS :: "string list" where
  "REQUIRED_VARS = [''SECRET_KEY'', ''DATABASE_URL'', ''REDIS_URL'']"

definition MIN_SECRET_KEY_LENGTH :: nat where "MIN_SECRET_KEY_LENGTH = 50"

definition missing_vars :: "(string \<Rightarrow> string option) \<Rightarrow> string list" where
  "missing_vars config =
     filter (\<lambda>key. case config key of Some value \<Rightarrow> py_strip value = [] | None \<Rightarrow> True) REQUIRED_VARS"

definition validate_required_settings ::
  "(string \<Rightarrow> exn + bool) \<Rightarrow> (string \<Rightarrow> string option) \<Rightarrow> exn + unit" where
  "validate_required_settings cast_bool config =
     (let missing = missing_vars config
      in if missing \<noteq> []
         then Inl (UndefinedValueError (''Missing required environment variable(s): '' @ join '', '' missing @
                ''. Copy .env.example to .env and set all required values.''))
         else
           case (case config ''DEBUG'' of Some v \<Rightarrow> cast_bool v | None \<Rightarrow> Inr True) of
             Inl e \<Rightarrow> Inl e
           | Inr debug \<Rightarrow>
               if debug then Inr ()
               else
                 case config ''SECRET_KEY'' of
                   None \<Rightarrow> Inr ()
                 | Some secret_key \<Rightarrow>
                     if length (py_strip secret_key) < MIN_SECRET_KEY_LENGTH
                     then Inl (PyValueError (''SECRET_KEY must be at least 50 characters. Generate one with: '' @
                            ''python -c '' @ [CHR 0x22] @ ''from django.core.management.utils import '' @
                            ''get_random_secret_key; print(get_random_secret_key())'' @ [CHR 0x22]))
                     else Inr ())"

subsection \<open>Log redaction\<close>

text \<open>A value of a log entry: a text, or an object as the code may pass one.\<close>

datatype log_value = Log_text string | Log_dict "(string \<times> log_value) list"

definition SENSITIVE_FIELDS :: "string list" where
  "SENSITIVE_FIELDS =
     [''password'', ''new_password'', ''old_password'', ''confirm_password'', ''token'', ''access_token'',
      ''refresh_token'', ''reset_token'', ''id_token'', ''authorization'', ''email'', ''secret'', ''api_key'',
      ''secret_key'', ''credit_card'', ''ssn'']"

definition REDACTED :: string where "REDACTED = ''[REDACTED]''"

definition redact_sensitive_fields :: "(string \<Rightarrow> log_value option) \<Rightarrow> string \<Rightarrow> log_value option" where
  "redact_sensitive_fields event_dict =
     foldl (\<lambda>d field. case d field of Some _ \<Rightarrow> d(field \<mapsto> Log_text REDACTED) | None \<Rightarrow> d)
       event_dict SENSITIVE_FIELDS"

definition safe_add_logger_name ::
  "string option \<Rightarrow> (string \<Rightarrow> log_value option) \<Rightarrow> string \<Rightarrow> log_value option" where
  "safe_add_logger_name logger_name event_dict =
     (case logger_name of
        Some name \<Rightarrow> if name = [] then event_dict else event_dict(''logger'' \<mapsto> Log_text name)
      | None \<Rightarrow> event_dict)"

subsection \<open>Request and trace ids\<close>

type_synonym log_context = "string \<Rightarrow> string option"

text \<open>A response with its headers; a handler turns a request into one, or raises, over a state and the logging
  context. \<open>'s\<close> is what the rest of the program keeps.\<close>

record 'a reply =
  reply_response :: "'a response"
  reply_headers :: "string \<Rightarrow> string option"

type_synonym ('s, 'a) handler = "request \<Rightarrow> ('s \<times> log_context, 'a reply) op"

definition set_header :: "string \<Rightarrow> string \<Rightarrow> 'a reply \<Rightarrow> 'a reply" where
  "set_header name value r = r\<lparr>reply_headers := (reply_headers r)(name \<mapsto> value)\<rparr>"

definition RequestContextMiddleware_call :: "string \<Rightarrow> ('s, 'a) handler \<Rightarrow> ('s, 'a) handler" where
  "RequestContextMiddleware_call new_uuid get_response rq w =
     (let request_id = str_or (case rq_headers rq ''X-Request-ID'' of Some v \<Rightarrow> v | None \<Rightarrow> []) new_uuid
      in case get_response rq (fst w, Map.empty(''request_id'' \<mapsto> request_id)) of
           (Inl e, w') \<Rightarrow> (Inl e, (fst w', Map.empty))
         | (Inr response, w') \<Rightarrow> (Inr (set_header ''X-Request-ID'' request_id response), (fst w', Map.empty)))"

definition truthy :: "string option \<Rightarrow> string option" where
  "truthy v = (case v of Some x \<Rightarrow> if x = [] then None else Some x | None \<Rightarrow> None)"

definition inject_trace_id :: "log_context \<Rightarrow> (string \<Rightarrow> string option) option \<Rightarrow> (string \<Rightarrow> string option) option" where
  "inject_trace_id ctx headers =
     (case headers of
        None \<Rightarrow> None
      | Some h \<Rightarrow>
          (case (case truthy (ctx ''request_id'') of Some v \<Rightarrow> Some v | None \<Rightarrow> truthy (ctx ''trace_id'')) of
             Some trace_id \<Rightarrow> Some (h(''trace_id'' \<mapsto> trace_id))
           | None \<Rightarrow> Some h))"

definition bind_task_trace_id :: "string \<Rightarrow> (string \<Rightarrow> string option) option \<Rightarrow> log_context \<Rightarrow> log_context" where
  "bind_task_trace_id new_uuid headers ctx =
     (let h = (case headers of Some h \<Rightarrow> h | None \<Rightarrow> Map.empty);
          trace_id = (case truthy (h ''trace_id'') of Some v \<Rightarrow> v | None \<Rightarrow> new_uuid)
      in Map.empty(''trace_id'' \<mapsto> trace_id))"

definition clear_task_trace_id :: "log_context \<Rightarrow> log_context" where
  "clear_task_trace_id ctx = Map.empty"

text \<open>\<open>_before_send\<close> adds the ids to the tags of a Sentry event.\<close>

definition before_send :: "log_context \<Rightarrow> (string \<Rightarrow> string option) option \<Rightarrow> string \<Rightarrow> string option" where
  "before_send ctx event_tags =
     (let tags = (case event_tags of Some t \<Rightarrow> t | None \<Rightarrow> Map.empty);
          tags1 = (case truthy (ctx ''request_id'') of Some v \<Rightarrow> tags(''request_id'' \<mapsto> v) | None \<Rightarrow> tags)
      in case truthy (ctx ''trace_id'') of Some v \<Rightarrow> tags1(''trace_id'' \<mapsto> v) | None \<Rightarrow> tags1)"

definition ContentSecurityPolicyMiddleware_call :: "string \<Rightarrow> ('s, 'a) handler \<Rightarrow> ('s, 'a) handler" where
  "ContentSecurityPolicyMiddleware_call policy get_response rq w =
     (case get_response rq w of
        (Inl e, w') \<Rightarrow> (Inl e, w')
      | (Inr response, w') \<Rightarrow>
          (Inr (if policy \<noteq> [] then set_header ''Content-Security-Policy'' policy response else response), w'))"

subsection \<open>Health\<close>

text \<open>\<open>connect\<close> is whether the database answers; \<open>set_ok\<close>, \<open>get\<close> and \<open>delete_ok\<close> what the cache does
  (\<open>Inl\<close> and \<open>False\<close>: it raises).\<close>

definition check_database :: "bool \<Rightarrow> exn + string" where
  "check_database connect = (if connect then Inr ''ok'' else Inl DatabaseError)"

definition check_redis :: "bool \<Rightarrow> exn + string option \<Rightarrow> bool \<Rightarrow> exn + string" where
  "check_redis set_ok get delete_ok =
     (if \<not> set_ok then Inl BrokerError
      else case get of
             Inl e \<Rightarrow> Inl e
           | Inr v \<Rightarrow>
               if v \<noteq> Some ''ok'' then Inr ''error''
               else if delete_ok then Inr ''ok'' else Inl BrokerError)"

definition run_readiness_checks :: "exn + string \<Rightarrow> exn + string \<Rightarrow> (string \<times> string) list \<times> bool" where
  "run_readiness_checks database redis =
     (let value = (\<lambda>r. case r of Inr v \<Rightarrow> v | Inl _ \<Rightarrow> ''error'');
          checks = [(''database'', value database), (''redis'', value redis)]
      in (checks, list_all (\<lambda>(_, v). v = ''ok'') checks))"

definition HealthCheckView_get :: "string response" where
  "HealthCheckView_get = Response 200 ''ok''"

definition ReadinessCheckView_get ::
  "exn + string \<Rightarrow> exn + string \<Rightarrow> (string \<times> (string \<times> string) list) response" where
  "ReadinessCheckView_get database redis =
     (let (checks, all_ok) = run_readiness_checks database redis
      in if all_ok then Response 200 (''ok'', checks) else Response 503 (''not_ready'', checks))"

subsection \<open>Lemmas\<close>

lemma readiness_iff:
  "status_code (ReadinessCheckView_get (check_database connect) (check_redis set_ok get delete_ok)) =
     (if connect \<and> set_ok \<and> get = Inr (Some ''ok'') \<and> delete_ok then 200 else 503)"
  by (auto simp: ReadinessCheckView_get_def run_readiness_checks_def check_database_def check_redis_def Let_def
      split: sum.splits)

lemma redact_fold:
  "foldl (\<lambda>d field. case d field of Some _ \<Rightarrow> d(field \<mapsto> v) | None \<Rightarrow> d) m fs =
     (\<lambda>f. if f \<in> set fs \<and> m f \<noteq> None then Some v else m f)"
  by (induction fs arbitrary: m) (auto simp: fun_eq_iff split: option.splits)

text \<open>One hop: a task published in a context runs in the context its worker binds.\<close>

definition hop :: "log_context \<Rightarrow> string \<times> (string \<Rightarrow> string option) \<Rightarrow> log_context" where
  "hop ctx t = bind_task_trace_id (fst t) (inject_trace_id ctx (Some (snd t))) ctx"

definition carries :: "string \<Rightarrow> log_context \<Rightarrow> bool" where
  "carries i ctx \<longleftrightarrow> i \<noteq> [] \<and>
     (case truthy (ctx ''request_id'') of Some v \<Rightarrow> v = i | None \<Rightarrow> ctx ''trace_id'' = Some i)"

lemma hop_carries: "carries i ctx \<Longrightarrow> hop ctx t = Map.empty(''trace_id'' \<mapsto> i) \<and> carries i (hop ctx t)"
  by (auto simp: carries_def hop_def inject_trace_id_def bind_task_trace_id_def truthy_def
      split: option.splits if_splits)

subsection \<open>Properties\<close>

text \<open>Start-up fails fast and precisely. The check passes exactly when every required variable is set
  and not blank and, unless \<open>DEBUG\<close> is on (its default), the secret key has at least 50 characters
  without the surrounding space. When it fails on missing variables the error names exactly these, in
  the declared order, whatever else is wrong.\<close>

theorem startup_check_exact:
  "(validate_required_settings cast_bool config = Inr () \<longleftrightarrow>
      (\<forall>key\<in>set REQUIRED_VARS. \<exists>v. config key = Some v \<and> py_strip v \<noteq> []) \<and>
      (case config ''DEBUG'' of None \<Rightarrow> True
       | Some v \<Rightarrow> cast_bool v = Inr True \<or>
           (cast_bool v = Inr False \<and> (\<exists>k. config ''SECRET_KEY'' = Some k \<and> 50 \<le> length (py_strip k))))) \<and>
   (missing_vars config \<noteq> [] \<longrightarrow>
      (\<exists>text. validate_required_settings cast_bool config = Inl (UndefinedValueError text) \<and>
         text = ''Missing required environment variable(s): '' @ join '', '' (missing_vars config) @
           ''. Copy .env.example to .env and set all required values.'')) \<and>
   set (missing_vars config) = {key \<in> set REQUIRED_VARS. \<forall>v. config key = Some v \<longrightarrow> py_strip v = []}"
proof (intro conjI)
  have missing: "missing_vars config = [] \<longleftrightarrow> (\<forall>key\<in>set REQUIRED_VARS. \<exists>v. config key = Some v \<and> py_strip v \<noteq> [])"
    by (auto simp: missing_vars_def filter_empty_conv split: option.splits)
  show "validate_required_settings cast_bool config = Inr () \<longleftrightarrow>
      (\<forall>key\<in>set REQUIRED_VARS. \<exists>v. config key = Some v \<and> py_strip v \<noteq> []) \<and>
      (case config ''DEBUG'' of None \<Rightarrow> True
       | Some v \<Rightarrow> cast_bool v = Inr True \<or>
           (cast_bool v = Inr False \<and> (\<exists>k. config ''SECRET_KEY'' = Some k \<and> 50 \<le> length (py_strip k))))"
  proof (cases "missing_vars config = []")
    case False
    with missing show ?thesis by (simp add: validate_required_settings_def)
  next
    case True
    with missing have "\<exists>k. config ''SECRET_KEY'' = Some k" by (auto simp: REQUIRED_VARS_def)
    with True show ?thesis unfolding missing [symmetric]
      by (auto simp: validate_required_settings_def MIN_SECRET_KEY_LENGTH_def split: option.splits sum.splits if_splits)
  qed
  show "missing_vars config \<noteq> [] \<longrightarrow>
      (\<exists>text. validate_required_settings cast_bool config = Inl (UndefinedValueError text) \<and>
         text = ''Missing required environment variable(s): '' @ join '', '' (missing_vars config) @
           ''. Copy .env.example to .env and set all required values.'')"
    by (simp add: validate_required_settings_def)
  show "set (missing_vars config) = {key \<in> set REQUIRED_VARS. \<forall>v. config key = Some v \<longrightarrow> py_strip v = []}"
    by (auto simp: missing_vars_def split: option.splits)
qed

theorem startup_check_exact_witness:
  "missing_vars (Map.empty(''SECRET_KEY'' \<mapsto> '' '', ''REDIS_URL'' \<mapsto> ''r'')) = [''SECRET_KEY'', ''DATABASE_URL''] \<and>
   (\<exists>text. validate_required_settings (\<lambda>_. Inr True) (Map.empty(''SECRET_KEY'' \<mapsto> '' '', ''REDIS_URL'' \<mapsto> ''r'')) =
      Inl (UndefinedValueError text))"
proof -
  have strip: "py_strip '' '' = []" "py_strip ''r'' = ''r''" by code_simp+
  let ?c = "Map.empty(''SECRET_KEY'' \<mapsto> '' '', ''REDIS_URL'' \<mapsto> ''r'')"
  have m: "missing_vars ?c = [''SECRET_KEY'', ''DATABASE_URL'']"
    by (simp add: missing_vars_def REQUIRED_VARS_def strip)
  with startup_check_exact [of "\<lambda>_. Inr True" ?c] show ?thesis by auto
qed

text \<open>Redaction. After the processor every sensitive field that was present reads as redacted and no
  field is added; every other field is untouched, and a second run changes nothing. The match is on the
  exact name of a top-level field: a value inside an object passes through unchanged.\<close>

theorem redaction_exact:
  "redact_sensitive_fields event f =
     (if f \<in> set SENSITIVE_FIELDS \<and> event f \<noteq> None then Some (Log_text REDACTED) else event f) \<and>
   redact_sensitive_fields (redact_sensitive_fields event) = redact_sensitive_fields event \<and>
   dom (redact_sensitive_fields event) = dom event \<and>
   redact_sensitive_fields (event(''user'' \<mapsto> Log_dict [(''password'', Log_text secret)])) ''user'' =
     Some (Log_dict [(''password'', Log_text secret)])"
proof -
  have red: "redact_sensitive_fields e =
      (\<lambda>f. if f \<in> set SENSITIVE_FIELDS \<and> e f \<noteq> None then Some (Log_text REDACTED) else e f)" for e
    unfolding redact_sensitive_fields_def by (rule redact_fold)
  have "''user'' \<notin> set SENSITIVE_FIELDS" by (simp add: SENSITIVE_FIELDS_def)
  then show ?thesis by (auto simp: red fun_eq_iff dom_def)
qed

text \<open>Correlation ids survive the queue. In a request the id is the client's \<open>X-Request-ID\<close> or a fresh
  one, and the response carries it; a task published during the request runs with it as its trace id, and
  so does every task published from that task, through any chain of hops. Afterwards the context is empty,
  also when the view raises.\<close>

theorem trace_id_roundtrip:
  assumes fresh: "new_uuid \<noteq> []"
    and rid: "rid = str_or (case rq_headers rq ''X-Request-ID'' of Some v \<Rightarrow> v | None \<Rightarrow> []) new_uuid"
    and run: "RequestContextMiddleware_call new_uuid view rq w = (r, w')"
  shows "snd w' = Map.empty \<and>
    (\<forall>response. r = Inr response \<longrightarrow> reply_headers response ''X-Request-ID'' = Some rid) \<and>
    (\<exists>inner. carries rid inner \<and> inner ''request_id'' = Some rid \<and>
       (\<forall>e. r = Inl e \<longrightarrow> fst (view rq (fst w, inner)) = Inl e) \<and>
       (\<forall>tasks. tasks \<noteq> [] \<longrightarrow> foldl hop inner tasks = Map.empty(''trace_id'' \<mapsto> rid)))"
proof -
  have ne: "rid \<noteq> []" using fresh by (simp add: rid str_or_def)
  let ?inner = "Map.empty(''request_id'' \<mapsto> rid) :: log_context"
  have inner: "carries rid ?inner" using ne by (simp add: carries_def truthy_def)
  have "foldl hop ?inner tasks = Map.empty(''trace_id'' \<mapsto> rid)" if "tasks \<noteq> []" for tasks
    using that
  proof (induction tasks rule: rev_induct)
    case (snoc t tasks)
    show ?case
    proof (cases "tasks = []")
      case True
      have "hop ?inner t = Map.empty(''trace_id'' \<mapsto> rid)" using hop_carries [OF inner] by blast
      then show ?thesis unfolding True append_Nil foldl.simps .
    next
      case False
      then have IH: "foldl hop ?inner tasks = Map.empty(''trace_id'' \<mapsto> rid)" by (rule snoc.IH)
      have "carries rid (Map.empty(''trace_id'' \<mapsto> rid))" using ne by (simp add: carries_def truthy_def)
      from hop_carries [OF this] have "hop (foldl hop ?inner tasks) t = Map.empty(''trace_id'' \<mapsto> rid)"
        unfolding IH by blast
      then show ?thesis unfolding foldl_append foldl.simps .
    qed
  qed simp
  moreover from run have "snd w' = Map.empty" "\<forall>response. r = Inr response \<longrightarrow> reply_headers response ''X-Request-ID'' = Some rid"
    "\<forall>e. r = Inl e \<longrightarrow> fst (view rq (fst w, ?inner)) = Inl e"
    by (auto simp: RequestContextMiddleware_call_def Let_def rid set_header_def split: prod.splits sum.splits)
  ultimately show ?thesis using inner by (intro conjI exI [of _ ?inner]) simp_all
qed

theorem trace_id_roundtrip_witness:
  "snd (snd (RequestContextMiddleware_call ''u1'' (\<lambda>rq w. (Inr \<lparr>reply_response = Response 200 (), reply_headers = Map.empty\<rparr>, w))
     \<lparr>rq_path = ''/'', rq_host = ''h'', rq_headers = Map.empty, rq_META = Map.empty, rq_user = None, rq_tenant = None\<rparr>
     ((), Map.empty(''old'' \<mapsto> ''x'')))) = Map.empty"
proof -
  let ?rq = "\<lparr>rq_path = ''/'', rq_host = ''h'', rq_headers = Map.empty, rq_META = Map.empty, rq_user = None,
     rq_tenant = None\<rparr> :: request"
  let ?view = "\<lambda>rq w. (Inr \<lparr>reply_response = Response 200 (), reply_headers = Map.empty\<rparr>, w)"
  obtain r w' where run: "RequestContextMiddleware_call ''u1'' ?view ?rq ((), Map.empty(''old'' \<mapsto> ''x'')) = (r, w')"
    by (metis prod.exhaust)
  from trace_id_roundtrip [OF _ refl run] run show ?thesis by simp
qed

end
