(* ===== verification/Settings.thy ===== *)
theory Settings
  imports Platform Throttling
begin

text \<open>
  The settings modules (\<open>config/settings/\<close>) and the typed getters of \<open>config/env.py\<close>: what the process
  computes from its environment when it starts, the errors that stop it, and what the production,
  staging, local, test and type-checking variants change. The environment is a map (\<open>None\<close>: undefined); the
  configuration library's conversions and the database URL parser are the record \<open>casts\<close>. Paths, templates and
  the documentation's titles are left out.
\<close>

subsection \<open>Typed getters\<close>

type_synonym config = "string \<Rightarrow> string option"

record casts =
  cast_bool :: "string \<Rightarrow> exn + bool"
  cast_int :: "string \<Rightarrow> exn + int"
  cast_csv :: "string \<Rightarrow> string list"
  parse_database_url :: "string \<Rightarrow> exn + (string \<times> string) list"

definition and_then :: "exn + 'a \<Rightarrow> ('a \<Rightarrow> exn + 'b) \<Rightarrow> exn + 'b" where
  "and_then r f = (case r of Inl e \<Rightarrow> Inl e | Inr x \<Rightarrow> f x)"

text \<open>\<open>get_str\<close> with a default, and with \<open>required=True\<close>.\<close>

definition config_str :: "config \<Rightarrow> string \<Rightarrow> string \<Rightarrow> string" where
  "config_str config key dflt = (case config key of Some v \<Rightarrow> v | None \<Rightarrow> dflt)"

definition get_required :: "config \<Rightarrow> string \<Rightarrow> exn + string" where
  "get_required config key =
     (case config key of Some v \<Rightarrow> Inr v
      | None \<Rightarrow> Inl (UndefinedValueError (key @ '' not found. Declare it as envvar or define a default value.'')))"

definition get_bool :: "casts \<Rightarrow> config \<Rightarrow> string \<Rightarrow> bool \<Rightarrow> exn + bool" where
  "get_bool c config key dflt = (case config key of Some v \<Rightarrow> cast_bool c v | None \<Rightarrow> Inr dflt)"

definition get_int :: "casts \<Rightarrow> config \<Rightarrow> string \<Rightarrow> int \<Rightarrow> exn + int" where
  "get_int c config key dflt = (case config key of Some v \<Rightarrow> cast_int c v | None \<Rightarrow> Inr dflt)"

definition get_csv :: "casts \<Rightarrow> config \<Rightarrow> string \<Rightarrow> string \<Rightarrow> string list" where
  "get_csv c config key dflt = cast_csv c (config_str config key dflt)"

definition get_database_url_config :: "casts \<Rightarrow> config \<Rightarrow> exn + (string \<times> string) list" where
  "get_database_url_config c config = and_then (get_required config ''DATABASE_URL'') (parse_database_url c)"

subsection \<open>Applications\<close>

definition DJANGO_APPS :: "string list" where
  "DJANGO_APPS =
     [''django.contrib.admin'', ''django.contrib.auth'', ''django.contrib.contenttypes'', ''django.contrib.sessions'',
      ''django.contrib.messages'', ''django.contrib.staticfiles'']"

definition THIRD_PARTY_APPS :: "string list" where
  "THIRD_PARTY_APPS =
     [''corsheaders'', ''rest_framework'', ''rest_framework_simplejwt'', ''rest_framework_simplejwt.token_blacklist'',
      ''drf_spectacular'', ''django_celery_beat'', ''django_filters'', ''channels'', ''waffle'', ''storages'']"

definition LOCAL_APPS :: "string list" where
  "LOCAL_APPS =
     [''apps.common'', ''apps.users'', ''apps.authentication'', ''apps.tenants'', ''apps.rbac'', ''apps.notifications'',
      ''apps.billing'', ''apps.audit'', ''apps.invitations'', ''apps.features'']"

definition INSTALLED_APPS :: "string list" where
  "INSTALLED_APPS = DJANGO_APPS @ THIRD_PARTY_APPS @ LOCAL_APPS"

definition AUTH_PASSWORD_VALIDATORS :: "string list" where
  "AUTH_PASSWORD_VALIDATORS =
     [''django.contrib.auth.password_validation.UserAttributeSimilarityValidator'',
      ''django.contrib.auth.password_validation.MinimumLengthValidator'',
      ''django.contrib.auth.password_validation.CommonPasswordValidator'',
      ''django.contrib.auth.password_validation.NumericPasswordValidator'']"

definition TIME_ZONE :: string where "TIME_ZONE = ''UTC''"

subsection \<open>Base settings\<close>

record s3_settings =
  AWS_ACCESS_KEY_ID :: string
  AWS_SECRET_ACCESS_KEY :: string
  AWS_STORAGE_BUCKET_NAME :: string
  AWS_S3_REGION_NAME :: string
  AWS_S3_ENDPOINT_URL :: string
  AWS_S3_CUSTOM_DOMAIN :: string
  AWS_DEFAULT_ACL :: string
  AWS_S3_FILE_OVERWRITE :: bool
  AWS_QUERYSTRING_AUTH :: bool
  AWS_QUERYSTRING_EXPIRE :: int
  AWS_S3_OBJECT_PARAMETERS :: "(string \<times> string) list"

definition s3_of :: "config \<Rightarrow> s3_settings" where
  "s3_of config =
     \<lparr>AWS_ACCESS_KEY_ID = config_str config ''AWS_ACCESS_KEY_ID'' [],
      AWS_SECRET_ACCESS_KEY = config_str config ''AWS_SECRET_ACCESS_KEY'' [],
      AWS_STORAGE_BUCKET_NAME = config_str config ''AWS_STORAGE_BUCKET_NAME'' ''saas-media'',
      AWS_S3_REGION_NAME = config_str config ''AWS_S3_REGION_NAME'' ''us-east-1'',
      AWS_S3_ENDPOINT_URL = config_str config ''AWS_S3_ENDPOINT_URL'' [],
      AWS_S3_CUSTOM_DOMAIN = config_str config ''AWS_S3_CUSTOM_DOMAIN'' [],
      AWS_DEFAULT_ACL = ''private'', AWS_S3_FILE_OVERWRITE = False, AWS_QUERYSTRING_AUTH = True,
      AWS_QUERYSTRING_EXPIRE = 3600, AWS_S3_OBJECT_PARAMETERS = [(''CacheControl'', ''max-age=86400'')]\<rparr>"

definition STORAGES :: "bool \<Rightarrow> (string \<times> string) list" where
  "STORAGES use_s3 =
     [(''default'', if use_s3 then ''storages.backends.s3boto3.S3Boto3Storage''
                    else ''django.core.files.storage.FileSystemStorage''),
      (''staticfiles'', ''whitenoise.storage.CompressedManifestStaticFilesStorage'')]"

definition throttle_rates :: "config \<Rightarrow> (string \<times> string) list" where
  "throttle_rates config =
     [(''anon'', config_str config ''THROTTLE_ANON_RATE'' ''20/minute''),
      (''user'', config_str config ''THROTTLE_USER_RATE'' ''100/minute''),
      (''login'', config_str config ''THROTTLE_LOGIN_RATE'' ''5/minute''),
      (''register'', config_str config ''THROTTLE_REGISTER_RATE'' ''3/hour''),
      (''password_reset'', config_str config ''THROTTLE_PASSWORD_RESET_RATE'' ''5/hour''),
      (''plan'', config_str config ''THROTTLE_USER_RATE'' ''100/minute'')]"

record rest_framework =
  DEFAULT_AUTHENTICATION_CLASSES :: "string list"
  DEFAULT_PERMISSION_CLASSES :: "string list"
  DEFAULT_SCHEMA_CLASS :: string
  DEFAULT_PAGINATION_CLASS :: string
  PAGE_SIZE :: nat
  DEFAULT_FILTER_BACKENDS :: "string list"
  DEFAULT_THROTTLE_CLASSES :: "string list"
  THROTTLE_RATES :: "(string \<times> string) list"
  EXCEPTION_HANDLER :: string

definition rest_framework_of :: "config \<Rightarrow> rest_framework" where
  "rest_framework_of config =
     \<lparr>DEFAULT_AUTHENTICATION_CLASSES = [''rest_framework_simplejwt.authentication.JWTAuthentication''],
      DEFAULT_PERMISSION_CLASSES = [''rest_framework.permissions.IsAuthenticated''],
      DEFAULT_SCHEMA_CLASS = ''drf_spectacular.openapi.AutoSchema'',
      DEFAULT_PAGINATION_CLASS = ''apps.common.pagination.StandardPagination'', PAGE_SIZE = 20,
      DEFAULT_FILTER_BACKENDS =
        [''django_filters.rest_framework.DjangoFilterBackend'', ''rest_framework.filters.SearchFilter'',
         ''rest_framework.filters.OrderingFilter''],
      DEFAULT_THROTTLE_CLASSES =
        [''apps.common.throttling.AnonRateThrottle'', ''apps.common.throttling.UserRateThrottle'',
         ''apps.common.throttling.LoginRateThrottle''],
      THROTTLE_RATES = throttle_rates config,
      EXCEPTION_HANDLER = ''apps.common.exceptions.saas_exception_handler''\<rparr>"

definition plan_throttle_rates :: "config \<Rightarrow> (string \<times> string) list" where
  "plan_throttle_rates config =
     [(''free'', config_str config ''THROTTLE_PLAN_FREE'' ''60/minute''),
      (''starter'', config_str config ''THROTTLE_PLAN_STARTER'' ''300/minute''),
      (''pro'', config_str config ''THROTTLE_PLAN_PRO'' ''1000/minute''),
      (''enterprise'', config_str config ''THROTTLE_PLAN_ENTERPRISE'' ''10000/minute'')]"

definition frontend_url :: "config \<Rightarrow> string" where
  "frontend_url config = config_str config ''FRONTEND_URL'' ''http://localhost:3000''"

definition billing_portal_url :: "config \<Rightarrow> string" where
  "billing_portal_url config = config_str config ''BILLING_PORTAL_URL'' (frontend_url config @ ''/billing'')"

record jwt_settings =
  access_token_minutes :: int
  refresh_token_days :: int
  ROTATE_REFRESH_TOKENS :: bool
  BLACKLIST_AFTER_ROTATION :: bool

definition simple_jwt :: "casts \<Rightarrow> config \<Rightarrow> exn + jwt_settings" where
  "simple_jwt c config =
     and_then (get_int c config ''JWT_ACCESS_TOKEN_LIFETIME_MINUTES'' 15) (\<lambda>minutes.
     and_then (get_int c config ''JWT_REFRESH_TOKEN_LIFETIME_DAYS'' 7) (\<lambda>days.
     Inr \<lparr>access_token_minutes = minutes, refresh_token_days = days, ROTATE_REFRESH_TOKENS = True,
          BLACKLIST_AFTER_ROTATION = True\<rparr>))"

text \<open>A beat entry: its name, its task and its interval in seconds.\<close>

definition CELERY_BEAT_SCHEDULE :: "(string \<times> string \<times> int) list" where
  "CELERY_BEAT_SCHEDULE =
     [(''cleanup-expired-tokens-daily'', ''apps.authentication.tasks.cleanup_expired_tokens'', 60 * 60 * 24)]"

record queue_settings =
  REDIS_URL :: string
  CELERY_BROKER_URL :: string
  CELERY_RESULT_BACKEND :: string
  CELERY_ACCEPT_CONTENT :: "string list"
  CELERY_TASK_SERIALIZER :: string
  CELERY_RESULT_SERIALIZER :: string
  CELERY_TIMEZONE :: string
  CELERY_BEAT_SCHEDULER :: string
  CELERY_BEAT_ENTRIES :: "(string \<times> string \<times> int) list"
  CELERY_TASK_ACKS_LATE :: bool
  CELERY_TASK_REJECT_ON_WORKER_LOST :: bool

definition queue_settings_of :: "config \<Rightarrow> exn + queue_settings" where
  "queue_settings_of config =
     and_then (get_required config ''REDIS_URL'') (\<lambda>redis.
     Inr \<lparr>REDIS_URL = redis, CELERY_BROKER_URL = config_str config ''CELERY_BROKER_URL'' redis,
          CELERY_RESULT_BACKEND = config_str config ''CELERY_RESULT_BACKEND'' redis,
          CELERY_ACCEPT_CONTENT = [''json''], CELERY_TASK_SERIALIZER = ''json'', CELERY_RESULT_SERIALIZER = ''json'',
          CELERY_TIMEZONE = TIME_ZONE, CELERY_BEAT_SCHEDULER = ''django_celery_beat.schedulers:DatabaseScheduler'',
          CELERY_BEAT_ENTRIES = CELERY_BEAT_SCHEDULE,
          CELERY_TASK_ACKS_LATE = True, CELERY_TASK_REJECT_ON_WORKER_LOST = True\<rparr>)"

text \<open>A cache or channel backend: its class and the servers it connects to.\<close>

record backend_settings =
  BACKEND :: string
  HOSTS :: "string list"

definition cache_settings :: "string \<Rightarrow> backend_settings" where
  "cache_settings redis_url = \<lparr>BACKEND = ''django.core.cache.backends.redis.RedisCache'', HOSTS = [redis_url]\<rparr>"

definition channel_settings :: "string \<Rightarrow> backend_settings" where
  "channel_settings redis_url = \<lparr>BACKEND = ''channels_redis.core.RedisChannelLayer'', HOSTS = [redis_url]\<rparr>"

record email_settings =
  EMAIL_BACKEND :: string
  DEFAULT_FROM_EMAIL :: string
  EMAIL_HOST :: string
  EMAIL_PORT :: int
  EMAIL_HOST_USER :: string
  EMAIL_HOST_PASSWORD :: string
  EMAIL_USE_TLS :: bool
  EMAIL_USE_SSL :: bool

definition email_settings_of :: "casts \<Rightarrow> config \<Rightarrow> exn + email_settings" where
  "email_settings_of c config =
     and_then (get_int c config ''EMAIL_PORT'' 587) (\<lambda>port.
     and_then (get_bool c config ''EMAIL_USE_TLS'' True) (\<lambda>tls.
     and_then (get_bool c config ''EMAIL_USE_SSL'' False) (\<lambda>ssl.
     Inr \<lparr>EMAIL_BACKEND = config_str config ''EMAIL_BACKEND'' ''django.core.mail.backends.console.EmailBackend'',
          DEFAULT_FROM_EMAIL = config_str config ''DEFAULT_FROM_EMAIL'' (''noreply'' @ [CHR 0x40] @ ''example.com''),
          EMAIL_HOST = config_str config ''EMAIL_HOST'' [], EMAIL_PORT = port,
          EMAIL_HOST_USER = config_str config ''EMAIL_HOST_USER'' [],
          EMAIL_HOST_PASSWORD = config_str config ''EMAIL_HOST_PASSWORD'' [],
          EMAIL_USE_TLS = tls, EMAIL_USE_SSL = ssl\<rparr>)))"

record settings =
  SECRET_KEY :: string
  DEBUG :: bool
  ALLOWED_HOSTS :: "string list"
  DATABASES :: "(string \<times> string) list"
  S3 :: "s3_settings option"
  STORAGES_backends :: "(string \<times> string) list"
  REST_FRAMEWORK :: rest_framework
  PLAN_RATES :: "(string \<times> string) list"
  SITE_NAME :: string
  FRONTEND_URL :: string
  BILLING_PORTAL_URL :: string
  SIMPLE_JWT :: jwt_settings
  QUEUES :: queue_settings
  STRIPE_SECRET_KEY :: string
  STRIPE_WEBHOOK_SECRET :: string
  CACHE :: backend_settings
  CHANNEL_LAYER :: backend_settings
  EMAIL :: email_settings
  PASSWORD_RESET_TIMEOUT :: int
  STRUCTLOG_JSON :: bool

definition base_settings :: "casts \<Rightarrow> config \<Rightarrow> exn + settings" where
  "base_settings c config =
     and_then (validate_required_settings (cast_bool c) config) (\<lambda>_.
     and_then (get_required config ''SECRET_KEY'') (\<lambda>secret_key.
     and_then (get_bool c config ''DEBUG'' False) (\<lambda>debug.
     and_then (get_database_url_config c config) (\<lambda>database.
     and_then (get_bool c config ''USE_S3'' False) (\<lambda>use_s3.
     and_then (simple_jwt c config) (\<lambda>jwt.
     and_then (queue_settings_of config) (\<lambda>qs.
     and_then (email_settings_of c config) (\<lambda>mail.
     and_then (get_int c config ''PASSWORD_RESET_TIMEOUT'' 3600) (\<lambda>timeout.
     Inr \<lparr>SECRET_KEY = secret_key, DEBUG = debug, ALLOWED_HOSTS = get_csv c config ''ALLOWED_HOSTS'' [],
          DATABASES = database, S3 = (if use_s3 then Some (s3_of config) else None),
          STORAGES_backends = STORAGES use_s3, REST_FRAMEWORK = rest_framework_of config,
          PLAN_RATES = plan_throttle_rates config, SITE_NAME = config_str config ''SITE_NAME'' ''Django SaaS Kit'',
          FRONTEND_URL = frontend_url config, BILLING_PORTAL_URL = billing_portal_url config,
          SIMPLE_JWT = jwt, QUEUES = qs, STRIPE_SECRET_KEY = config_str config ''STRIPE_SECRET_KEY'' [],
          STRIPE_WEBHOOK_SECRET = config_str config ''STRIPE_WEBHOOK_SECRET'' [],
          CACHE = cache_settings (REDIS_URL qs), CHANNEL_LAYER = channel_settings (REDIS_URL qs),
          EMAIL = mail, PASSWORD_RESET_TIMEOUT = timeout, STRUCTLOG_JSON = (\<not> debug)\<rparr>)))))))))"


subsection \<open>Variants\<close>

definition DEFAULT_CONTENT_SECURITY_POLICY :: string where
  "DEFAULT_CONTENT_SECURITY_POLICY =
     ''default-src '' @ quoted ''self'' @ ''; '' @
     ''script-src '' @ quoted ''self'' @ '' '' @ quoted ''unsafe-inline'' @ ''; '' @
     ''style-src '' @ quoted ''self'' @ '' '' @ quoted ''unsafe-inline'' @ ''; '' @
     ''img-src '' @ quoted ''self'' @ '' data: https:; '' @
     ''connect-src '' @ quoted ''self'' @ ''; '' @
     ''frame-ancestors '' @ quoted ''none'' @ ''; '' @
     ''base-uri '' @ quoted ''self'' @ ''; '' @
     ''form-action '' @ quoted ''self''"

definition HSTS_SECONDS :: int where "HSTS_SECONDS = 31536000"

text \<open>What \<open>prod.py\<close> adds to the base settings; \<open>staging.py\<close> imports it.\<close>

record prod_settings =
  BASE :: settings
  CORS_ALLOWED_ORIGINS :: "string list"
  CORS_ALLOW_CREDENTIALS :: bool
  SECURE_PROXY_SSL_HEADER :: "string \<times> string"
  SECURE_SSL_REDIRECT :: bool
  SESSION_COOKIE_SECURE :: bool
  CSRF_COOKIE_SECURE :: bool
  SECURE_HSTS_SECONDS :: int
  SECURE_HSTS_INCLUDE_SUBDOMAINS :: bool
  SECURE_HSTS_PRELOAD :: bool
  X_FRAME_OPTIONS :: string
  CONTENT_SECURITY_POLICY :: string
  SECURE_REFERRER_POLICY :: string
  sentry_dsn :: "string option"

definition hosts_required :: string where
  "hosts_required = ''ALLOWED_HOSTS is required in production. '' @
     ''Set a comma-separated list of hostnames in the environment.''"

definition origins_required :: string where
  "origins_required = ''CORS_ALLOWED_ORIGINS is required in production. '' @
     ''Set a comma-separated list of allowed origins, e.g. https://app.example.com''"

definition prod :: "casts \<Rightarrow> config \<Rightarrow> exn + prod_settings" where
  "prod c config =
     and_then (base_settings c config) (\<lambda>b.
       let hosts = get_csv c config ''ALLOWED_HOSTS'' [] in
       if hosts = [] then Inl (ImproperlyConfigured hosts_required)
       else
         let origins = get_csv c config ''CORS_ALLOWED_ORIGINS'' [] in
         and_then (get_bool c config ''CORS_ALLOW_CREDENTIALS'' False) (\<lambda>credentials.
           if origins = [] then Inl (ImproperlyConfigured origins_required)
           else
             let dsn = config_str config ''SENTRY_DSN'' [] in
             Inr \<lparr>BASE = b\<lparr>STRUCTLOG_JSON := True, DEBUG := False, ALLOWED_HOSTS := hosts\<rparr>,
                CORS_ALLOWED_ORIGINS = origins, CORS_ALLOW_CREDENTIALS = credentials,
                SECURE_PROXY_SSL_HEADER = (''HTTP_X_FORWARDED_PROTO'', ''https''), SECURE_SSL_REDIRECT = True,
                SESSION_COOKIE_SECURE = True, CSRF_COOKIE_SECURE = True, SECURE_HSTS_SECONDS = HSTS_SECONDS,
                SECURE_HSTS_INCLUDE_SUBDOMAINS = True, SECURE_HSTS_PRELOAD = True, X_FRAME_OPTIONS = ''DENY'',
                CONTENT_SECURITY_POLICY = DEFAULT_CONTENT_SECURITY_POLICY,
                SECURE_REFERRER_POLICY = ''strict-origin-when-cross-origin'',
                sentry_dsn = (if dsn = [] then None else Some dsn)\<rparr>))"


definition staging :: "casts \<Rightarrow> config \<Rightarrow> exn + prod_settings" where
  "staging c config =
     and_then (prod c config) (\<lambda>p.
     and_then (get_bool c config ''DEBUG'' False) (\<lambda>debug.
     and_then (get_bool c config ''SECURE_SSL_REDIRECT'' False) (\<lambda>redirect.
     Inr (p\<lparr>BASE := (BASE p)\<lparr>DEBUG := debug\<rparr>, SECURE_SSL_REDIRECT := redirect\<rparr>))))"

text \<open>\<open>local.py\<close>: the settings, the CORS origins and whether credentials are allowed.\<close>

definition local_settings :: "casts \<Rightarrow> config \<Rightarrow> exn + settings \<times> string list \<times> bool" where
  "local_settings c config =
     and_then (base_settings c config) (\<lambda>b.
     Inr (b\<lparr>DEBUG := True, STRUCTLOG_JSON := False,
            ALLOWED_HOSTS := get_csv c config ''ALLOWED_HOSTS'' ''localhost,127.0.0.1,0.0.0.0,testserver,.localhost''\<rparr>,
          get_csv c config ''CORS_ALLOWED_ORIGINS'' ''http://localhost:3000,http://127.0.0.1:3000'', True))"

text \<open>
  \<open>mypy.py\<close> fills gaps of the process environment; the library reads that first and the \<open>.env\<close> file after it.
\<close>

definition mypy_defaults :: "(string \<times> string) list" where
  "mypy_defaults =
     [(''SECRET_KEY'', ''mypy-only-not-for-production-never-use-this-in-real-environments''),
      (''DEBUG'', ''True''), (''ALLOWED_HOSTS'', ''localhost,127.0.0.1''), (''DATABASE_URL'', ''sqlite:///mypy.db''),
      (''REDIS_URL'', ''redis://localhost:6379/0''), (''CELERY_BROKER_URL'', ''redis://localhost:6379/1''),
      (''CELERY_RESULT_BACKEND'', ''redis://localhost:6379/2'')]"

definition mypy_settings :: "casts \<Rightarrow> config \<Rightarrow> config \<Rightarrow> exn + settings" where
  "mypy_settings c environ dotenv =
     and_then (base_settings c (dotenv ++ (map_of mypy_defaults ++ environ))) (\<lambda>b.
     Inr (b\<lparr>CACHE := \<lparr>BACKEND = ''django.core.cache.backends.locmem.LocMemCache'', HOSTS = []\<rparr>\<rparr>))"

text \<open>
  \<open>test.py\<close> on top of the local settings; the database is decided by the process environment alone. The names of
  the S3 settings, if any, stay.
\<close>

definition test_settings :: "casts \<Rightarrow> config \<Rightarrow> config \<Rightarrow> string \<Rightarrow> exn + settings \<times> string list \<times> bool" where
  "test_settings c environ dotenv tempdir =
     (let config = dotenv ++ environ
      in and_then (local_settings c config) (\<lambda>(b, origins, credentials).
         and_then (if starts_with (config_str environ ''DATABASE_URL'' []) ''postgres'' then get_database_url_config c config
                   else Inr [(''ENGINE'', ''django.db.backends.sqlite3''),
                             (''NAME'', tempdir @ ''/django-saas-kit-test.sqlite3'')]) (\<lambda>database.
         Inr (b\<lparr>DEBUG := True, DATABASES := database,
                EMAIL := (EMAIL b)\<lparr>EMAIL_BACKEND := ''django.core.mail.backends.locmem.EmailBackend''\<rparr>,
                CHANNEL_LAYER := \<lparr>BACKEND = ''channels.layers.InMemoryChannelLayer'', HOSTS = []\<rparr>,
                CACHE := \<lparr>BACKEND = ''django.core.cache.backends.locmem.LocMemCache'', HOSTS = []\<rparr>,
                ALLOWED_HOSTS := [''localhost'', ''127.0.0.1'', ''testserver'', ''.localhost''],
                STORAGES_backends :=
                  [(''default'', ''django.core.files.storage.FileSystemStorage''),
                   (''staticfiles'', ''django.contrib.staticfiles.storage.StaticFilesStorage'')]\<rparr>,
              origins, credentials))))"

subsection \<open>Lemmas\<close>

lemma and_then_Inr: "and_then r f = Inr y \<longleftrightarrow> (\<exists>x. r = Inr x \<and> f x = Inr y)"
  by (cases r) (simp_all add: and_then_def)

lemma and_then_simps [simp]: "and_then (Inr x) f = f x" "and_then (Inl e) f = Inl e"
  by (simp_all add: and_then_def)

text \<open>With nothing set, the rates are the shipped ones.\<close>

lemma shipped_settings:
  "throttle_rates Map.empty = DEFAULT_THROTTLE_RATES" "plan_throttle_rates Map.empty = PLAN_THROTTLE_RATES"
  by (simp_all add: throttle_rates_def plan_throttle_rates_def config_str_def DEFAULT_THROTTLE_RATES_def PLAN_THROTTLE_RATES_def)

definition succeeds :: "exn + 'a \<Rightarrow> bool" where
  "succeeds r \<longleftrightarrow> (case r of Inr _ \<Rightarrow> True | Inl _ \<Rightarrow> False)"

lemma succeeds_simps [simp]: "succeeds (Inr x)" "\<not> succeeds (Inl e)"
  by (simp_all add: succeeds_def)

lemma succeeds_iff [simp]: "(\<exists>x. r = Inr x) \<longleftrightarrow> succeeds r"
  by (cases r) simp_all

lemma succeeds_and_then: "succeeds (and_then r f) \<longleftrightarrow> (\<exists>x. r = Inr x \<and> succeeds (f x))"
  by (cases r) simp_all

text \<open>The default of a typed getter always parses.\<close>

lemma getter_default:
  "succeeds (get_bool c config k d) \<longleftrightarrow> (\<forall>v. config k = Some v \<longrightarrow> succeeds (cast_bool c v))"
  "succeeds (get_int c config k i) \<longleftrightarrow> (\<forall>v. config k = Some v \<longrightarrow> succeeds (cast_int c v))"
  by (auto simp: get_bool_def get_int_def split: option.splits)

text \<open>The base settings start exactly when the start-up check passes and every typed value parses.\<close>

definition casts_parse :: "casts \<Rightarrow> config \<Rightarrow> bool" where
  "casts_parse c config \<longleftrightarrow>
     (\<forall>k\<in>{''DEBUG'', ''USE_S3'', ''EMAIL_USE_TLS'', ''EMAIL_USE_SSL''}.
        \<forall>v. config k = Some v \<longrightarrow> succeeds (cast_bool c v)) \<and>
     (\<forall>k\<in>{''JWT_ACCESS_TOKEN_LIFETIME_MINUTES'', ''JWT_REFRESH_TOKEN_LIFETIME_DAYS'', ''EMAIL_PORT'', ''PASSWORD_RESET_TIMEOUT''}.
        \<forall>v. config k = Some v \<longrightarrow> succeeds (cast_int c v)) \<and>
     (\<forall>v. config ''DATABASE_URL'' = Some v \<longrightarrow> succeeds (parse_database_url c v))"

lemma required_present:
  assumes "validate_required_settings cast config = Inr ()" and "k \<in> set REQUIRED_VARS"
  shows "succeeds (get_required config k)"
proof -
  have "missing_vars config = []" using assms(1) by (simp add: validate_required_settings_def Let_def split: if_splits)
  with assms(2) show ?thesis
    by (auto simp: missing_vars_def filter_empty_conv get_required_def split: option.splits)
qed

lemma base_starts:
  "succeeds (base_settings c config) \<longleftrightarrow>
     validate_required_settings (cast_bool c) config = Inr () \<and> casts_parse c config"
proof (cases "validate_required_settings (cast_bool c) config = Inr ()")
  case True
  have req: "succeeds (get_required config ''SECRET_KEY'')" "succeeds (get_required config ''REDIS_URL'')"
    "succeeds (get_required config ''DATABASE_URL'')"
    by (rule required_present [OF True], simp add: REQUIRED_VARS_def)+
  have "succeeds (get_database_url_config c config) \<longleftrightarrow>
      (\<forall>v. config ''DATABASE_URL'' = Some v \<longrightarrow> succeeds (parse_database_url c v))"
    using req(3) by (auto simp: get_database_url_config_def get_required_def split: option.splits)
  with True req show ?thesis
    by (simp add: base_settings_def succeeds_and_then simple_jwt_def queue_settings_of_def email_settings_of_def
        casts_parse_def getter_default) blast
next
  case False
  then show ?thesis by (cases "validate_required_settings (cast_bool c) config") (simp_all add: base_settings_def)
qed

subsection \<open>Properties\<close>


definition sample_casts :: casts where
  "sample_casts = \<lparr>cast_bool = (\<lambda>v. Inr (v = ''True'')), cast_int = (\<lambda>_. Inr 0), cast_csv = (\<lambda>v. if v = [] then [] else [v]),
     parse_database_url = (\<lambda>u. Inr [(''NAME'', u)])\<rparr>"

definition sample_environment :: config where
  "sample_environment = [''SECRET_KEY'' \<mapsto> ''short'', ''DATABASE_URL'' \<mapsto> ''db'', ''REDIS_URL'' \<mapsto> ''redis'',
     ''ALLOWED_HOSTS'' \<mapsto> ''app.example.com'', ''CORS_ALLOWED_ORIGINS'' \<mapsto> ''https://app.example.com'']"


text \<open>Staging is production with two switches: everything except \<open>DEBUG\<close> and the HTTPS redirect is what
  production computes.\<close>

lemma staging_relaxes_two_switches:
  assumes "staging c config = Inr q"
  shows "prod c config = Inr (q\<lparr>BASE := (BASE q)\<lparr>DEBUG := False\<rparr>, SECURE_SSL_REDIRECT := True\<rparr>)"
proof -
  have hard: "p\<lparr>BASE := (BASE p)\<lparr>DEBUG := False\<rparr>, SECURE_SSL_REDIRECT := True\<rparr> = p" if "prod c config = Inr p" for p
    using that by (auto simp: prod_def Let_def and_then_Inr split: if_splits)
  show ?thesis
    using assms hard by (auto simp: staging_def and_then_Inr)
qed

end
