(* ===== verification/Requirements_Pins.thy ===== *)
theory Requirements_Pins
  imports Prelude "HOL-Library.Char_ord" "HOL-Library.List_Lexorder"
begin

text \<open>
  The check of the requirements files (\<open>scripts/verify_requirements_pins.py\<close>). The directory is the list of
  its files, name and text, in any order; a regular expression of the script is a word, optional
  space and an operator, searched anywhere in a text.
\<close>

definition REQUIRED_IN_TYPING :: "string list" where
  "REQUIRED_IN_TYPING = [''django-stubs==5.2.9'', ''djangorestframework-stubs==3.16.9'']"

definition REQUIRED_LOCAL_INCLUDE :: string where
  "REQUIRED_LOCAL_INCLUDE = ''-r typing-stubs.txt''"

definition ALLOW_STUB_FILES :: "string list" where
  "ALLOW_STUB_FILES = [''typing-stubs.txt'', ''constraints.txt'']"

text \<open>A pattern: the package, the operator, and the message.\<close>

definition BAD_PATTERNS :: "(string \<times> string \<times> string) list" where
  "BAD_PATTERNS =
     [(''django-stubs'', ''>='', ''django-stubs must be pinned in typing-stubs.txt''),
      (''django-stubs'', ''=='', ''move django-stubs pin to typing-stubs.txt''),
      (''djangorestframework-stubs'', ''>='', ''djangorestframework-stubs must be pinned in typing-stubs.txt''),
      (''djangorestframework-stubs'', ''=='', ''move djangorestframework-stubs pin to typing-stubs.txt'')]"

text \<open>\<open>needle in text\<close>, and \<open>pattern.search(text)\<close>: the first position at which the pattern matches.\<close>

fun occurs :: "string \<Rightarrow> string \<Rightarrow> bool" where
  "occurs needle [] = (needle = [])"
| "occurs needle (c # cs) = (starts_with (c # cs) needle \<or> occurs needle cs)"

definition matches_here :: "string \<Rightarrow> string \<Rightarrow> string \<Rightarrow> bool" where
  "matches_here package op text =
     (starts_with text package \<and> starts_with (dropWhile py_isspace (drop (length package) text)) op)"

fun search :: "string \<Rightarrow> string \<Rightarrow> string \<Rightarrow> bool" where
  "search package op [] = matches_here package op []"
| "search package op (c # cs) = (matches_here package op (c # cs) \<or> search package op cs)"

definition ends_txt :: "string \<Rightarrow> bool" where
  "ends_txt name = starts_with (rev name) (rev ''.txt'')"

definition typing_errors :: "string option \<Rightarrow> string list" where
  "typing_errors typing =
     (case typing of
        None \<Rightarrow> [''missing requirements/typing-stubs.txt'']
      | Some text \<Rightarrow>
          map (\<lambda>line. ''typing-stubs.txt must contain: '' @ line) (filter (\<lambda>line. \<not> occurs line text) REQUIRED_IN_TYPING))"

definition local_errors :: "string option \<Rightarrow> string list" where
  "local_errors local =
     (case local of
        None \<Rightarrow> [''missing requirements/local.txt'']
      | Some text \<Rightarrow>
          if occurs REQUIRED_LOCAL_INCLUDE text then []
          else [''local.txt must include: '' @ REQUIRED_LOCAL_INCLUDE])"

definition file_errors :: "string \<times> string \<Rightarrow> string list" where
  "file_errors f =
     (if fst f \<in> set ALLOW_STUB_FILES then []
      else map (\<lambda>p. ''requirements/'' @ fst f @ '': '' @ snd (snd p))
             (filter (\<lambda>p. search (fst p) (fst (snd p)) (snd f)) BAD_PATTERNS))"

text \<open>The exit code and the errors printed.\<close>

definition main :: "(string \<times> string) list \<Rightarrow> nat \<times> string list" where
  "main files =
     (let errors = typing_errors (map_of files ''typing-stubs.txt'') @ local_errors (map_of files ''local.txt'') @
            concat (map file_errors (sort_key fst (filter (\<lambda>f. ends_txt (fst f)) files)))
      in (if errors = [] then 0 else 1, errors))"

subsection \<open>Lemmas\<close>

lemma occurs_iff: "occurs needle s \<longleftrightarrow> (\<exists>a b. s = a @ needle @ b)"
proof (induction s)
  case (Cons c cs)
  show ?case
  proof
    assume "occurs needle (c # cs)"
    then consider b where "c # cs = needle @ b" | a b where "cs = a @ needle @ b"
      using Cons by (auto simp: starts_with_prefix)
    then show "\<exists>a b. c # cs = a @ needle @ b"
    proof cases
      case (1 b)
      then show ?thesis by (intro exI [of _ "[]"] exI [of _ b]) simp
    next
      case (2 a b)
      then show ?thesis by (intro exI [of _ "c # a"] exI [of _ b]) simp
    qed
  next
    assume "\<exists>a b. c # cs = a @ needle @ b"
    then obtain a b where "c # cs = a @ needle @ b" by blast
    then show "occurs needle (c # cs)"
    proof (cases a)
      case Nil
      with \<open>c # cs = a @ needle @ b\<close> have "starts_with (c # cs) needle" by (auto simp: starts_with_prefix)
      then show ?thesis by simp
    next
      case (Cons x xs)
      with \<open>c # cs = a @ needle @ b\<close> Cons.IH have "occurs needle cs" by auto
      then show ?thesis by simp
    qed
  qed
qed auto

lemma matches_here_iff:
  assumes "op \<noteq> []" "\<not> py_isspace (hd op)"
  shows "matches_here package op s \<longleftrightarrow>
    (\<exists>w b. list_all py_isspace w \<and> s = package @ w @ op @ b)"
proof
  assume "matches_here package op s"
  then obtain r b where r: "s = package @ r" "dropWhile py_isspace r = op @ b"
    by (auto simp: matches_here_def starts_with_prefix)
  moreover have "r = takeWhile py_isspace r @ dropWhile py_isspace r" by simp
  ultimately show "\<exists>w b. list_all py_isspace w \<and> s = package @ w @ op @ b"
    by (metis list_all_iff set_takeWhileD)
next
  assume "\<exists>w b. list_all py_isspace w \<and> s = package @ w @ op @ b"
  then obtain w b where "list_all py_isspace w" "s = package @ w @ op @ b" by blast
  moreover have "dropWhile py_isspace (w @ op @ b) = op @ b"
    using assms calculation(1) by (cases op) (auto simp: dropWhile_append2 list_all_iff)
  ultimately show "matches_here package op s" by (auto simp: matches_here_def starts_with_prefix)
qed

lemma search_iff:
  assumes op: "op \<noteq> []" "\<not> py_isspace (hd op)"
  shows "search package op s \<longleftrightarrow> (\<exists>a w b. list_all py_isspace w \<and> s = a @ package @ w @ op @ b)"
proof (induction s)
  case Nil
  then show ?case using op by (auto simp: matches_here_iff)
next
  case (Cons c cs)
  show ?case
  proof
    assume "search package op (c # cs)"
    then consider "matches_here package op (c # cs)" | "search package op cs" by auto
    then show "\<exists>a w b. list_all py_isspace w \<and> c # cs = a @ package @ w @ op @ b"
    proof cases
      case 1
      then show ?thesis unfolding matches_here_iff [OF op] by (metis append_Nil)
    next
      case 2
      then show ?thesis unfolding Cons by (metis append_Cons)
    qed
  next
    assume "\<exists>a w b. list_all py_isspace w \<and> c # cs = a @ package @ w @ op @ b"
    then obtain a w b where m: "list_all py_isspace w" "c # cs = a @ package @ w @ op @ b" by blast
    then show "search package op (c # cs)"
    proof (cases a)
      case Nil
      with m have "matches_here package op (c # cs)" unfolding matches_here_iff [OF op] by auto
      then show ?thesis by simp
    next
      case (Cons x xs)
      with m have "search package op cs" unfolding Cons.IH by auto
      then show ?thesis by simp
    qed
  qed
qed


text \<open>What a file must not contain: a stub package, optional space and a version operator.\<close>

definition pinned_in :: "string \<Rightarrow> bool" where
  "pinned_in body \<longleftrightarrow>
     (\<exists>a w b package op. package \<in> {''django-stubs'', ''djangorestframework-stubs''} \<and> op \<in> {''>='', ''==''} \<and>
        list_all py_isspace w \<and> body = a @ package @ w @ op @ b)"

lemma operators_not_space: "\<not> py_isspace (CHR ''>'')" "\<not> py_isspace (CHR ''='')"
  by code_simp+

lemma pinned_in_search:
  "pinned_in body \<longleftrightarrow> (\<exists>p\<in>set BAD_PATTERNS. search (fst p) (fst (snd p)) body)"
proof -
  have op: "search package op body \<longleftrightarrow> (\<exists>a w b. list_all py_isspace w \<and> body = a @ package @ w @ op @ b)"
    if "op = ''>='' \<or> op = ''==''" for package op
    by (rule search_iff) (use that operators_not_space in auto)
  have "pinned_in body \<longleftrightarrow>
      (\<exists>package\<in>{''django-stubs'', ''djangorestframework-stubs''}. \<exists>op\<in>{''>='', ''==''}. search package op body)"
    unfolding pinned_in_def using op by (metis insertE singletonD)
  then show ?thesis by (auto simp: BAD_PATTERNS_def)
qed

lemma typing_errors_none:
  "typing_errors f = [] \<longleftrightarrow> (\<exists>body. f = Some body \<and> (\<forall>line\<in>set REQUIRED_IN_TYPING. \<exists>a b. body = a @ line @ b))"
  by (auto simp: typing_errors_def occurs_iff filter_empty_conv split: option.splits)

lemma local_errors_none:
  "local_errors f = [] \<longleftrightarrow> (\<exists>body a b. f = Some body \<and> body = a @ REQUIRED_LOCAL_INCLUDE @ b)"
  by (auto simp: local_errors_def occurs_iff split: option.splits)

lemma file_errors_none: "file_errors f = [] \<longleftrightarrow> fst f \<in> set ALLOW_STUB_FILES \<or> \<not> pinned_in (snd f)"
  unfolding pinned_in_search by (auto simp: file_errors_def filter_empty_conv)

subsection \<open>Properties\<close>

text \<open>The check passes exactly when the pins are where they belong: \<open>typing-stubs.txt\<close> has both exact pins,
  \<open>local.txt\<close> includes it, and in no other requirements file either stub package is followed, after optional
  space, by a version operator; otherwise the exit code is 1 and something is reported. The order in which the
  directory is listed does not matter.\<close>

theorem pins_ok_iff:
  "main files = (0, []) \<longleftrightarrow>
     (\<exists>body. map_of files ''typing-stubs.txt'' = Some body \<and> (\<forall>line\<in>set REQUIRED_IN_TYPING. \<exists>a b. body = a @ line @ b)) \<and>
     (\<exists>body a b. map_of files ''local.txt'' = Some body \<and> body = a @ REQUIRED_LOCAL_INCLUDE @ b) \<and>
     (\<forall>f\<in>set files. \<not> (ends_txt (fst f) \<and> fst f \<notin> set ALLOW_STUB_FILES \<and> pinned_in (snd f)))"
proof -
  have "main files = (0, []) \<longleftrightarrow> typing_errors (map_of files ''typing-stubs.txt'') = [] \<and>
      local_errors (map_of files ''local.txt'') = [] \<and>
      (\<forall>f\<in>set files. ends_txt (fst f) \<longrightarrow> file_errors f = [])"
    by (auto simp: main_def Let_def simp del: split_paired_All split_paired_Ex)
  then show ?thesis unfolding typing_errors_none local_errors_none file_errors_none by blast
qed

theorem pins_ok_iff_witness:
  "main [(''local.txt'', REQUIRED_LOCAL_INCLUDE), (''typing-stubs.txt'', concat REQUIRED_IN_TYPING), (''base.txt'', ''django'')] = (0, []) \<and>
   main [(''base.txt'', ''django'')] \<noteq> (0, [])"
proof -
  let ?files = "[(''local.txt'', REQUIRED_LOCAL_INCLUDE), (''typing-stubs.txt'', concat REQUIRED_IN_TYPING), (''base.txt'', ''django'')]"
  have "main ?files = (0, [])" by code_simp
  moreover have "main [(''base.txt'', ''django'')] \<noteq> (0, [])"
    unfolding pins_ok_iff [of "[(''base.txt'', ''django'')]"] by simp
  ultimately show ?thesis by simp
qed

end
