(* ===== verification/Migrations.thy ===== *)
theory Migrations
  imports Schema Store
begin

text \<open>
  The schema: the models' columns and constraints as the \<open>models.py\<close> files declare them, the migrations that
  build the database, and their data steps. A column keeps what reaches the database and the forms:
  type, null, blank, unique, primary key, index, choices, default; labels, help texts and reverse names
  are left out. Applying an operation fails (\<open>None\<close>) where the framework would: a model or column that
  exists already or does not exist, a reference to an unknown model, an index on an unknown column.
\<close>

subsection \<open>Columns, models, migrations\<close>

datatype column_type =
    UUIDField | CharField nat | SlugField nat | EmailField nat | TextField "nat option" | BooleanField | DateTimeField
  | JSONField | GenericIPAddressField | ImageField | PositiveIntegerField | BigAutoField
  | ForeignKey string string | OneToOneField string string

datatype default_value = No_default | Text_default string | Bool_default bool | Int_default nat | Callable string
  | Auto_now_add | Auto_now

record column =
  cl_type :: column_type
  cl_null :: bool
  cl_blank :: bool
  cl_unique :: bool
  cl_primary :: bool
  cl_index :: bool
  cl_choices :: "(string \<times> string) list"
  cl_default :: default_value

text \<open>A column with no argument: slugs and references are indexed, a one-to-one reference is unique.\<close>

definition column_of :: "column_type \<Rightarrow> column" where
  "column_of ty =
     \<lparr>cl_type = ty, cl_null = False, cl_blank = False,
      cl_unique = (case ty of OneToOneField _ _ \<Rightarrow> True | _ \<Rightarrow> False), cl_primary = False,
      cl_index = (case ty of SlugField _ \<Rightarrow> True | ForeignKey _ _ \<Rightarrow> True | OneToOneField _ _ \<Rightarrow> True | _ \<Rightarrow> False),
      cl_choices = [], cl_default = No_default\<rparr>"

definition uuid_pk :: column where
  "uuid_pk = column_of UUIDField\<lparr>cl_primary := True, cl_default := Callable ''uuid.uuid4''\<rparr>"

definition optional :: "column \<Rightarrow> column" where
  "optional c = c\<lparr>cl_null := True, cl_blank := True\<rparr>"

record model =
  md_fields :: "(string \<times> column) list"
  md_ordering :: "string list"
  md_unique_together :: "string list list"
  md_indexes :: "(string \<times> string list) list"

type_synonym project_state = "(string \<times> model) list"

datatype data_step = Backfill_schema_name | Create_feature_flags

datatype operation =
    CreateModel string "(string \<times> column) list" "string list" "string list list"
  | AddField string string column
  | AlterField string string column
  | AddIndex string string "string list"
  | RunPython data_step

record migration =
  mg_app :: string
  mg_name :: string
  mg_dependencies :: "(string \<times> string) list"
  mg_operations :: "operation list"

definition AUTH_USER :: string where "AUTH_USER = ''auth.user''"

text \<open>\<open>swappable_dependency(settings.AUTH_USER_MODEL)\<close> and the one migration of another package.\<close>

definition user_dependency :: "string \<times> string" where "user_dependency = (''auth'', ''__first__'')"

definition foreign_migrations :: "(string \<times> string) list" where
  "foreign_migrations = [user_dependency, (''waffle'', ''0004_update_everyone_nullbooleanfield'')]"

definition set_null_user :: column where
  "set_null_user = column_of (ForeignKey AUTH_USER ''SET_NULL'')\<lparr>cl_null := True\<rparr>"

definition created_at :: column where
  "created_at = column_of DateTimeField\<lparr>cl_default := Auto_now_add\<rparr>"

definition updated_at :: column where
  "updated_at = column_of DateTimeField\<lparr>cl_default := Auto_now\<rparr>"

definition indexed :: "column \<Rightarrow> column" where
  "indexed c = c\<lparr>cl_index := True\<rparr>"

definition flag_column :: "bool \<Rightarrow> column" where
  "flag_column b = column_of BooleanField\<lparr>cl_default := Bool_default b\<rparr>"

definition blank_text :: "column_type \<Rightarrow> column" where
  "blank_text ty = column_of ty\<lparr>cl_blank := True, cl_default := Text_default []\<rparr>"

subsection \<open>Tenants\<close>

definition tenants_0001 :: migration where
  "tenants_0001 =
     \<lparr>mg_app = ''tenants'', mg_name = ''0001_initial'', mg_dependencies = [],
      mg_operations =
        [CreateModel ''Tenant''
           [(''id'', uuid_pk),
            (''name'', column_of (CharField 255)),
            (''slug'', column_of (SlugField 100)\<lparr>cl_unique := True\<rparr>),
            (''created_at'', indexed created_at),
            (''updated_at'', updated_at)]
           [''name''] []]\<rparr>"

definition tenants_0002 :: migration where
  "tenants_0002 =
     \<lparr>mg_app = ''tenants'', mg_name = ''0002_tenant_is_active_alter_tenant_created_at'',
      mg_dependencies = [(''tenants'', ''0001_initial'')],
      mg_operations =
        [AddField ''tenant'' ''is_active'' (flag_column True),
         AlterField ''tenant'' ''created_at'' created_at]\<rparr>"

definition tenants_0003 :: migration where
  "tenants_0003 =
     \<lparr>mg_app = ''tenants'', mg_name = ''0003_tenant_schema_name_domain'',
      mg_dependencies = [(''tenants'', ''0002_tenant_is_active_alter_tenant_created_at'')],
      mg_operations =
        [AddField ''tenant'' ''schema_name'' (column_of (SlugField 100)\<lparr>cl_null := True, cl_index := False\<rparr>),
         RunPython Backfill_schema_name,
         AlterField ''tenant'' ''schema_name'' (column_of (SlugField 100)\<lparr>cl_unique := True\<rparr>),
         CreateModel ''Domain''
           [(''id'', uuid_pk),
            (''domain'', column_of (CharField 253)\<lparr>cl_unique := True, cl_index := True\<rparr>),
            (''is_primary'', flag_column True),
            (''tenant'', column_of (ForeignKey ''tenants.tenant'' ''CASCADE''))]
           [''domain''] []]\<rparr>"

subsection \<open>Roles\<close>

definition role_choices :: "(string \<times> string) list" where
  "role_choices = [(''owner'', ''Owner''), (''admin'', ''Admin''), (''member'', ''Member'')]"

definition rbac_0001 :: migration where
  "rbac_0001 =
     \<lparr>mg_app = ''rbac'', mg_name = ''0001_initial'',
      mg_dependencies = [(''tenants'', ''0001_initial''), user_dependency],
      mg_operations =
        [CreateModel ''UserTenantRole''
           [(''id'', uuid_pk),
            (''role'', column_of (CharField 20)\<lparr>cl_choices := role_choices, cl_index := True\<rparr>),
            (''created_at'', indexed created_at),
            (''assigned_by'', set_null_user\<lparr>cl_blank := True\<rparr>),
            (''tenant'', column_of (ForeignKey ''tenants.tenant'' ''CASCADE'')),
            (''user'', column_of (ForeignKey AUTH_USER ''CASCADE''))]
           [''-created_at''] [[''user'', ''tenant'']]]\<rparr>"

definition rbac_0002 :: migration where
  "rbac_0002 =
     \<lparr>mg_app = ''rbac'', mg_name = ''0002_add_composite_indexes'',
      mg_dependencies = [(''rbac'', ''0001_initial''), (''tenants'', ''0003_tenant_schema_name_domain''), user_dependency],
      mg_operations =
        [AddIndex ''usertenantrole'' ''rbac_tenant_role_idx'' [''tenant'', ''role''],
         AddIndex ''usertenantrole'' ''rbac_user_tenant_idx'' [''user'', ''tenant'']]\<rparr>"


subsection \<open>Invitations, billing, feature flags\<close>

definition invitation_statuses :: "(string \<times> string) list" where
  "invitation_statuses =
     [(''pending'', ''Pending''), (''accepted'', ''Accepted''), (''revoked'', ''Revoked''), (''expired'', ''Expired'')]"

definition invitations_0001 :: migration where
  "invitations_0001 =
     \<lparr>mg_app = ''invitations'', mg_name = ''0001_initial'',
      mg_dependencies = [(''tenants'', ''0003_tenant_schema_name_domain''), user_dependency],
      mg_operations =
        [CreateModel ''TenantInvitation''
           [(''id'', uuid_pk),
            (''email'', column_of (EmailField 254)),
            (''role'', column_of (CharField 20)\<lparr>cl_choices := role_choices, cl_default := Text_default ''member''\<rparr>),
            (''token'', column_of (CharField 64)\<lparr>cl_index := True, cl_unique := True,
               cl_default := Callable ''apps.invitations.models._default_token''\<rparr>),
            (''status'', column_of (CharField 20)\<lparr>cl_choices := invitation_statuses, cl_index := True,
               cl_default := Text_default ''pending''\<rparr>),
            (''expires_at'', column_of DateTimeField\<lparr>cl_default := Callable ''apps.invitations.models._default_expires_at''\<rparr>),
            (''created_at'', created_at),
            (''tenant'', column_of (ForeignKey ''tenants.tenant'' ''CASCADE'')),
            (''invited_by'', set_null_user),
            (''accepted_by'', set_null_user\<lparr>cl_blank := True\<rparr>)]
           [''-created_at''] [],
         AddIndex ''tenantinvitation'' ''inv_tenant_status_idx'' [''tenant'', ''status''],
         AddIndex ''tenantinvitation'' ''inv_email_tenant_idx'' [''email'', ''tenant'']]\<rparr>"

definition subscription_statuses :: "(string \<times> string) list" where
  "subscription_statuses =
     [(''trialing'', ''Trialing''), (''active'', ''Active''), (''past_due'', ''Past Due''), (''unpaid'', ''Unpaid''),
      (''canceled'', ''Canceled''), (''paused'', ''Paused'')]"

definition billing_0001 :: migration where
  "billing_0001 =
     \<lparr>mg_app = ''billing'', mg_name = ''0001_initial'',
      mg_dependencies = [(''tenants'', ''0003_tenant_schema_name_domain'')],
      mg_operations =
        [CreateModel ''WebhookEvent''
           [(''stripe_event_id'', column_of (CharField 255)\<lparr>cl_primary := True, cl_unique := True\<rparr>),
            (''event_type'', indexed (column_of (CharField 100))),
            (''processed_at'', created_at),
            (''payload'', column_of JSONField\<lparr>cl_default := Callable ''dict''\<rparr>)]
           [''-processed_at''] [],
         CreateModel ''Subscription''
           [(''id'', uuid_pk),
            (''stripe_customer_id'', column_of (CharField 255)\<lparr>cl_index := True, cl_unique := True\<rparr>),
            (''stripe_subscription_id'', optional (column_of (CharField 255)\<lparr>cl_index := True, cl_unique := True\<rparr>)),
            (''stripe_price_id'', blank_text (CharField 255)),
            (''status'', column_of (CharField 20)\<lparr>cl_choices := subscription_statuses, cl_index := True,
               cl_default := Text_default ''trialing''\<rparr>),
            (''current_period_start'', optional (column_of DateTimeField)),
            (''current_period_end'', optional (column_of DateTimeField)),
            (''grace_period_end'', optional (column_of DateTimeField)),
            (''cancel_at_period_end'', flag_column False),
            (''trial_end'', optional (column_of DateTimeField)),
            (''created_at'', created_at),
            (''updated_at'', updated_at),
            (''tenant'', column_of (OneToOneField ''tenants.tenant'' ''CASCADE''))]
           [''-created_at''] []]\<rparr>"

definition billing_0002 :: migration where
  "billing_0002 =
     \<lparr>mg_app = ''billing'', mg_name = ''0002_plan_and_subscription_plan_fk'',
      mg_dependencies = [(''billing'', ''0001_initial'')],
      mg_operations =
        [CreateModel ''Plan''
           [(''id'', column_of BigAutoField\<lparr>cl_primary := True\<rparr>),
            (''slug'', column_of (SlugField 50)\<lparr>cl_unique := True\<rparr>),
            (''name'', column_of (CharField 100)),
            (''stripe_price_id'', blank_text (CharField 255)),
            (''max_members'', column_of PositiveIntegerField\<lparr>cl_default := Int_default 5\<rparr>),
            (''max_storage_mb'', column_of PositiveIntegerField\<lparr>cl_default := Int_default 1024\<rparr>),
            (''is_active'', flag_column True)]
           [''name''] [],
         AddField ''subscription'' ''plan'' (optional (column_of (ForeignKey ''billing.plan'' ''SET_NULL'')))]\<rparr>"

definition flag_sources :: "(string \<times> string) list" where
  "flag_sources = [(''manual'', ''Manual (admin override)''), (''plan'', ''Plan (auto-set by subscription plan)'')]"

definition features_0001 :: migration where
  "features_0001 =
     \<lparr>mg_app = ''features'', mg_name = ''0001_tenantfeatureflag'', mg_dependencies = [(''tenants'', ''0001_initial'')],
      mg_operations =
        [CreateModel ''TenantFeatureFlag''
           [(''id'', column_of BigAutoField\<lparr>cl_primary := True\<rparr>),
            (''tenant'', indexed (column_of (ForeignKey ''tenants.tenant'' ''CASCADE''))),
            (''flag_name'', indexed (column_of (CharField 100))),
            (''is_enabled'', flag_column True),
            (''source'', column_of (CharField 20)\<lparr>cl_choices := flag_sources, cl_default := Text_default ''manual''\<rparr>),
            (''note'', blank_text (TextField None)),
            (''created_at'', created_at),
            (''updated_at'', updated_at)]
           [''flag_name''] [[''tenant'', ''flag_name'']]]\<rparr>"

subsection \<open>Users, second factor, notifications, audit log, soft deletion\<close>

definition users_0001 :: migration where
  "users_0001 =
     \<lparr>mg_app = ''users'', mg_name = ''0001_userprofile'', mg_dependencies = [user_dependency],
      mg_operations =
        [CreateModel ''UserProfile''
           [(''user'', column_of (OneToOneField AUTH_USER ''CASCADE'')\<lparr>cl_primary := True\<rparr>),
            (''avatar'', optional (column_of ImageField)),
            (''bio'', blank_text (TextField (Some 500))),
            (''phone'', blank_text (CharField 32)),
            (''timezone'', column_of (CharField 64)\<lparr>cl_blank := True, cl_default := Text_default ''UTC''\<rparr>),
            (''updated_at'', updated_at)]
           [] []]\<rparr>"

definition authentication_0001 :: migration where
  "authentication_0001 =
     \<lparr>mg_app = ''authentication'', mg_name = ''0001_usertotp'', mg_dependencies = [user_dependency],
      mg_operations =
        [CreateModel ''UserTOTP''
           [(''id'', uuid_pk),
            (''user'', column_of (OneToOneField AUTH_USER ''CASCADE'')),
            (''secret'', column_of (CharField 64)),
            (''is_enabled'', flag_column False),
            (''backup_codes'', column_of JSONField\<lparr>cl_default := Callable ''apps.authentication.models._generate_backup_codes''\<rparr>),
            (''created_at'', created_at),
            (''updated_at'', updated_at)]
           [] []]\<rparr>"

definition notifications_0001 :: migration where
  "notifications_0001 =
     \<lparr>mg_app = ''notifications'', mg_name = ''0001_notification'', mg_dependencies = [user_dependency],
      mg_operations =
        [CreateModel ''Notification''
           [(''id'', uuid_pk),
            (''title'', column_of (CharField 255)),
            (''body'', column_of (TextField None)),
            (''is_read'', indexed (flag_column False)),
            (''created_at'', indexed created_at),
            (''user'', indexed (column_of (ForeignKey AUTH_USER ''CASCADE'')))]
           [''-created_at''] []]\<rparr>"

definition audit_actions :: "(string \<times> string) list" where
  "audit_actions =
     [(''login'', ''Login''), (''logout'', ''Logout''), (''login_failed'', ''Login Failed''),
      (''password_reset_requested'', ''Password Reset Requested''),
      (''password_reset_confirmed'', ''Password Reset Confirmed''),
      (''user_registered'', ''User Registered''), (''user_deleted'', ''User Deleted (GDPR)''),
      (''role_assigned'', ''Role Assigned''), (''role_revoked'', ''Role Revoked''),
      (''member_invited'', ''Member Invited''), (''invitation_accepted'', ''Invitation Accepted''),
      (''invitation_revoked'', ''Invitation Revoked''), (''subscription_created'', ''Subscription Created''),
      (''subscription_updated'', ''Subscription Updated''), (''subscription_canceled'', ''Subscription Canceled''),
      (''payment_succeeded'', ''Payment Succeeded''), (''payment_failed'', ''Payment Failed'')]"

definition audit_0001 :: migration where
  "audit_0001 =
     \<lparr>mg_app = ''audit'', mg_name = ''0001_initial'',
      mg_dependencies = [(''tenants'', ''0003_tenant_schema_name_domain''), user_dependency],
      mg_operations =
        [CreateModel ''AuditLog''
           [(''id'', uuid_pk),
            (''actor_email'', column_of (EmailField 254)\<lparr>cl_blank := True\<rparr>),
            (''action'', column_of (CharField 50)\<lparr>cl_choices := audit_actions, cl_index := True\<rparr>),
            (''resource_type'', column_of (CharField 100)\<lparr>cl_blank := True\<rparr>),
            (''resource_id'', column_of (CharField 255)\<lparr>cl_blank := True\<rparr>),
            (''metadata'', column_of JSONField\<lparr>cl_default := Callable ''dict''\<rparr>),
            (''ip_address'', optional (column_of GenericIPAddressField)),
            (''user_agent'', column_of (TextField None)\<lparr>cl_blank := True\<rparr>),
            (''timestamp'', indexed created_at),
            (''actor'', set_null_user\<lparr>cl_blank := True\<rparr>),
            (''tenant'', indexed (optional (column_of (ForeignKey ''tenants.tenant'' ''CASCADE''))))]
           [''-timestamp''] [],
         AddIndex ''auditlog'' ''audit_tenant_ts_idx'' [''tenant'', ''timestamp''],
         AddIndex ''auditlog'' ''audit_tenant_action_idx'' [''tenant'', ''action''],
         AddIndex ''auditlog'' ''audit_actor_ts_idx'' [''actor'', ''timestamp'']]\<rparr>"

definition common_0001 :: migration where
  "common_0001 =
     \<lparr>mg_app = ''common'', mg_name = ''0001_base_model'', mg_dependencies = [user_dependency],
      mg_operations =
        [CreateModel ''Record''
           [(''id'', uuid_pk),
            (''created_at'', indexed created_at),
            (''updated_at'', updated_at),
            (''is_deleted'', indexed (flag_column False)),
            (''deleted_at'', optional (column_of DateTimeField)),
            (''title'', column_of (CharField 255)),
            (''created_by'', set_null_user\<lparr>cl_blank := True\<rparr>),
            (''deleted_by'', set_null_user\<lparr>cl_blank := True\<rparr>),
            (''updated_by'', set_null_user\<lparr>cl_blank := True\<rparr>)]
           [''-created_at''] []]\<rparr>"

definition common_0002 :: migration where
  "common_0002 =
     \<lparr>mg_app = ''common'', mg_name = ''0002_feature_flags'',
      mg_dependencies = [(''waffle'', ''0004_update_everyone_nullbooleanfield''), (''common'', ''0001_base_model'')],
      mg_operations = [RunPython Create_feature_flags]\<rparr>"

text \<open>All of them, in an order in which they can be applied.\<close>

definition MIGRATIONS :: "migration list" where
  "MIGRATIONS =
     [tenants_0001, tenants_0002, tenants_0003, rbac_0001, rbac_0002, invitations_0001, billing_0001, billing_0002,
      features_0001, users_0001, authentication_0001, notifications_0001, audit_0001, common_0001, common_0002]"

subsection \<open>The models as declared\<close>

definition declared :: "(string \<times> column) list \<Rightarrow> string list \<Rightarrow> string list list \<Rightarrow> (string \<times> string list) list \<Rightarrow> model" where
  "declared cols order uniq indexes =
     \<lparr>md_fields = cols, md_ordering = order, md_unique_together = uniq, md_indexes = indexes\<rparr>"

definition Tenant_model :: model where
  "Tenant_model = declared
     [(''id'', uuid_pk), (''name'', column_of (CharField 255)),
      (''slug'', column_of (SlugField 100)\<lparr>cl_unique := True\<rparr>),
      (''schema_name'', column_of (SlugField 100)\<lparr>cl_unique := True\<rparr>),
      (''is_active'', flag_column True), (''created_at'', created_at), (''updated_at'', updated_at)]
     [''name''] [] []"

definition Domain_model :: model where
  "Domain_model = declared
     [(''id'', uuid_pk), (''tenant'', column_of (ForeignKey ''tenants.tenant'' ''CASCADE'')),
      (''domain'', indexed (column_of (CharField 253)\<lparr>cl_unique := True\<rparr>)), (''is_primary'', flag_column True)]
     [''domain''] [] []"

definition UserTenantRole_model :: model where
  "UserTenantRole_model = declared
     [(''id'', uuid_pk), (''user'', column_of (ForeignKey AUTH_USER ''CASCADE'')),
      (''tenant'', column_of (ForeignKey ''tenants.tenant'' ''CASCADE'')),
      (''role'', indexed (column_of (CharField 20)\<lparr>cl_choices := role_choices\<rparr>)),
      (''assigned_by'', optional set_null_user), (''created_at'', indexed created_at)]
     [''-created_at''] [[''user'', ''tenant'']]
     [(''rbac_tenant_role_idx'', [''tenant'', ''role'']), (''rbac_user_tenant_idx'', [''user'', ''tenant''])]"

definition TenantInvitation_model :: model where
  "TenantInvitation_model = declared
     [(''id'', uuid_pk), (''tenant'', column_of (ForeignKey ''tenants.tenant'' ''CASCADE'')),
      (''email'', column_of (EmailField 254)),
      (''role'', column_of (CharField 20)\<lparr>cl_choices := role_choices, cl_default := Text_default (role_value MEMBER)\<rparr>),
      (''token'', indexed (column_of (CharField 64)\<lparr>cl_unique := True,
         cl_default := Callable ''apps.invitations.models._default_token''\<rparr>)),
      (''status'', indexed (column_of (CharField 20)\<lparr>cl_choices := invitation_statuses, cl_default := Text_default ''pending''\<rparr>)),
      (''invited_by'', set_null_user), (''accepted_by'', optional set_null_user),
      (''expires_at'', column_of DateTimeField\<lparr>cl_default := Callable ''apps.invitations.models._default_expires_at''\<rparr>),
      (''created_at'', created_at)]
     [''-created_at''] []
     [(''inv_tenant_status_idx'', [''tenant'', ''status'']), (''inv_email_tenant_idx'', [''email'', ''tenant''])]"

definition Plan_model :: model where
  "Plan_model = declared
     [(''id'', column_of BigAutoField\<lparr>cl_primary := True\<rparr>), (''slug'', column_of (SlugField 50)\<lparr>cl_unique := True\<rparr>),
      (''name'', column_of (CharField 100)), (''stripe_price_id'', blank_text (CharField 255)),
      (''max_members'', column_of PositiveIntegerField\<lparr>cl_default := Int_default 5\<rparr>),
      (''max_storage_mb'', column_of PositiveIntegerField\<lparr>cl_default := Int_default 1024\<rparr>),
      (''is_active'', flag_column True)]
     [''name''] [] []"

definition Subscription_model :: model where
  "Subscription_model = declared
     [(''id'', uuid_pk), (''tenant'', column_of (OneToOneField ''tenants.tenant'' ''CASCADE'')),
      (''plan'', optional (column_of (ForeignKey ''billing.plan'' ''SET_NULL''))),
      (''stripe_customer_id'', indexed (column_of (CharField 255)\<lparr>cl_unique := True\<rparr>)),
      (''stripe_subscription_id'', indexed (optional (column_of (CharField 255)\<lparr>cl_unique := True\<rparr>))),
      (''stripe_price_id'', blank_text (CharField 255)),
      (''status'', indexed (column_of (CharField 20)\<lparr>cl_choices := subscription_statuses, cl_default := Text_default ''trialing''\<rparr>)),
      (''current_period_start'', optional (column_of DateTimeField)), (''current_period_end'', optional (column_of DateTimeField)),
      (''grace_period_end'', optional (column_of DateTimeField)), (''cancel_at_period_end'', flag_column False),
      (''trial_end'', optional (column_of DateTimeField)), (''created_at'', created_at), (''updated_at'', updated_at)]
     [''-created_at''] [] []"

definition WebhookEvent_model :: model where
  "WebhookEvent_model = declared
     [(''stripe_event_id'', column_of (CharField 255)\<lparr>cl_unique := True, cl_primary := True\<rparr>),
      (''event_type'', indexed (column_of (CharField 100))), (''processed_at'', created_at),
      (''payload'', column_of JSONField\<lparr>cl_default := Callable ''dict''\<rparr>)]
     [''-processed_at''] [] []"


definition TenantFeatureFlag_model :: model where
  "TenantFeatureFlag_model = declared
     [(''id'', column_of BigAutoField\<lparr>cl_primary := True\<rparr>),
      (''tenant'', indexed (column_of (ForeignKey ''tenants.tenant'' ''CASCADE''))),
      (''flag_name'', indexed (column_of (CharField 100))), (''is_enabled'', flag_column True),
      (''source'', column_of (CharField 20)\<lparr>cl_choices := flag_sources, cl_default := Text_default ''manual''\<rparr>),
      (''note'', blank_text (TextField None)), (''created_at'', created_at), (''updated_at'', updated_at)]
     [''flag_name''] [[''tenant'', ''flag_name'']] []"

definition UserProfile_model :: model where
  "UserProfile_model = declared
     [(''user'', column_of (OneToOneField AUTH_USER ''CASCADE'')\<lparr>cl_primary := True\<rparr>),
      (''avatar'', optional (column_of ImageField)), (''bio'', blank_text (TextField (Some 500))),
      (''phone'', blank_text (CharField 32)),
      (''timezone'', column_of (CharField 64)\<lparr>cl_blank := True, cl_default := Text_default ''UTC''\<rparr>),
      (''updated_at'', updated_at)]
     [] [] []"

definition UserTOTP_model :: model where
  "UserTOTP_model = declared
     [(''id'', uuid_pk), (''user'', column_of (OneToOneField AUTH_USER ''CASCADE'')), (''secret'', column_of (CharField 64)),
      (''is_enabled'', flag_column False),
      (''backup_codes'', column_of JSONField\<lparr>cl_default := Callable ''apps.authentication.models._generate_backup_codes''\<rparr>),
      (''created_at'', created_at), (''updated_at'', updated_at)]
     [] [] []"

definition Notification_model :: model where
  "Notification_model = declared
     [(''id'', uuid_pk), (''user'', indexed (column_of (ForeignKey AUTH_USER ''CASCADE''))),
      (''title'', column_of (CharField 255)), (''body'', column_of (TextField None)),
      (''is_read'', indexed (flag_column False)), (''created_at'', indexed created_at)]
     [''-created_at''] [] []"

definition AuditLog_model :: model where
  "AuditLog_model = declared
     [(''id'', uuid_pk), (''tenant'', indexed (optional (column_of (ForeignKey ''tenants.tenant'' ''CASCADE'')))),
      (''actor'', optional set_null_user), (''actor_email'', column_of (EmailField 254)\<lparr>cl_blank := True\<rparr>),
      (''action'', indexed (column_of (CharField 50)\<lparr>cl_choices := audit_actions\<rparr>)),
      (''resource_type'', column_of (CharField 100)\<lparr>cl_blank := True\<rparr>),
      (''resource_id'', column_of (CharField 255)\<lparr>cl_blank := True\<rparr>),
      (''metadata'', column_of JSONField\<lparr>cl_default := Callable ''dict''\<rparr>),
      (''ip_address'', optional (column_of GenericIPAddressField)),
      (''user_agent'', column_of (TextField None)\<lparr>cl_blank := True\<rparr>), (''timestamp'', indexed created_at)]
     [''-timestamp''] []
     [(''audit_tenant_ts_idx'', [''tenant'', ''timestamp'']), (''audit_tenant_action_idx'', [''tenant'', ''action'']),
      (''audit_actor_ts_idx'', [''actor'', ''timestamp''])]"

text \<open>The concrete model over the abstract base.\<close>

definition BaseModel_fields :: "(string \<times> column) list" where
  "BaseModel_fields =
     [(''id'', uuid_pk), (''created_at'', indexed created_at), (''updated_at'', updated_at),
      (''created_by'', optional set_null_user), (''updated_by'', optional set_null_user),
      (''is_deleted'', indexed (flag_column False)), (''deleted_at'', optional (column_of DateTimeField)),
      (''deleted_by'', optional set_null_user)]"

definition Record_model :: model where
  "Record_model = declared (BaseModel_fields @ [(''title'', column_of (CharField 255))]) [''-created_at''] [] []"

definition MODELS :: project_state where
  "MODELS =
     [(''tenants.tenant'', Tenant_model), (''tenants.domain'', Domain_model), (''rbac.usertenantrole'', UserTenantRole_model),
      (''invitations.tenantinvitation'', TenantInvitation_model), (''billing.plan'', Plan_model),
      (''billing.subscription'', Subscription_model), (''billing.webhookevent'', WebhookEvent_model),
      (''features.tenantfeatureflag'', TenantFeatureFlag_model), (''users.userprofile'', UserProfile_model),
      (''authentication.usertotp'', UserTOTP_model), (''notifications.notification'', Notification_model),
      (''audit.auditlog'', AuditLog_model), (''common.record'', Record_model)]"

subsection \<open>Applying migrations\<close>

definition references :: "column \<Rightarrow> string list" where
  "references c = (case cl_type c of ForeignKey to _ \<Rightarrow> [to] | OneToOneField to _ \<Rightarrow> [to] | _ \<Rightarrow> [])"

definition known :: "project_state \<Rightarrow> column \<Rightarrow> bool" where
  "known st c = list_all (\<lambda>to. to = AUTH_USER \<or> map_of st to \<noteq> None) (references c)"

definition update_model :: "string \<Rightarrow> model \<Rightarrow> project_state \<Rightarrow> project_state" where
  "update_model key m st = map (\<lambda>(k, x). if k = key then (k, m) else (k, x)) st"

fun apply_operation :: "string \<Rightarrow> operation \<Rightarrow> project_state \<Rightarrow> project_state option" where
  "apply_operation app (CreateModel name cols order uniq) st =
     (let key = app @ ''.'' @ py_lower name
      in if map_of st key \<noteq> None \<or> \<not> distinct (map fst cols) \<or> \<not> list_all (known st) (map snd cols) then None
         else Some (st @ [(key, declared cols order uniq [])]))"
| "apply_operation app (AddField name col c) st =
     (let key = app @ ''.'' @ name
      in case map_of st key of
           None \<Rightarrow> None
         | Some m \<Rightarrow>
             if map_of (md_fields m) col \<noteq> None \<or> \<not> known st c then None
             else Some (update_model key (m\<lparr>md_fields := md_fields m @ [(col, c)]\<rparr>) st))"
| "apply_operation app (AlterField name col c) st =
     (let key = app @ ''.'' @ name
      in case map_of st key of
           None \<Rightarrow> None
         | Some m \<Rightarrow>
             if map_of (md_fields m) col = None \<or> \<not> known st c then None
             else Some (update_model key
               (m\<lparr>md_fields := map (\<lambda>(k, x). if k = col then (k, c) else (k, x)) (md_fields m)\<rparr>) st))"
| "apply_operation app (AddIndex name index cols) st =
     (let key = app @ ''.'' @ name
      in case map_of st key of
           None \<Rightarrow> None
         | Some m \<Rightarrow>
             if map_of (md_indexes m) index \<noteq> None \<or> \<not> list_all (\<lambda>col. map_of (md_fields m) col \<noteq> None) cols then None
             else Some (update_model key (m\<lparr>md_indexes := md_indexes m @ [(index, cols)]\<rparr>) st))"
| "apply_operation app (RunPython step) st = Some st"

fun apply_operations :: "string \<Rightarrow> operation list \<Rightarrow> project_state \<Rightarrow> project_state option" where
  "apply_operations app [] st = Some st"
| "apply_operations app (x # xs) st =
     (case apply_operation app x st of None \<Rightarrow> None | Some st' \<Rightarrow> apply_operations app xs st')"

text \<open>A migration is applied after everything it depends on.\<close>

fun migrate :: "(string \<times> string) list \<Rightarrow> migration list \<Rightarrow> project_state \<Rightarrow> project_state option" where
  "migrate done [] st = Some st"
| "migrate done (m # ms) st =
     (if \<not> list_all (\<lambda>d. d \<in> set done) (mg_dependencies m) then None
      else case apply_operations (mg_app m) (mg_operations m) st of
             None \<Rightarrow> None
           | Some st' \<Rightarrow> migrate ((mg_app m, mg_name m) # done) ms st')"

definition same_model :: "model \<Rightarrow> model \<Rightarrow> bool" where
  "same_model a b \<longleftrightarrow> distinct (map fst (md_fields a)) \<and> distinct (map fst (md_fields b)) \<and>
     set (md_fields a) = set (md_fields b) \<and> md_ordering a = md_ordering b \<and>
     set (md_unique_together a) = set (md_unique_together b) \<and> set (md_indexes a) = set (md_indexes b)"

definition same_schema :: "project_state \<Rightarrow> project_state \<Rightarrow> bool" where
  "same_schema a b \<longleftrightarrow> distinct (map fst a) \<and> distinct (map fst b) \<and> fst ` set a = fst ` set b \<and>
     list_all (\<lambda>(k, m). case map_of b k of Some m' \<Rightarrow> same_model m m' | None \<Rightarrow> False) a"

text \<open>The sets of columns that are unique in a model: alone, or together.\<close>

definition unique_keys :: "model \<Rightarrow> string set set" where
  "unique_keys m =
     (\<lambda>(name, c). {name}) ` {f \<in> set (md_fields m). cl_unique (snd f) \<or> cl_primary (snd f)} \<union> set ` set (md_unique_together m)"


text \<open>The keys on which the tables of the model are unique, per model.\<close>

definition table_keys :: "(string \<times> string set set) list" where
  "table_keys =
     [(''tenants.tenant'', {{''id''}, {''slug''}, {''schema_name''}}), (''tenants.domain'', {{''id''}, {''domain''}}),
      (''rbac.usertenantrole'', {{''id''}, {''user'', ''tenant''}}), (''invitations.tenantinvitation'', {{''id''}, {''token''}}),
      (''billing.plan'', {{''id''}, {''slug''}}),
      (''billing.subscription'', {{''id''}, {''tenant''}, {''stripe_customer_id''}, {''stripe_subscription_id''}}),
      (''billing.webhookevent'', {{''stripe_event_id''}}), (''features.tenantfeatureflag'', {{''id''}, {''tenant'', ''flag_name''}}),
      (''users.userprofile'', {{''user''}}), (''authentication.usertotp'', {{''id''}, {''user''}}),
      (''notifications.notification'', {{''id''}}), (''audit.auditlog'', {{''id''}}), (''common.record'', {{''id''}})]"

subsection \<open>Data steps\<close>

text \<open>A tenant row while the column \<open>schema_name\<close> is nullable.\<close>

record old_tenant =
  ot_id :: uuid
  ot_name :: string
  ot_slug :: string
  ot_is_active :: bool
  ot_created_at :: instant
  ot_updated_at :: instant
  ot_schema_name :: "string option"

definition backfill_schema_name :: "old_tenant list \<Rightarrow> old_tenant list" where
  "backfill_schema_name rows =
     foldl (\<lambda>tbl t. qs_update (\<lambda>r. ot_id r = ot_id t) (\<lambda>r. r\<lparr>ot_schema_name := Some (ot_slug t)\<rparr>) tbl) rows rows"

text \<open>Step 3: the column becomes not null and unique; it fails on a null or a repeated value.\<close>

definition require_schema_name :: "old_tenant list \<Rightarrow> tenant list option" where
  "require_schema_name rows =
     (if list_ex (\<lambda>r. ot_schema_name r = None) rows \<or> \<not> distinct (map ot_schema_name rows) then None
      else Some (map (\<lambda>r. \<lparr>tn_id = ot_id r, tn_name = ot_name r, tn_slug = ot_slug r,
        tn_schema_name = (case ot_schema_name r of Some s \<Rightarrow> s | None \<Rightarrow> []), tn_is_active = ot_is_active r,
        tn_created_at = ot_created_at r, tn_updated_at = ot_updated_at r\<rparr>) rows))"

record waffle_flag =
  wf_name :: string
  wf_everyone :: "bool option"
  wf_note :: string

definition create_feature_flags :: "waffle_flag list \<Rightarrow> exn + waffle_flag list" where
  "create_feature_flags flags =
     (case get_or_create (\<lambda>f. wf_name f = ''new_dashboard'')
        \<lparr>wf_name = ''new_dashboard'', wf_everyone = None,
         wf_note = ''SAAS-903 '' @ [CHR 0xE2, CHR 0x80, CHR 0x94] @ '' example feature flag. '' @
           ''Enable in /admin/waffle/flag/ to roll out the new dashboard UI.''\<rparr> flags of
        (Inl e, _) \<Rightarrow> Inl e
      | (Inr _, flags') \<Rightarrow> Inr flags')"

definition remove_feature_flags :: "waffle_flag list \<Rightarrow> waffle_flag list" where
  "remove_feature_flags flags = qs_delete (\<lambda>f. wf_name f = ''new_dashboard'') flags"

subsection \<open>Lemmas\<close>

text \<open>Row by row: a loop of updates by key updates each row by the rows of its key.\<close>

lemma foldl_updates:
  assumes "\<And>t r. key (g t r) = key r"
  shows "foldl (\<lambda>tbl t. qs_update (\<lambda>r. key r = key t) (g t) tbl) tbl ts =
    map (\<lambda>r. foldl (\<lambda>r t. if key r = key t then g t r else r) r ts) tbl"
  by (induction ts arbitrary: tbl) (simp_all add: qs_update_def comp_def)

lemma foldl_own_row:
  assumes "\<And>t r. key (g t r) = key r" and "distinct (map key ts)"
  shows "foldl (\<lambda>r t. if key r = key t then g t r else r) r ts =
    (case find (\<lambda>t. key r = key t) ts of Some t \<Rightarrow> g t r | None \<Rightarrow> r)"
  using assms(2)
proof (induction ts arbitrary: r)
  case (Cons t ts)
  have "foldl (\<lambda>r t. if key r = key t then g t r else r) (g t r) ts = g t r" if "key r = key t"
  proof -
    have "find (\<lambda>x. key (g t r) = key x) ts = None"
      using Cons.prems that by (auto simp: find_None_iff assms(1))
    then show ?thesis using Cons by simp
  qed
  with Cons show ?case by simp
qed simp

lemma backfill_map:
  assumes "tbl_ok ot_id rows"
  shows "backfill_schema_name rows = map (\<lambda>r. r\<lparr>ot_schema_name := Some (ot_slug r)\<rparr>) rows"
proof -
  let ?g = "\<lambda>t r. r\<lparr>ot_schema_name := Some (ot_slug t)\<rparr>"
  have dist: "distinct (map ot_id rows)" using assms by (simp add: tbl_ok_def)
  have "foldl (\<lambda>r t. if ot_id r = ot_id t then ?g t r else r) r rows = ?g r r" if "r \<in> set rows" for r
  proof -
    have "find (\<lambda>t. ot_id r = ot_id t) rows = Some r"
      using dist that by (induction rows) (auto, metis imageI)
    then show ?thesis using foldl_own_row [of ot_id ?g rows r] dist by simp
  qed
  then show ?thesis
    unfolding backfill_schema_name_def using foldl_updates [of ot_id ?g rows rows] by simp
qed

subsection \<open>Properties\<close>


text \<open>The column \<open>schema_name\<close> can be added to any table of tenants: after the backfill no value is missing or
  repeated, so the step that makes it required and unique succeeds, and every tenant keeps its data and
  gets its slug as schema name.\<close>

theorem schema_name_backfill:
  assumes ids: "tbl_ok ot_id rows" and slugs: "tbl_ok ot_slug rows"
  shows "\<exists>ts. require_schema_name (backfill_schema_name rows) = Some ts \<and> tbl_ok tn_schema_name ts \<and>
    map (\<lambda>t. (tn_id t, tn_name t, tn_slug t, tn_is_active t)) ts =
      map (\<lambda>r. (ot_id r, ot_name r, ot_slug r, ot_is_active r)) rows \<and>
    (\<forall>t\<in>set ts. tn_schema_name t = tn_slug t)"
proof -
  let ?bf = "map (\<lambda>r. r\<lparr>ot_schema_name := Some (ot_slug r)\<rparr>) rows"
  have "distinct (map ot_schema_name ?bf)"
    using slugs by (simp add: tbl_ok_def comp_def distinct_map inj_on_def)
  moreover have "\<not> list_ex (\<lambda>r. ot_schema_name r = None) ?bf" by (simp add: list_ex_iff)
  ultimately show ?thesis
    using slugs unfolding backfill_map [OF ids] by (simp add: require_schema_name_def tbl_ok_def comp_def)
qed

theorem schema_name_backfill_witness:
  "\<exists>ts. require_schema_name (backfill_schema_name
      [\<lparr>ot_id = ''a'', ot_name = ''A'', ot_slug = ''acme'', ot_is_active = True, ot_created_at = 0, ot_updated_at = 0, ot_schema_name = None\<rparr>,
       \<lparr>ot_id = ''b'', ot_name = ''B'', ot_slug = ''beta'', ot_is_active = False, ot_created_at = 0, ot_updated_at = 0, ot_schema_name = None\<rparr>])
     = Some ts \<and> tbl_ok tn_schema_name ts"
proof -
  let ?rows = "[\<lparr>ot_id = ''a'', ot_name = ''A'', ot_slug = ''acme'', ot_is_active = True, ot_created_at = 0, ot_updated_at = 0, ot_schema_name = None\<rparr>,
       \<lparr>ot_id = ''b'', ot_name = ''B'', ot_slug = ''beta'', ot_is_active = False, ot_created_at = 0, ot_updated_at = 0, ot_schema_name = None\<rparr>]"
  have "tbl_ok ot_id ?rows" "tbl_ok ot_slug ?rows" by (simp_all add: tbl_ok_def)
  from schema_name_backfill [OF this] show ?thesis by blast
qed

text \<open>The flag migration on a table without the flag adds it switched off, adding it twice is adding it once, and
  reversing it restores the table; a flag of that name that was there before is removed as well.\<close>

theorem flag_migration_roundtrip:
  assumes "tbl_ok wf_name flags"
  shows "\<exists>flags'. create_feature_flags flags = Inr flags' \<and> create_feature_flags flags' = Inr flags' \<and>
    tbl_ok wf_name flags' \<and> remove_feature_flags flags' = remove_feature_flags flags \<and>
    (''new_dashboard'' \<notin> wf_name ` set flags \<longrightarrow> remove_feature_flags flags' = flags)"
proof -
  let ?P = "\<lambda>f. wf_name f = ''new_dashboard''"
  show ?thesis
  proof (cases "qs_get ?P flags")
    case (Inr f)
    then have "f \<in> set flags" "wf_name f = ''new_dashboard''" using qs_get_Inr [of ?P flags f] by simp_all
    then have "''new_dashboard'' \<in> wf_name ` set flags" by (metis imageI)
    with Inr assms show ?thesis by (auto simp: create_feature_flags_def get_or_create_def)
  next
    case (Inl e)
    with assms have "e = DoesNotExist" by (simp add: qs_get_tbl_lookup split: option.splits)
    with Inl have none: "\<forall>f\<in>set flags. wf_name f \<noteq> ''new_dashboard''" by (simp add: qs_get_DoesNotExist)
    then have "filter ?P flags = []" by (simp add: filter_empty_conv)
    with Inl \<open>e = DoesNotExist\<close> none assms show ?thesis
      by (auto simp: create_feature_flags_def get_or_create_def qs_get_def tbl_ok_def remove_feature_flags_def qs_delete_def)
  qed
qed

theorem flag_migration_roundtrip_witness:
  "\<exists>flags'. create_feature_flags [] = Inr flags' \<and> remove_feature_flags flags' = []"
proof -
  have "tbl_ok wf_name []" by (simp add: tbl_ok_def)
  from flag_migration_roundtrip [OF this] show ?thesis by auto
qed

end
