(* ===== verification/Pipeline.thy ===== *)
theory Pipeline
  imports System Platform
begin

text \<open>
  The middleware stack of \<open>config/settings/base.py\<close>: the program's three middlewares (request context, tenant,
  content security policy) at their places among the framework's, around the views of \<open>System\<close>. A framework
  middleware is a parameter, \<open>framework name\<close>; \<open>respond\<close> is the framework's conversion of an exception into a
  response, which it puts around the view and around every middleware. The state of a handler is the state of
  \<open>System\<close> with the logging context.
\<close>

subsection \<open>The layers\<close>

type_synonym web = "site \<times> log_context"

type_synonym middleware = "(site, unit) handler \<Rightarrow> (site, unit) handler"

definition MIDDLEWARE :: "string list" where
  "MIDDLEWARE =
     [''django.middleware.security.SecurityMiddleware'',
      ''corsheaders.middleware.CorsMiddleware'',
      ''apps.common.middleware.request_context.RequestContextMiddleware'',
      ''apps.tenants.middleware.TenantMiddleware'',
      ''whitenoise.middleware.WhiteNoiseMiddleware'',
      ''django.contrib.sessions.middleware.SessionMiddleware'',
      ''waffle.middleware.WaffleMiddleware'',
      ''django.middleware.common.CommonMiddleware'',
      ''django.middleware.csrf.CsrfViewMiddleware'',
      ''django.contrib.auth.middleware.AuthenticationMiddleware'',
      ''django.contrib.messages.middleware.MessageMiddleware'',
      ''django.middleware.clickjacking.XFrameOptionsMiddleware'',
      ''apps.common.middleware.content_security_policy.ContentSecurityPolicyMiddleware'']"

text \<open>
  The tenant middleware over the full state. Between \<open>set_tenant_id\<close> and the call of the rest it binds the
  tenant id in the logging context; its own 404 and 403 carry no header of the program's. (The reply and the
  context of the rest travel as the body of the response \<open>TenantMiddleware_call\<close> passes through.)
\<close>

definition tenant_log_context :: "request \<Rightarrow> log_context \<Rightarrow> log_context" where
  "tenant_log_context rq ctx = (case rq_tenant rq of Some t \<Rightarrow> ctx(''tenant_id'' \<mapsto> tn_id t) | None \<Rightarrow> ctx)"

definition TenantMiddleware_web :: "instant \<Rightarrow> middleware" where
  "TenantMiddleware_web now get_response rq w =
     (case TenantMiddleware_call now
        (\<lambda>rq' st. case get_response rq' (st, tenant_log_context rq' (snd w)) of
             (Inl e, w') \<Rightarrow> (Inl e, fst w')
           | (Inr r, w') \<Rightarrow> (Inr (Response 200 (r, snd w')), fst w')) rq (fst w) of
        (Inl e, st) \<Rightarrow> (Inl e, (st, snd w))
      | (Inr (Response _ (r, ctx)), st) \<Rightarrow> (Inr r, (st, ctx))
      | (Inr own, st) \<Rightarrow> (Inr \<lparr>reply_response = answered own, reply_headers = Map.empty\<rparr>, (st, snd w)))"

text \<open>A view of \<open>System\<close> as a handler; the headers of rendering are left out.\<close>

definition web_view :: "environment \<Rightarrow> instant \<Rightarrow> entropy \<Rightarrow> endpoint \<Rightarrow> (site, unit) handler" where
  "web_view env now r ep rq w =
     (case view env now r ep rq (fst w) of
        (Uncaught e, st) \<Rightarrow> (Inl e, (st, snd w))
      | (resp, st) \<Rightarrow> (Inr \<lparr>reply_response = resp, reply_headers = Map.empty\<rparr>, (st, snd w)))"

subsection \<open>The stack\<close>

record stack =
  framework :: "string \<Rightarrow> middleware"
  respond :: "exn \<Rightarrow> unit reply"
  request_uuid :: string
  csp_policy :: string

definition middleware_of :: "stack \<Rightarrow> instant \<Rightarrow> string \<Rightarrow> middleware" where
  "middleware_of k now name =
     (if name = ''apps.common.middleware.request_context.RequestContextMiddleware''
      then RequestContextMiddleware_call (request_uuid k)
      else if name = ''apps.tenants.middleware.TenantMiddleware'' then TenantMiddleware_web now
      else if name = ''apps.common.middleware.content_security_policy.ContentSecurityPolicyMiddleware''
      then ContentSecurityPolicyMiddleware_call (csp_policy k)
      else framework k name)"

definition convert_exception :: "stack \<Rightarrow> (site, unit) handler \<Rightarrow> (site, unit) handler" where
  "convert_exception k h rq w = (case h rq w of (Inl e, w') \<Rightarrow> (Inr (respond k e), w') | (Inr r, w') \<Rightarrow> (Inr r, w'))"

definition load_middleware :: "stack \<Rightarrow> instant \<Rightarrow> string list \<Rightarrow> (site, unit) handler \<Rightarrow> (site, unit) handler" where
  "load_middleware k now names v =
     foldr (\<lambda>name h. convert_exception k (middleware_of k now name h)) names (convert_exception k v)"

definition application :: "stack \<Rightarrow> environment \<Rightarrow> instant \<Rightarrow> entropy \<Rightarrow> endpoint \<Rightarrow> (site, unit) handler" where
  "application k env now r ep rq =
     load_middleware k now MIDDLEWARE (web_view env now r ep) (rq\<lparr>rq_path := route ep\<rparr>)"

subsection \<open>Layers that only add headers\<close>

text \<open>
  What is documented of the security and the CORS middleware, and holds of the content policy: a request is
  either answered by the layer itself, whatever is behind it, or the answer behind it is returned with some of
  the layer's own headers set.
\<close>

definition answers_itself :: "middleware \<Rightarrow> request \<Rightarrow> web \<Rightarrow> bool" where
  "answers_itself m rq w \<longleftrightarrow> (\<exists>r. \<forall>h. m h rq w = (Inr r, w))"

definition adds_headers :: "string set \<Rightarrow> unit reply \<Rightarrow> unit reply \<Rightarrow> bool" where
  "adds_headers names r r' \<longleftrightarrow> reply_response r' = reply_response r \<and>
     (\<forall>n. n \<notin> names \<longrightarrow> reply_headers r' n = reply_headers r n)"

locale header_layer =
  fixes layer :: middleware and names :: "string set"
  assumes answers_or_passes:
    "\<lbrakk>\<not> answers_itself layer rq w; h rq w = (Inr r, w')\<rbrakk> \<Longrightarrow> \<exists>r'. layer h rq w = (Inr r', w') \<and> adds_headers names r r'"
begin

lemma keeps_header:
  assumes "\<not> answers_itself layer rq w" and "h rq w = (Inr r, w')" and "n \<notin> names"
  shows "\<exists>r'. layer h rq w = (Inr r', w') \<and> reply_headers r' n = reply_headers r n \<and> reply_response r' = reply_response r"
  using answers_or_passes [of rq w h r w'] assms by (auto simp: adds_headers_def)

end

interpretation csp: header_layer "ContentSecurityPolicyMiddleware_call policy" "{''Content-Security-Policy''}" for policy
  by unfold_locales (auto simp: ContentSecurityPolicyMiddleware_call_def adds_headers_def set_header_def)

lemma convert_exception_total: "\<exists>r w'. convert_exception k h rq w = (Inr r, w')"
  by (cases "h rq w"; cases "fst (h rq w)") (auto simp: convert_exception_def)

lemma convert_exception_Inr: "h rq w = (Inr r, w') \<Longrightarrow> convert_exception k h rq w = (Inr r, w')"
  by (simp add: convert_exception_def)

text \<open>Every layer, converted, behind a list of names that are all header layers and let the request through.\<close>

definition lets_through :: "stack \<Rightarrow> instant \<Rightarrow> string list \<Rightarrow> request \<Rightarrow> web \<Rightarrow> bool" where
  "lets_through k now names rq w \<longleftrightarrow> (\<forall>name\<in>set names. \<not> answers_itself (middleware_of k now name) rq w)"

lemma load_middleware_simps:
  "load_middleware k now [] v = convert_exception k v"
  "load_middleware k now (name # names) v =
     convert_exception k (middleware_of k now name (load_middleware k now names v))"
  by (simp_all add: load_middleware_def)

lemma load_middleware_total: "\<exists>r w'. load_middleware k now names v rq w = (Inr r, w')"
proof (cases names)
  case Nil
  then show ?thesis using convert_exception_total [of k v rq w] by (simp add: load_middleware_simps)
next
  case (Cons name rest)
  then show ?thesis
    using convert_exception_total [of k "middleware_of k now name (load_middleware k now rest v)" rq w]
    by (simp add: load_middleware_simps)
qed

lemma header_layers_pass:
  assumes layers: "\<And>name. name \<in> set names \<Longrightarrow> header_layer (middleware_of k now name) (- {n})"
    and through: "lets_through k now names rq w"
    and inner: "load_middleware k now rest v rq w = (Inr r, w')"
  shows "\<exists>r'. load_middleware k now (names @ rest) v rq w = (Inr r', w') \<and>
    reply_headers r' n = reply_headers r n \<and> reply_response r' = reply_response r"
  using layers through
proof (induction names)
  case Nil
  then show ?case using inner by simp
next
  case (Cons name names)
  then obtain r1 where r1: "load_middleware k now (names @ rest) v rq w = (Inr r1, w')"
    "reply_headers r1 n = reply_headers r n" "reply_response r1 = reply_response r"
    by (auto simp: lets_through_def)
  from Cons.prems have "header_layer (middleware_of k now name) (- {n})" "\<not> answers_itself (middleware_of k now name) rq w"
    by (simp_all add: lets_through_def)
  from header_layer.keeps_header [OF this, where n = n and h = "load_middleware k now (names @ rest) v", OF r1(1)] r1
  show ?case
    by (auto simp: load_middleware_simps convert_exception_def)
qed

text \<open>The tenant middleware for the endpoints of the program, none of which is exempt.\<close>

lemma route_not_exempt: "\<not> list_ex (starts_with (route ep)) EXEMPT_PREFIXES"
  by (cases ep) (simp_all add: EXEMPT_PREFIXES_def)

lemma TenantMiddleware_web_eq:
  assumes "rq_path rq = route ep"
  shows "TenantMiddleware_web now h rq w =
    (case resolve_tenant now (split_head (CHR '':'') (rq_host rq)) (fst w) of
       (Inl e, st1) \<Rightarrow> (Inl e, (st1, snd w))
     | (Inr None, st1) \<Rightarrow> (Inr \<lparr>reply_response = Detail 404 ''Tenant not found.'', reply_headers = Map.empty\<rparr>, (st1, snd w))
     | (Inr (Some t), st1) \<Rightarrow>
         if \<not> tn_is_active t
         then (Inr \<lparr>reply_response = Detail 403 ''This tenant is inactive.'', reply_headers = Map.empty\<rparr>, (st1, snd w))
         else
           (case h (rq\<lparr>rq_tenant := Some t\<rparr>) (set_tenant_id (Some (tn_id t)) st1, (snd w)(''tenant_id'' \<mapsto> tn_id t)) of
              (Inl e, w') \<Rightarrow> (Inl e, (fst w', snd w))
            | (Inr r, w') \<Rightarrow> (Inr r, (clear_tenant (fst w'), snd w'))))"
  using route_not_exempt [of ep] assms
  by (auto simp: TenantMiddleware_web_def TenantMiddleware_call_def tenant_log_context_def
      split: prod.splits sum.splits option.splits)

lemma TenantMiddleware_web_clears:
  assumes "rq_path rq = route ep" and "tenant_ctx (fst w) = None" and "\<And>rq w. \<exists>r w'. h rq w = (Inr r, w')"
    and "TenantMiddleware_web now h rq w = (x, w')"
  shows "tenant_ctx (fst w') = None"
proof -
  obtain y st1 where run: "resolve_tenant now (split_head (CHR '':'') (rq_host rq)) (fst w) = (y, st1)" by fastforce
  with assms(2) have "tenant_ctx st1 = None" by (simp add: resolve_tenant_frame)
  note eq = TenantMiddleware_web_eq [OF assms(1), of now h w] and ctx = this
  show ?thesis
  proof (cases "\<exists>t. y = Inr (Some t) \<and> tn_is_active t")
    case False
    with assms(4) run ctx show ?thesis by (auto simp: eq split: sum.splits option.splits)
  next
    case True
    then obtain t where t: "y = Inr (Some t)" "tn_is_active t" by blast
    obtain r w2 where "h (rq\<lparr>rq_tenant := Some t\<rparr>) (set_tenant_id (Some (tn_id t)) st1, (snd w)(''tenant_id'' \<mapsto> tn_id t)) = (Inr r, w2)"
      using assms(3) by metis
    with assms(4) run t show ?thesis by (simp add: eq) (auto simp: clear_tenant_def)
  qed
qed

text \<open>The program's part of the stack: request context and tenant middleware around the rest.\<close>

definition traced_id :: "stack \<Rightarrow> request \<Rightarrow> string" where
  "traced_id k rq = str_or (case rq_headers rq ''X-Request-ID'' of Some v \<Rightarrow> v | None \<Rightarrow> []) (request_uuid k)"

lemma traced_part:
  assumes "rq_path rq = route ep" and "tenant_ctx (fst w) = None"
  shows "\<exists>r st. load_middleware k now (drop 2 MIDDLEWARE) v rq w = (Inr r, (st, Map.empty)) \<and>
    reply_headers r ''X-Request-ID'' = Some (traced_id k rq) \<and> tenant_ctx st = None"
proof -
  let ?rest = "load_middleware k now (drop 4 MIDDLEWARE) v"
  let ?tenant = "convert_exception k (TenantMiddleware_web now ?rest)"
  have shape: "load_middleware k now (drop 2 MIDDLEWARE) v =
      convert_exception k (RequestContextMiddleware_call (request_uuid k) ?tenant)"
    by (simp add: MIDDLEWARE_def load_middleware_simps middleware_of_def)
  let ?w = "(fst w, Map.empty(''request_id'' \<mapsto> traced_id k rq))"
  obtain x w1 where tenant: "TenantMiddleware_web now ?rest rq ?w = (x, w1)" by (metis prod.exhaust)
  have "tenant_ctx (fst w1) = None"
    by (rule TenantMiddleware_web_clears [OF assms(1) _ load_middleware_total tenant]) (simp add: assms(2))
  moreover from tenant obtain r where "?tenant rq ?w = (Inr r, w1)" by (cases x) (simp_all add: convert_exception_def)
  ultimately show ?thesis
    unfolding shape by (simp add: RequestContextMiddleware_call_def traced_id_def convert_exception_def set_header_def)
qed

subsection \<open>Properties\<close>

text \<open>What is documented of the framework's middlewares: they answer a request themselves or only set headers of
  their own, among them neither of the program's two.\<close>

definition framework_ok :: "stack \<Rightarrow> bool" where
  "framework_ok k \<longleftrightarrow>
     (\<forall>name. header_layer (framework k name) (- {''X-Request-ID'', ''Content-Security-Policy''})) \<and>
     (\<forall>e. reply_headers (respond k e) ''Content-Security-Policy'' = None)"

lemma header_layer_mono: "header_layer m A \<Longrightarrow> A \<subseteq> B \<Longrightarrow> header_layer m B"
  unfolding header_layer_def adds_headers_def by blast

lemma outer_layers:
  assumes "framework_ok k" and "name \<in> set (take 2 MIDDLEWARE)" and "n \<in> {''X-Request-ID'', ''Content-Security-Policy''}"
  shows "header_layer (middleware_of k now name) (- {n})" "middleware_of k now name = framework k name"
proof -
  show "middleware_of k now name = framework k name"
    using assms(2) by (auto simp: MIDDLEWARE_def middleware_of_def)
  with assms(1,3) show "header_layer (middleware_of k now name) (- {n})"
    by (auto simp: framework_ok_def intro: header_layer_mono)
qed

lemma inner_layers:
  assumes "framework_ok k" and "name \<in> set (take 8 (drop 4 MIDDLEWARE))"
  shows "header_layer (middleware_of k now name) (- {''Content-Security-Policy''})" "middleware_of k now name = framework k name"
proof -
  show "middleware_of k now name = framework k name"
    using assms(2) by (auto simp: MIDDLEWARE_def middleware_of_def)
  with assms(1) show "header_layer (middleware_of k now name) (- {''Content-Security-Policy''})"
    by (auto simp: framework_ok_def intro: header_layer_mono)
qed

text \<open>The response a client sees for what a view answers, and the policy header set inside.\<close>

definition shown :: "stack \<Rightarrow> exn + unit response \<Rightarrow> unit response" where
  "shown k x = (case x of Inl e \<Rightarrow> reply_response (respond k e) | Inr (Uncaught e) \<Rightarrow> reply_response (respond k e) | Inr resp \<Rightarrow> resp)"

definition policy_header :: "stack \<Rightarrow> string option" where
  "policy_header k = (if csp_policy k = [] then None else Some (csp_policy k))"

lemma policy_part:
  assumes "framework_ok k"
  shows "\<exists>a. load_middleware k now [''apps.common.middleware.content_security_policy.ContentSecurityPolicyMiddleware'']
      (web_view env now r ep) rq w = (Inr a, (snd (view env now r ep rq (fst w)), snd w)) \<and>
    reply_response a = shown k (Inr (fst (view env now r ep rq (fst w)))) \<and>
    reply_headers a ''Content-Security-Policy'' = policy_header k"
  using assms
  by (cases "view env now r ep rq (fst w)"; cases "fst (view env now r ep rq (fst w))")
    (auto simp: load_middleware_simps middleware_of_def convert_exception_def ContentSecurityPolicyMiddleware_call_def
      web_view_def set_header_def shown_def policy_header_def framework_ok_def)

lemma inner_part:
  assumes ok: "framework_ok k" and through: "\<And>name. \<not> answers_itself (framework k name) rq w"
  shows "\<exists>a. load_middleware k now (drop 4 MIDDLEWARE) (web_view env now r ep) rq w =
      (Inr a, (snd (view env now r ep rq (fst w)), snd w)) \<and>
    reply_response a = shown k (Inr (fst (view env now r ep rq (fst w)))) \<and>
    reply_headers a ''Content-Security-Policy'' = policy_header k"
proof -
  have split: "drop 4 MIDDLEWARE = take 8 (drop 4 MIDDLEWARE) @
      [''apps.common.middleware.content_security_policy.ContentSecurityPolicyMiddleware'']" by (simp add: MIDDLEWARE_def)
  have lets: "lets_through k now (take 8 (drop 4 MIDDLEWARE)) rq w"
    using inner_layers(2) [OF ok] through by (simp add: lets_through_def)
  obtain a where a: "load_middleware k now [''apps.common.middleware.content_security_policy.ContentSecurityPolicyMiddleware'']
      (web_view env now r ep) rq w = (Inr a, (snd (view env now r ep rq (fst w)), snd w))"
    "reply_response a = shown k (Inr (fst (view env now r ep rq (fst w))))"
    "reply_headers a ''Content-Security-Policy'' = policy_header k"
    using policy_part [OF ok] by blast
  from header_layers_pass [OF inner_layers(1) [OF ok] lets a(1)] a(2,3) show ?thesis
    unfolding split [symmetric] by auto
qed

lemma tenant_part:
  assumes ok: "framework_ok k" and through: "\<And>name rq w. \<not> answers_itself (framework k name) rq w"
  shows "\<exists>a ctx. convert_exception k (TenantMiddleware_web now (load_middleware k now (drop 4 MIDDLEWARE) (web_view env now r ep)))
      (rq\<lparr>rq_path := route ep\<rparr>) w = (Inr a, (snd (serve env now r ep rq (fst w)), ctx)) \<and>
    reply_response a = shown k (fst (serve env now r ep rq (fst w))) \<and>
    reply_headers a ''Content-Security-Policy'' =
      (case resolve_tenant now (split_head (CHR '':'') (rq_host rq)) (fst w) of
         (Inr (Some t), _) \<Rightarrow> if tn_is_active t then policy_header k else None | _ \<Rightarrow> None)"
proof -
  let ?rest = "load_middleware k now (drop 4 MIDDLEWARE) (web_view env now r ep)"
  let ?rq = "rq\<lparr>rq_path := route ep\<rparr>"
  have path: "rq_path ?rq = route ep" by simp
  note web = TenantMiddleware_web_eq [OF path, of now ?rest w]
  note srv = serve_def TenantMiddleware_call_def route_not_exempt
  obtain y st1 where run: "resolve_tenant now (split_head (CHR '':'') (rq_host rq)) (fst w) = (y, st1)" by fastforce
  show ?thesis
  proof (cases "\<exists>t. y = Inr (Some t) \<and> tn_is_active t")
    case False
    with run ok show ?thesis
      by (auto simp: convert_exception_def web srv shown_def framework_ok_def split: sum.splits option.splits)
  next
    case True
    then obtain t where t: "y = Inr (Some t)" "tn_is_active t" by blast
    let ?st = "set_tenant_id (Some (tn_id t)) st1"
    obtain resp st2 where v: "view env now r ep (?rq\<lparr>rq_tenant := Some t\<rparr>) ?st = (resp, st2)" by fastforce
    obtain a where "?rest (?rq\<lparr>rq_tenant := Some t\<rparr>) (?st, (snd w)(''tenant_id'' \<mapsto> tn_id t)) = (Inr a, (st2, (snd w)(''tenant_id'' \<mapsto> tn_id t)))"
      "reply_response a = shown k (Inr resp)" "reply_headers a ''Content-Security-Policy'' = policy_header k"
      using inner_part [OF ok through, where rq = "?rq\<lparr>rq_tenant := Some t\<rparr>" and w = "(?st, (snd w)(''tenant_id'' \<mapsto> tn_id t))"
          and now = now and env = env and r = r and ep = ep] v by auto
    with run t v show ?thesis by (simp add: convert_exception_def web srv)
  qed
qed


text \<open>A stack whose framework layers do nothing.\<close>

definition plain_stack :: stack where
  "plain_stack = \<lparr>framework = (\<lambda>_ h. h), respond = (\<lambda>e. \<lparr>reply_response = Uncaught e, reply_headers = Map.empty\<rparr>),
     request_uuid = ''u1'', csp_policy = ''p''\<rparr>"

lemma plain_stack_ok: "framework_ok plain_stack" "\<not> answers_itself (framework plain_stack name) rq w"
proof -
  show "framework_ok plain_stack"
    by (auto simp: framework_ok_def plain_stack_def header_layer_def adds_headers_def)
  show "\<not> answers_itself (framework plain_stack name) rq w"
  proof
    assume "answers_itself (framework plain_stack name) rq w"
    then obtain r where "\<And>h. (h :: (site, unit) handler) rq w = (Inr r, w)" by (auto simp: answers_itself_def plain_stack_def)
    from this [of "\<lambda>_ _. (Inl DatabaseError, w)"] show False by simp
  qed
qed




end
