(* ===== verification/Operations.thy ===== *)
theory Operations
  imports Settings Store
begin

text \<open>
  What runs beside the requests: the logging set-up (\<open>apps/common/logging_config.py\<close>), the error reporting
  set-up (\<open>apps/common/sentry.py\<close>), \<open>CommonConfig.ready\<close>, and the commands \<open>check_redis\<close> and
  \<open>sync_beat_schedule\<close>. The processors of the logging library are a parameter, \<open>lib\<close>; of them the merging of
  the context is written out, as documented: a field of the event wins.
\<close>

subsection \<open>Logging\<close>

datatype processor =
    Merge_contextvars | Add_log_level | Safe_add_logger_name | Time_stamper | Positional_arguments_formatter
  | Stack_info_renderer | Unicode_decoder | Redact_sensitive_fields | Format_exc_info
  | JSON_renderer | Console_renderer

definition shared_processors :: "processor list" where
  "shared_processors =
     [Merge_contextvars, Add_log_level, Safe_add_logger_name, Time_stamper, Positional_arguments_formatter,
      Stack_info_renderer, Unicode_decoder, Redact_sensitive_fields]"

definition log_renderer :: "bool \<Rightarrow> processor" where
  "log_renderer json_logs = (if json_logs then JSON_renderer else Console_renderer)"

text \<open>The processors \<open>configure_structlog\<close> installs.\<close>

definition configure_structlog :: "bool \<Rightarrow> processor list" where
  "configure_structlog json_logs = shared_processors @ [Format_exc_info, log_renderer json_logs]"

text \<open>The configuration of the standard library's logging; one handler, \<open>console\<close>, on the root logger.\<close>

record logging_config =
  lc_disable_existing_loggers :: bool
  lc_formatter :: string
  lc_processors :: "processor list"
  lc_foreign_pre_chain :: "processor list"
  lc_handler_class :: string
  lc_root_handlers :: "string list"
  lc_root_level :: string

definition get_logging_config :: "bool \<Rightarrow> logging_config" where
  "get_logging_config json_logs =
     \<lparr>lc_disable_existing_loggers = False,
      lc_formatter = (if json_logs then ''json'' else ''console''),
      lc_processors = [Format_exc_info, log_renderer json_logs],
      lc_foreign_pre_chain = shared_processors,
      lc_handler_class = ''logging.StreamHandler'', lc_root_handlers = [''console''], lc_root_level = ''INFO''\<rparr>"

definition reconfigure_logging :: "bool \<Rightarrow> processor list \<times> logging_config" where
  "reconfigure_logging json_logs = (configure_structlog json_logs, get_logging_config json_logs)"

type_synonym log_event = "string \<Rightarrow> log_value option"

fun run_processor ::
  "(processor \<Rightarrow> log_event \<Rightarrow> log_event) \<Rightarrow> log_context \<Rightarrow> string option \<Rightarrow> processor \<Rightarrow> log_event \<Rightarrow> log_event" where
  "run_processor lib ctx logger Merge_contextvars event = (\<lambda>f. map_option Log_text (ctx f)) ++ event"
| "run_processor lib ctx logger Safe_add_logger_name event = safe_add_logger_name logger event"
| "run_processor lib ctx logger Redact_sensitive_fields event = redact_sensitive_fields event"
| "run_processor lib ctx logger p event = lib p event"

definition run_processors ::
  "(processor \<Rightarrow> log_event \<Rightarrow> log_event) \<Rightarrow> log_context \<Rightarrow> string option \<Rightarrow> processor list \<Rightarrow> log_event \<Rightarrow> log_event" where
  "run_processors lib ctx logger ps event = foldl (\<lambda>ev p. run_processor lib ctx logger p ev) event ps"

text \<open>What the renderer is given: by the program's own loggers, and by a logger of the standard library.\<close>

definition own_record ::
  "(processor \<Rightarrow> log_event \<Rightarrow> log_event) \<Rightarrow> log_context \<Rightarrow> string option \<Rightarrow> bool \<Rightarrow> log_event \<Rightarrow> log_event" where
  "own_record lib ctx logger json_logs = run_processors lib ctx logger (butlast (fst (reconfigure_logging json_logs)))"

definition foreign_record ::
  "(processor \<Rightarrow> log_event \<Rightarrow> log_event) \<Rightarrow> log_context \<Rightarrow> string option \<Rightarrow> bool \<Rightarrow> log_event \<Rightarrow> log_event" where
  "foreign_record lib ctx logger json_logs =
     run_processors lib ctx logger
       (lc_foreign_pre_chain (snd (reconfigure_logging json_logs)) @ butlast (lc_processors (snd (reconfigure_logging json_logs))))"

subsection \<open>Error reporting\<close>

record 'f sentry_options =
  sn_dsn :: string
  sn_environment :: string
  sn_release :: "string option"
  sn_traces_sample_rate :: 'f
  sn_send_default_pii :: bool

text \<open>\<open>parse_float\<close> is Python's \<open>float\<close>, an error where it raises. \<open>None\<close>: nothing was initialised.\<close>

definition init_sentry :: "(string \<Rightarrow> exn + 'f) \<Rightarrow> config \<Rightarrow> exn + 'f sentry_options option" where
  "init_sentry parse_float config =
     (let dsn = py_strip (config_str config ''SENTRY_DSN'' [])
      in if dsn = [] then Inr None
         else
           (let environment = str_or (py_strip (config_str config ''SENTRY_ENVIRONMENT'' ''production'')) ''production'';
                release = py_strip (config_str config ''SENTRY_RELEASE'' [])
            in and_then (parse_float (config_str config ''SENTRY_TRACES_SAMPLE_RATE'' ''0.0'')) (\<lambda>rate.
                 Inr (Some \<lparr>sn_dsn = dsn, sn_environment = environment,
                            sn_release = (if release = [] then None else Some release),
                            sn_traces_sample_rate = rate, sn_send_default_pii = False\<rparr>))))"

text \<open>\<open>CommonConfig.ready\<close>: logging first, then error reporting.\<close>

definition CommonConfig_ready ::
  "(string \<Rightarrow> exn + 'f) \<Rightarrow> config \<Rightarrow> settings \<Rightarrow> (processor list \<times> logging_config) \<times> (exn + 'f sentry_options option)" where
  "CommonConfig_ready parse_float config st = (reconfigure_logging (STRUCTLOG_JSON st), init_sentry parse_float config)"

subsection \<open>The command check\_redis\<close>

text \<open>Each cache operation may raise, with a text; the result is the exit code and the line written.\<close>

definition check_redis_handle ::
  "(string \<Rightarrow> string \<Rightarrow> int \<Rightarrow> string + unit) \<Rightarrow> (string \<Rightarrow> string + string option) \<Rightarrow> (string \<Rightarrow> string + unit) \<Rightarrow> nat \<times> string" where
  "check_redis_handle put fetch remove =
     (let key = ''mgmt:redis_ping''
      in case put key ''pong'' 10 of
           Inl exc \<Rightarrow> (1, ''Redis check failed: '' @ exc)
         | Inr _ \<Rightarrow>
             (case fetch key of
                Inl exc \<Rightarrow> (1, ''Redis check failed: '' @ exc)
              | Inr value \<Rightarrow>
                  (case remove key of
                     Inl exc \<Rightarrow> (1, ''Redis check failed: '' @ exc)
                   | Inr _ \<Rightarrow>
                       if value \<noteq> Some ''pong'' then (1, ''Redis read/write mismatch.'')
                       else (0, ''Redis OK (cache backend reachable).''))))"

subsection \<open>The command sync\_beat\_schedule\<close>

record crontab_schedule =
  ct_id :: nat
  ct_minute :: string
  ct_hour :: string
  ct_day_of_week :: string
  ct_day_of_month :: string
  ct_month_of_year :: string
  ct_timezone :: string

record periodic_task =
  pt_name :: string
  pt_task :: string
  pt_crontab :: "nat option"
  pt_interval :: "nat option"
  pt_enabled :: bool
  pt_description :: string

text \<open>\<open>valid\<close> is the scheduler library's check when a task is saved; \<open>new_id\<close> the key of a new crontab row.\<close>

definition daily_crontab :: "nat \<Rightarrow> string \<Rightarrow> crontab_schedule" where
  "daily_crontab new_id tz = \<lparr>ct_id = new_id, ct_minute = ''0'', ct_hour = ''3'', ct_day_of_week = ''*'',
     ct_day_of_month = ''*'', ct_month_of_year = ''*'', ct_timezone = tz\<rparr>"

definition same_crontab :: "crontab_schedule \<Rightarrow> crontab_schedule \<Rightarrow> bool" where
  "same_crontab a b \<longleftrightarrow> a\<lparr>ct_id := ct_id b\<rparr> = b"

definition CLEANUP_NAME :: string where "CLEANUP_NAME = ''cleanup-expired-tokens-daily''"

definition CLEANUP_TASK :: string where "CLEANUP_TASK = ''apps.authentication.tasks.cleanup_expired_tokens''"

definition with_crontab :: "nat \<Rightarrow> periodic_task \<Rightarrow> periodic_task" where
  "with_crontab schedule t = t\<lparr>pt_task := CLEANUP_TASK, pt_crontab := Some schedule, pt_enabled := True,
     pt_description := ''Flush expired JWT blacklist tokens (daily 03:00 UTC)''\<rparr>"

definition sync_beat_schedule ::
  "(periodic_task \<Rightarrow> bool) \<Rightarrow> nat \<Rightarrow> string \<Rightarrow> crontab_schedule list \<times> periodic_task list \<Rightarrow>
   (exn + string) \<times> (crontab_schedule list \<times> periodic_task list)" where
  "sync_beat_schedule valid new_id tz st =
     (case get_or_create (same_crontab (daily_crontab new_id tz)) (daily_crontab new_id tz) (fst st) of
        (Inl e, _) \<Rightarrow> (Inl e, st)
      | (Inr (schedule, _), crontabs) \<Rightarrow>
          (case qs_get (\<lambda>t. pt_name t = CLEANUP_NAME) (snd st) of
             Inr t \<Rightarrow>
               (let t' = with_crontab (ct_id schedule) t
                in if \<not> valid t' then (Inl (DjangoValidationError []), (crontabs, snd st))
                   else (Inr (''Updated periodic task: '' @ CLEANUP_NAME),
                         (crontabs, qs_update (\<lambda>x. pt_name x = CLEANUP_NAME) (\<lambda>_. t') (snd st))))
           | Inl e \<Rightarrow>
               if e \<noteq> DoesNotExist then (Inl e, (crontabs, snd st))
               else
                 (let t' = with_crontab (ct_id schedule) \<lparr>pt_name = CLEANUP_NAME, pt_task = [], pt_crontab = None,
                             pt_interval = None, pt_enabled = True, pt_description = []\<rparr>
                  in if \<not> valid t' then (Inl (DjangoValidationError []), (crontabs, snd st))
                     else (Inr (''Created periodic task: '' @ CLEANUP_NAME), (crontabs, snd st @ [t'])))))"

subsection \<open>Lemmas\<close>

lemma redact_at:
  "redact_sensitive_fields event f = (if f \<in> set SENSITIVE_FIELDS \<and> event f \<noteq> None then Some (Log_text REDACTED) else event f)"
  by (simp add: redact_sensitive_fields_def redact_fold)

text \<open>Redaction is the last shared processor, so nothing the others add escapes it.\<close>

lemma shared_redacted:
  assumes "f \<in> set SENSITIVE_FIELDS"
  shows "run_processors lib ctx logger shared_processors event f \<in> {None, Some (Log_text REDACTED)}"
proof -
  have last: "shared_processors = butlast shared_processors @ [Redact_sensitive_fields]" by (simp add: shared_processors_def)
  show ?thesis unfolding run_processors_def by (subst last) (use assms in \<open>simp add: redact_at\<close>)
qed

lemma records_eq:
  "own_record lib ctx logger json event = lib Format_exc_info (run_processors lib ctx logger shared_processors event)"
  "foreign_record lib ctx logger json event = lib Format_exc_info (run_processors lib ctx logger shared_processors event)"
  by (simp_all add: own_record_def foreign_record_def reconfigure_logging_def configure_structlog_def get_logging_config_def
      run_processors_def butlast_append)

text \<open>The crontab row of the command: found, or created; found again.\<close>

definition crontabs_ok :: "crontab_schedule list \<Rightarrow> bool" where
  "crontabs_ok cts \<longleftrightarrow> distinct (map (\<lambda>c. c\<lparr>ct_id := 0\<rparr>) cts)"

lemma same_crontab_key: "same_crontab (daily_crontab n tz) c \<longleftrightarrow> c\<lparr>ct_id := 0\<rparr> = daily_crontab 0 tz"
  by (cases c) (auto simp: same_crontab_def daily_crontab_def)

lemma crontab_get:
  assumes "crontabs_ok cts"
  obtains c b cts' where "get_or_create (same_crontab (daily_crontab n tz)) (daily_crontab n tz) cts = (Inr (c, b), cts')"
    and "c \<in> set cts'" and "c\<lparr>ct_id := 0\<rparr> = daily_crontab 0 tz" and "set cts \<subseteq> set cts'"
    and "\<And>m. get_or_create (same_crontab (daily_crontab m tz)) (daily_crontab m tz) cts' = (Inr (c, False), cts')"
proof -
  let ?key = "\<lambda>c. c\<lparr>ct_id := 0\<rparr>" and ?d = "daily_crontab 0 tz"
  have eq: "same_crontab (daily_crontab m tz) = (\<lambda>c. ?key c = ?d)" for m by (simp add: fun_eq_iff same_crontab_key)
  have dist: "distinct (map ?key cts)" using assms by (simp add: crontabs_ok_def)
  from dist show thesis
  proof (cases rule: qs_get_key_cases [where k = ?d])
    case None
    let ?new = "daily_crontab n tz"
    have new: "?key ?new = ?d" by (simp add: daily_crontab_def)
    from None(2) have "filter (\<lambda>c. ?key c = ?d) cts = []" unfolding filter_empty_conv by (metis imageI)
    with new have "qs_get (\<lambda>c. ?key c = ?d) (cts @ [?new]) = Inr ?new" by (simp add: qs_get_def)
    with None(1) new show ?thesis by (intro that [of ?new True "cts @ [?new]"]) (auto simp: get_or_create_def eq)
  next
    case (One r)
    then show ?thesis by (intro that [of r False cts]) (auto simp: get_or_create_def eq)
  qed
qed

lemma with_crontab_simps [simp]:
  "pt_name (with_crontab n t) = pt_name t" "pt_interval (with_crontab n t) = pt_interval t"
  "pt_crontab (with_crontab n t) = Some n" "with_crontab n (with_crontab n t) = with_crontab n t"
  by (simp_all add: with_crontab_def)

subsection \<open>Properties\<close>

text \<open>C38. No sensitive field reaches a log renderer with its value: for the program's loggers and the standard
  library's, in the JSON and the console format, every sensitive field of the record given to the renderer is
  absent or redacted, wherever it came from (the call, the context, an earlier processor). The
  processor after the redaction is assumed to leave the sensitive fields alone.\<close>

theorem logs_redacted:
  assumes "\<And>event f. f \<in> set SENSITIVE_FIELDS \<Longrightarrow> lib Format_exc_info event f = event f" and "f \<in> set SENSITIVE_FIELDS"
  shows "own_record lib ctx logger json event f \<in> {None, Some (Log_text REDACTED)} \<and>
    foreign_record lib ctx logger json event f \<in> {None, Some (Log_text REDACTED)}"
  using shared_redacted [OF assms(2)] unfolding records_eq assms(1) [OF assms(2)] by blast

theorem logs_redacted_witness:
  "own_record (\<lambda>_ event. event) [''token'' \<mapsto> ''abc''] None True Map.empty ''token'' \<in> {None, Some (Log_text REDACTED)}"
proof -
  have "''token'' \<in> set SENSITIVE_FIELDS" by (simp add: SENSITIVE_FIELDS_def)
  from logs_redacted [of "\<lambda>_ event. event", OF refl this] show ?thesis by blast
qed

text \<open>The rule of the scheduler library for a periodic task: exactly one of its schedules is set.\<close>

definition one_schedule :: "periodic_task \<Rightarrow> bool" where
  "one_schedule t \<longleftrightarrow> (pt_crontab t = None) \<noteq> (pt_interval t = None)"

lemma filter_qs_update_name:
  "pt_name t' = k \<Longrightarrow> filter (\<lambda>t. pt_name t \<noteq> k) (qs_update (\<lambda>t. pt_name t = k) (\<lambda>_. t') ts) = filter (\<lambda>t. pt_name t \<noteq> k) ts"
  by (induction ts) (auto simp: qs_update_def)

lemma sync_again:
  assumes "get_or_create (same_crontab (daily_crontab m tz)) (daily_crontab m tz) cts = (Inr (c, False), cts)"
    and "distinct (map pt_name tasks)" and "t \<in> set tasks" and "pt_name t = CLEANUP_NAME"
    and "with_crontab (ct_id c) t = t" and "pt_interval t = None"
  shows "sync_beat_schedule one_schedule m tz (cts, tasks) = (Inr (''Updated periodic task: '' @ CLEANUP_NAME), (cts, tasks))"
proof -
  have get: "qs_get (\<lambda>x. pt_name x = CLEANUP_NAME) tasks = Inr t"
    using qs_get_key [OF assms(2,3)] assms(4) by simp
  have "x = t" if "x \<in> set tasks" "pt_name x = CLEANUP_NAME" for x
    using that assms(2-4) by (metis distinct_map inj_onD)
  then have "qs_update (\<lambda>x. pt_name x = CLEANUP_NAME) (\<lambda>_. t) tasks = tasks" by (auto simp: qs_update_def map_idI)
  moreover have "one_schedule t" using assms(5,6) by (metis one_schedule_def option.distinct(1) with_crontab_simps(3))
  ultimately show ?thesis using get assms(1,5) by (simp add: sync_beat_schedule_def Let_def)
qed

text \<open>The command that registers the clean-up task fails exactly when a task of that name has an interval, as
  the schedule of the settings gives it (every 24 hours); then no task changes. Otherwise the task of that name
  is enabled and runs the clean-up daily at 03:00 in the time zone of the settings, the others are untouched,
  and running the command again changes nothing.\<close>

theorem beat_sync_correct:
  assumes crontabs: "crontabs_ok (fst st)" and names: "distinct (map pt_name (snd st))" and valid: "valid = one_schedule"
    and run: "sync_beat_schedule valid n tz st = (r, st')"
  shows "if \<exists>t\<in>set (snd st). pt_name t = CLEANUP_NAME \<and> pt_interval t \<noteq> None
    then r = Inl (DjangoValidationError []) \<and> snd st' = snd st
    else (\<exists>c t. c \<in> set (fst st') \<and> c\<lparr>ct_id := 0\<rparr> = daily_crontab 0 tz \<and> t \<in> set (snd st') \<and> pt_name t = CLEANUP_NAME \<and>
        pt_task t = CLEANUP_TASK \<and> pt_crontab t = Some (ct_id c) \<and> pt_interval t = None \<and> pt_enabled t) \<and>
      filter (\<lambda>t. pt_name t \<noteq> CLEANUP_NAME) (snd st') = filter (\<lambda>t. pt_name t \<noteq> CLEANUP_NAME) (snd st) \<and>
      sync_beat_schedule valid m tz st' = (Inr (''Updated periodic task: '' @ CLEANUP_NAME), st')"
proof -
  obtain c b cts' where c: "get_or_create (same_crontab (daily_crontab n tz)) (daily_crontab n tz) (fst st) = (Inr (c, b), cts')"
    "c \<in> set cts'" "c\<lparr>ct_id := 0\<rparr> = daily_crontab 0 tz"
    and again: "\<And>m. get_or_create (same_crontab (daily_crontab m tz)) (daily_crontab m tz) cts' = (Inr (c, False), cts')"
    using crontab_get [OF crontabs] by metis
  let ?P = "\<lambda>t. pt_name t = CLEANUP_NAME" and ?up = "with_crontab (ct_id c)"
  from names show ?thesis
  proof (cases rule: qs_get_key_cases [where k = CLEANUP_NAME])
    case None
    let ?new = "?up \<lparr>pt_name = CLEANUP_NAME, pt_task = [], pt_crontab = None, pt_interval = None, pt_enabled = True, pt_description = []\<rparr>"
    have absent: "\<forall>t\<in>set (snd st). pt_name t \<noteq> CLEANUP_NAME" using None(2) by (metis imageI)
    then have st': "st' = (cts', snd st @ [?new])"
      using run c None by (auto simp: sync_beat_schedule_def valid one_schedule_def)
    have "distinct (map pt_name (snd st @ [?new]))" using names None(2) by simp
    from sync_again [OF again this, of ?new m] have
      "sync_beat_schedule valid m tz st' = (Inr (''Updated periodic task: '' @ CLEANUP_NAME), st')" by (simp add: st' valid)
    moreover have "\<exists>c t. c \<in> set (fst st') \<and> c\<lparr>ct_id := 0\<rparr> = daily_crontab 0 tz \<and> t \<in> set (snd st') \<and>
        pt_name t = CLEANUP_NAME \<and> pt_task t = CLEANUP_TASK \<and> pt_crontab t = Some (ct_id c) \<and> pt_interval t = None \<and> pt_enabled t"
      using c by (intro exI [of _ c] exI [of _ ?new]) (simp add: st' with_crontab_def)
    moreover have "\<not> (\<exists>t\<in>set (snd st). pt_name t = CLEANUP_NAME \<and> pt_interval t \<noteq> None)" using absent by blast
    ultimately show ?thesis by (simp add: st')
  next
    case (One t)
    then have only: "x = t" if "x \<in> set (snd st)" "pt_name x = CLEANUP_NAME" for x
      using that names by (metis distinct_map inj_onD)
    show ?thesis
    proof (cases "pt_interval t")
      case None
      then have st': "st' = (cts', qs_update ?P (\<lambda>_. ?up t) (snd st))"
        using run c One by (auto simp: sync_beat_schedule_def valid one_schedule_def Let_def)
      have "map pt_name (snd st') = map pt_name (snd st)" using One(3) by (auto simp: st' qs_update_def)
      then have dist: "distinct (map pt_name (snd st'))" using names by simp
      have mem: "?up t \<in> set (snd st')" using One by (auto simp: st')
      have "sync_beat_schedule valid m tz st' = (Inr (''Updated periodic task: '' @ CLEANUP_NAME), st')"
        using sync_again [OF again dist mem] One(3) None by (simp add: st' valid)
      moreover have "filter (\<lambda>t. pt_name t \<noteq> CLEANUP_NAME) (snd st') = filter (\<lambda>t. pt_name t \<noteq> CLEANUP_NAME) (snd st)"
        by (simp add: st' filter_qs_update_name One(3))
      moreover have "\<exists>c t. c \<in> set (fst st') \<and> c\<lparr>ct_id := 0\<rparr> = daily_crontab 0 tz \<and> t \<in> set (snd st') \<and>
          pt_name t = CLEANUP_NAME \<and> pt_task t = CLEANUP_TASK \<and> pt_crontab t = Some (ct_id c) \<and> pt_interval t = None \<and> pt_enabled t"
        using c mem One(3) None by (intro exI [of _ c] exI [of _ "?up t"]) (auto simp: st' with_crontab_def)
      moreover have "\<not> (\<exists>t\<in>set (snd st). pt_name t = CLEANUP_NAME \<and> pt_interval t \<noteq> None)" using only None by auto
      ultimately show ?thesis by presburger
    next
      case (Some i)
      with run c One have "r = Inl (DjangoValidationError []) \<and> snd st' = snd st"
        by (auto simp: sync_beat_schedule_def valid one_schedule_def Let_def)
      with Some One show ?thesis by auto
    qed
  qed
qed

definition interval_row :: periodic_task where
  "interval_row = \<lparr>pt_name = CLEANUP_NAME, pt_task = CLEANUP_TASK, pt_crontab = None, pt_interval = Some 1,
     pt_enabled = True, pt_description = []\<rparr>"

theorem beat_sync_correct_witness:
  "fst (sync_beat_schedule one_schedule 1 ''UTC'' ([], [interval_row])) = Inl (DjangoValidationError []) \<and>
   (\<exists>msg. fst (sync_beat_schedule one_schedule 1 ''UTC'' ([], [])) = Inr msg)"
proof -
  obtain r st' where run: "sync_beat_schedule one_schedule 1 ''UTC'' ([], [interval_row]) = (r, st')" by (metis prod.exhaust)
  have "crontabs_ok (fst ([], [interval_row]))" "distinct (map pt_name (snd ([] :: crontab_schedule list, [interval_row])))"
    by (simp_all add: crontabs_ok_def)
  from beat_sync_correct [OF this refl run] have "r = Inl (DjangoValidationError [])" by (simp add: interval_row_def)
  moreover have "\<exists>msg. fst (sync_beat_schedule one_schedule 1 ''UTC'' ([], [])) = Inr msg"
    by (simp add: sync_beat_schedule_def get_or_create_def qs_get_def one_schedule_def)
  ultimately show ?thesis using run by simp
qed

end
