(* ===== verification/Asgi.thy ===== *)
theory Asgi
  imports Socket_Auth
begin

text \<open>
  \<open>config/asgi.py\<close> and \<open>apps/notifications/routing.py\<close>: where a connection goes. The check of the origin against
  \<open>ALLOWED_HOSTS\<close> is the library's, the parameter \<open>origin_ok\<close>; the choice by protocol and the lookup of the
  path are written out as the library documents them.
\<close>

subsection \<open>Connections\<close>

datatype connection_result = Origin_denied | Consumer accept_result

text \<open>The one pattern of the list is anchored at both ends, so it matches exactly its text.\<close>

definition websocket_urlpatterns :: "string list" where
  "websocket_urlpatterns = [''ws/notifications/'']"

definition URLRouter :: "string \<Rightarrow> 'a \<Rightarrow> exn + 'a" where
  "URLRouter path consumer =
     (let p = dropWhile (\<lambda>c. c = CHR ''/'') path
      in if p \<in> set websocket_urlpatterns then Inr consumer
         else Inl (PyValueError (''No route found for path '' @ p)))"

definition websocket_application ::
  "((string \<times> string) list \<Rightarrow> bool) \<Rightarrow> (string \<Rightarrow> string) \<Rightarrow> (string \<Rightarrow> pk option option) \<Rightarrow>
   (string \<Rightarrow> string \<Rightarrow> 'l \<Rightarrow> 'l) \<Rightarrow> string \<Rightarrow> string \<Rightarrow> (string \<times> string) list \<Rightarrow> string \<Rightarrow> db \<Rightarrow> 'l hub \<Rightarrow>
   exn + (connection_result \<times> 'l hub)" where
  "websocket_application origin_ok unquote token_claims gadd channel path headers query_string s h =
     (if \<not> origin_ok headers then Inr (Origin_denied, h)
      else case JWTAuthMiddleware_call unquote token_claims (\<lambda>u. URLRouter path (consumer_connect gadd channel u h))
                  headers query_string s of
             Inl e \<Rightarrow> Inl e
           | Inr (Inl e) \<Rightarrow> Inl e
           | Inr (Inr (r, h')) \<Rightarrow> Inr (Consumer r, h'))"

definition asgi_application :: "(exn + 'a) \<Rightarrow> (exn + 'a) \<Rightarrow> string \<Rightarrow> exn + 'a" where
  "asgi_application http websocket scope_type =
     (case map_of [(''http'', http), (''websocket'', websocket)] scope_type of
        Some r \<Rightarrow> r
      | None \<Rightarrow> Inl (PyValueError (''No application configured for scope type '' @ scope_type)))"

subsection \<open>Properties\<close>

lemma websocket_is_connect:
  assumes "origin_ok headers" and "dropWhile (\<lambda>c. c = CHR ''/'') path = ''ws/notifications/''"
  shows "websocket_application origin_ok unq token_claims gadd channel path headers query s h =
    (case connect_socket unq token_claims gadd channel headers query s h of
       Inl e \<Rightarrow> Inl e | Inr (r, h') \<Rightarrow> Inr (Consumer r, h'))"
  using assms by (auto simp: websocket_application_def connect_socket_def JWTAuthMiddleware_call_def URLRouter_def
      websocket_urlpatterns_def split: sum.splits prod.splits)

text \<open>The hub changes only for an accepted socket: one whose origin is allowed, on the path of the
  notifications, with a token of an existing user, and then it joins that user's group.\<close>

theorem hub_changes_only_when_accepted:
  assumes "websocket_application origin_ok unq token_claims gadd channel path headers query s h = Inr (r, h')"
    and "h' \<noteq> h"
  shows "r = Consumer Accepted \<and> origin_ok headers \<and>
    dropWhile (\<lambda>c. c = CHR ''/'') path = ''ws/notifications/'' \<and>
    (\<exists>t p. socket_token unq headers query = Some t \<and> token_claims t = Some (Some p) \<and>
       p \<in> us_pk ` set (users s) \<and>
       h' = h\<lparr>sockets := (sockets h)(channel \<mapsto> notification_group p),
              channel_layer := gadd (notification_group p) channel (channel_layer h)\<rparr>)"
proof -
  have origin: "origin_ok headers" using assms by (auto simp: websocket_application_def split: if_splits)
  then obtain x where auth: "JWTAuthMiddleware_call unq token_claims
      (\<lambda>u. URLRouter path (consumer_connect gadd channel u h)) headers query s = Inr (Inr (x, h'))"
    and r: "r = Consumer x"
    using assms(1) by (auto simp: websocket_application_def split: sum.splits prod.splits)
  then obtain u where router: "URLRouter path (consumer_connect gadd channel u h) = Inr (x, h')"
    and who: "(case socket_token unq headers query of None \<Rightarrow> Inr None
       | Some t \<Rightarrow> if t = [] then Inr None else get_user_from_token token_claims t s) = Inr u"
    unfolding JWTAuthMiddleware_call_def by (auto split: sum.splits)
  then have path: "dropWhile (\<lambda>c. c = CHR ''/'') path = ''ws/notifications/''"
    and run: "consumer_connect gadd channel u h = (x, h')"
    by (auto simp: URLRouter_def websocket_urlpatterns_def Let_def split: if_splits)
  obtain v where v: "u = Some v" using run assms(2) by (cases u) (auto simp: consumer_connect_def)
  then obtain t where tok: "socket_token unq headers query = Some t" "get_user_from_token token_claims t s = Inr (Some v)"
    using who by (auto split: option.splits if_splits)
  then obtain p where p: "token_claims t = Some (Some p)" "qs_get (\<lambda>u. us_pk u = p) (users s) = Inr v"
    by (auto simp: get_user_from_token_def split: option.splits sum.splits if_splits)
  then have "us_pk v = p" "v \<in> set (users s)" by (auto dest!: qs_get_Inr)
  with run v tok p r origin path show ?thesis by (auto simp: consumer_connect_def Let_def)
qed

theorem hub_changes_only_when_accepted_witness:
  "\<exists>h'. websocket_application (\<lambda>_. True) id (\<lambda>t. if t = ''jwt'' then Some (Some 2) else None) (\<lambda>g c. insert (g, c)) ''c1''
     ''/ws/notifications/'' [(''authorization'', ''Bearer jwt'')] [] demo_db \<lparr>sockets = Map.empty, channel_layer = {}\<rparr> =
       Inr (Consumer Accepted, h') \<and>
     2 \<in> us_pk ` set (users demo_db)"
proof -
  let ?h = "\<lparr>sockets = Map.empty, channel_layer = {}\<rparr>"
  let ?run = "websocket_application (\<lambda>_. True) id (\<lambda>t. if t = ''jwt'' then Some (Some 2) else None) (\<lambda>g c. insert (g, c)) ''c1''
     ''/ws/notifications/'' [(''authorization'', ''Bearer jwt'')] [] demo_db ?h"
  let ?h' = "\<lparr>sockets = [''c1'' \<mapsto> notification_group 2], channel_layer = {(notification_group 2, ''c1'')}\<rparr>"
  have tok: "socket_token id [(''authorization'', ''Bearer jwt'')] [] = Some ''jwt''" by code_simp
  have "qs_get (\<lambda>u. us_pk u = 2) (users demo_db) = Inr bob" by code_simp
  then have run: "?run = Inr (Consumer Accepted, ?h')"
    using tok by (simp add: websocket_application_def JWTAuthMiddleware_call_def get_user_from_token_def URLRouter_def
        websocket_urlpatterns_def consumer_connect_def Let_def)
  moreover have "?h' \<noteq> ?h" by simp
  ultimately show ?thesis
    using hub_changes_only_when_accepted [OF run] by (auto split: if_splits)
qed

end
