(* ===== verification/Routing.thy ===== *)
theory Routing
  imports System
begin

text \<open>
  The URL configuration: \<open>config/urls.py\<close> and the \<open>urls.py\<close> of the applications, with the framework's resolution
  of a path as documented (the patterns in order, the first that matches the whole path wins, an include
  matches a prefix) and the methods the view classes define: the framework runs \<open>get\<close> for \<open>HEAD\<close> and answers
  \<open>OPTIONS\<close> with the metadata of the view. The site of the administration is the parameter \<open>admin_urls\<close>.
\<close>

subsection \<open>Patterns\<close>

text \<open>A piece of a route: fixed text, \<open><str:name>\<close>, \<open><uuid:name>\<close>.\<close>

datatype segment = Lit string | Str string | Uuid string

datatype url_pattern = Path "segment list" string | Include "segment list" "url_pattern list"

type_synonym kwargs = "(string \<times> string) list"

fun strip_prefix :: "string \<Rightarrow> string \<Rightarrow> string option" where
  "strip_prefix [] s = Some s"
| "strip_prefix (p # ps) [] = None"
| "strip_prefix (p # ps) (c # cs) = (if p = c then strip_prefix ps cs else None)"

definition lower_hex :: "char \<Rightarrow> bool" where
  "lower_hex c = (let n = (of_char c :: nat) in (48 \<le> n \<and> n \<le> 57) \<or> (97 \<le> n \<and> n \<le> 102))"

definition uuid_text :: "string \<Rightarrow> bool" where
  "uuid_text s \<longleftrightarrow> length s = 36 \<and>
     list_all (\<lambda>i. if i \<in> {8, 13, 18, 23} then s ! i = CHR ''-'' else lower_hex (s ! i)) [0..<36]"

fun match_route :: "segment list \<Rightarrow> string \<Rightarrow> (kwargs \<times> string) option" where
  "match_route [] s = Some ([], s)"
| "match_route (Lit l # r) s = (case strip_prefix l s of None \<Rightarrow> None | Some rest \<Rightarrow> match_route r rest)"
| "match_route (Str name # r) s =
     (let v = takeWhile (\<lambda>c. c \<noteq> CHR ''/'') s
      in if v = [] then None
         else map_option (\<lambda>(kw, rest). ((name, v) # kw, rest)) (match_route r (drop (length v) s)))"
| "match_route (Uuid name # r) s =
     (if uuid_text (take 36 s)
      then map_option (\<lambda>(kw, rest). ((name, take 36 s) # kw, rest)) (match_route r (drop 36 s)) else None)"

fun resolve :: "url_pattern list \<Rightarrow> string \<Rightarrow> (string \<times> kwargs) option" where
  "resolve [] p = None"
| "resolve (Path r name # ps) p =
     (case match_route r p of Some (kw, []) \<Rightarrow> Some (name, kw) | _ \<Rightarrow> resolve ps p)"
| "resolve (Include r sub # ps) p =
     (case match_route r p of
        Some (kw, rest) \<Rightarrow>
          (case resolve sub rest of Some (name, kw') \<Rightarrow> Some (name, kw @ kw') | None \<Rightarrow> resolve ps p)
      | None \<Rightarrow> resolve ps p)"

subsection \<open>The project's URLs\<close>

definition auth_urls :: "url_pattern list" where
  "auth_urls =
     [Path [Lit ''token/''] ''token_obtain_pair'', Path [Lit ''token/refresh/''] ''token_refresh'',
      Path [Lit ''token/blacklist/''] ''token_blacklist'', Path [Lit ''register/''] ''auth_register'',
      Path [Lit ''password/reset/''] ''password_reset_request'',
      Path [Lit ''password/reset/confirm/''] ''password_reset_confirm'', Path [Lit ''social/''] ''social_auth'',
      Path [Lit ''2fa/setup/''] ''2fa_setup'', Path [Lit ''2fa/enable/''] ''2fa_enable'',
      Path [Lit ''2fa/disable/''] ''2fa_disable'', Path [Lit ''2fa/complete/''] ''2fa_complete'']"

definition users_urls :: "url_pattern list" where
  "users_urls =
     [Path [] ''user-list'', Path [Lit ''list/''] ''user-list-alt'', Path [Lit ''create/''] ''user-create'',
      Path [Lit ''me/''] ''user-me'', Path [Lit ''me/profile/''] ''user-profile'']"

definition rbac_urls :: "url_pattern list" where
  "rbac_urls =
     [Path [Uuid ''tenant_id'', Lit ''/roles/''] ''rbac-role-list'',
      Path [Uuid ''tenant_id'', Lit ''/roles/assign/''] ''rbac-role-assign'',
      Path [Uuid ''tenant_id'', Lit ''/roles/revoke/''] ''rbac-role-revoke'']"

definition notifications_urls :: "url_pattern list" where
  "notifications_urls =
     [Path [] ''notification-list'', Path [Uuid ''pk'', Lit ''/read/''] ''notification-mark-read'']"

definition billing_urls :: "url_pattern list" where
  "billing_urls = [Path [Lit ''webhook/''] ''stripe-webhook'']"

definition audit_urls :: "url_pattern list" where
  "audit_urls = [Path [] ''audit-log-list'']"

definition invitations_urls :: "url_pattern list" where
  "invitations_urls =
     [Path [] ''invitation-list-create'', Path [Str ''token'', Lit ''/''] ''invitation-detail'',
      Path [Str ''token'', Lit ''/accept/''] ''invitation-accept'',
      Path [Uuid ''invitation_id'', Lit ''/revoke/''] ''invitation-revoke'']"

definition features_urls :: "url_pattern list" where
  "features_urls =
     [Path [] ''feature-flags-list'', Path [Str ''flag_name'', Lit ''/''] ''feature-flag-detail'']"

definition tenants_urls :: "url_pattern list" where "tenants_urls = []"

definition common_urls :: "url_pattern list" where "common_urls = []"

definition urlpatterns :: "url_pattern list \<Rightarrow> url_pattern list" where
  "urlpatterns admin_urls =
     [Include [Lit ''admin/''] admin_urls, Path [Lit ''health/''] ''health-check'', Path [Lit ''ready/''] ''readiness-check'',
      Include [Lit ''api/v1/auth/''] auth_urls, Include [Lit ''api/v1/users/''] users_urls,
      Include [Lit ''api/v1/tenants/''] tenants_urls, Include [Lit ''api/v1/rbac/''] rbac_urls,
      Include [Lit ''api/v1/notifications/''] notifications_urls, Include [Lit ''api/v1/billing/''] billing_urls,
      Include [Lit ''api/v1/audit-logs/''] audit_urls, Include [Lit ''api/v1/invitations/''] invitations_urls,
      Include [Lit ''api/v1/features/''] features_urls, Include [Lit ''api/v1/''] common_urls,
      Path [Lit ''api/schema/''] ''schema'', Path [Lit ''api/docs/''] ''swagger-ui'', Path [Lit ''api/redoc/''] ''redoc'']"

text \<open>The methods the view behind each name defines; the two views of the token library take \<open>POST\<close>.\<close>

definition view_methods :: "(string \<times> string list) list" where
  "view_methods =
     [(''token_obtain_pair'', [''POST'']), (''token_refresh'', [''POST'']), (''token_blacklist'', [''POST'']),
      (''auth_register'', [''POST'']), (''password_reset_request'', [''POST'']), (''password_reset_confirm'', [''POST'']),
      (''social_auth'', [''POST'']), (''2fa_setup'', [''GET'']), (''2fa_enable'', [''POST'']), (''2fa_disable'', [''POST'']),
      (''2fa_complete'', [''POST'']), (''user-list'', [''GET'']), (''user-list-alt'', [''GET'']), (''user-create'', [''POST'']),
      (''user-me'', [''GET'']), (''user-profile'', [''GET'', ''PATCH'', ''PUT'', ''DELETE'']), (''rbac-role-list'', [''GET'']),
      (''rbac-role-assign'', [''POST'']), (''rbac-role-revoke'', [''POST'']), (''notification-list'', [''GET'']),
      (''notification-mark-read'', [''PATCH'']), (''stripe-webhook'', [''POST'']), (''audit-log-list'', [''GET'']),
      (''invitation-list-create'', [''GET'', ''POST'']), (''invitation-detail'', [''GET'']), (''invitation-accept'', [''POST'']),
      (''invitation-revoke'', [''DELETE'']), (''feature-flags-list'', [''GET'']), (''feature-flag-detail'', [''GET'']),
      (''health-check'', [''GET'']), (''readiness-check'', [''GET''])]"

datatype dispatched = Not_found | Method_not_allowed | Metadata | View string kwargs

definition served_method :: "string \<Rightarrow> string" where
  "served_method m = (if m = ''HEAD'' then ''GET'' else m)"

definition dispatch :: "url_pattern list \<Rightarrow> string \<Rightarrow> string \<Rightarrow> dispatched" where
  "dispatch admin_urls method path =
     (case Option.bind (strip_prefix ''/'' path) (resolve (urlpatterns admin_urls)) of
        None \<Rightarrow> Not_found
      | Some (name, kw) \<Rightarrow>
          (case map_of view_methods name of
             Some methods \<Rightarrow>
               if method = ''OPTIONS'' then Metadata
               else if served_method method \<in> set methods then View name kw else Method_not_allowed
           | None \<Rightarrow> View name kw))"

subsection \<open>The endpoints of the machine\<close>

text \<open>The view, the path parameters and the methods of each endpoint of \<open>System\<close>.\<close>

fun view_name :: "endpoint \<Rightarrow> string" where
  "view_name (Token_obtain _ _) = ''token_obtain_pair''"
| "view_name (Two_factor_complete _ _) = ''2fa_complete''"
| "view_name Two_factor_setup = ''2fa_setup''"
| "view_name (Two_factor_enable _) = ''2fa_enable''"
| "view_name (Two_factor_disable _) = ''2fa_disable''"
| "view_name (Auth_register _) = ''auth_register''"
| "view_name (Password_reset _) = ''password_reset_request''"
| "view_name (Password_reset_confirm _ _ _) = ''password_reset_confirm''"
| "view_name (Social_auth _ _) = ''social_auth''"
| "view_name User_list = ''user-list''"
| "view_name (User_create _) = ''user-create''"
| "view_name User_me = ''user-me''"
| "view_name Profile_get = ''user-profile''"
| "view_name (Profile_update _) = ''user-profile''"
| "view_name Profile_delete = ''user-profile''"
| "view_name (Role_list _) = ''rbac-role-list''"
| "view_name (Role_assign _ _ _) = ''rbac-role-assign''"
| "view_name (Role_revoke _ _) = ''rbac-role-revoke''"
| "view_name Invitation_list = ''invitation-list-create''"
| "view_name (Invitation_create _ _) = ''invitation-list-create''"
| "view_name (Invitation_detail _) = ''invitation-detail''"
| "view_name (Invitation_accept _) = ''invitation-accept''"
| "view_name (Invitation_revoke _) = ''invitation-revoke''"
| "view_name (Notification_list _) = ''notification-list''"
| "view_name (Notification_read _) = ''notification-mark-read''"
| "view_name (Stripe_webhook _) = ''stripe-webhook''"
| "view_name (Audit_log_list _ _) = ''audit-log-list''"
| "view_name Feature_flag_list = ''feature-flags-list''"
| "view_name (Feature_flag_detail _) = ''feature-flag-detail''"

fun path_kwargs :: "endpoint \<Rightarrow> kwargs" where
  "path_kwargs (Role_list t) = [(''tenant_id'', t)]"
| "path_kwargs (Role_assign t _ _) = [(''tenant_id'', t)]"
| "path_kwargs (Role_revoke t _) = [(''tenant_id'', t)]"
| "path_kwargs (Invitation_detail token) = [(''token'', token)]"
| "path_kwargs (Invitation_accept token) = [(''token'', token)]"
| "path_kwargs (Invitation_revoke i) = [(''invitation_id'', i)]"
| "path_kwargs (Notification_read i) = [(''pk'', i)]"
| "path_kwargs (Feature_flag_detail f) = [(''flag_name'', f)]"
| "path_kwargs _ = []"

fun http_methods :: "endpoint \<Rightarrow> string list" where
  "http_methods Two_factor_setup = [''GET'']"
| "http_methods User_list = [''GET'']"
| "http_methods User_me = [''GET'']"
| "http_methods Profile_get = [''GET'']"
| "http_methods (Profile_update _) = [''PATCH'', ''PUT'']"
| "http_methods Profile_delete = [''DELETE'']"
| "http_methods (Role_list _) = [''GET'']"
| "http_methods Invitation_list = [''GET'']"
| "http_methods (Invitation_detail _) = [''GET'']"
| "http_methods (Invitation_revoke _) = [''DELETE'']"
| "http_methods (Notification_list _) = [''GET'']"
| "http_methods (Notification_read _) = [''PATCH'']"
| "http_methods (Audit_log_list _ _) = [''GET'']"
| "http_methods Feature_flag_list = [''GET'']"
| "http_methods (Feature_flag_detail _) = [''GET'']"
| "http_methods _ = [''POST'']"

definition plain_segment :: "string \<Rightarrow> bool" where
  "plain_segment s \<longleftrightarrow> s \<noteq> [] \<and> CHR ''/'' \<notin> set s"

fun route_ok :: "endpoint \<Rightarrow> bool" where
  "route_ok (Role_list t) = uuid_text t"
| "route_ok (Role_assign t _ _) = uuid_text t"
| "route_ok (Role_revoke t _) = uuid_text t"
| "route_ok (Invitation_detail token) = plain_segment token"
| "route_ok (Invitation_accept token) = plain_segment token"
| "route_ok (Invitation_revoke i) = uuid_text i"
| "route_ok (Notification_read i) = uuid_text i"
| "route_ok (Feature_flag_detail f) = plain_segment f"
| "route_ok _ = True"

subsection \<open>Lemmas\<close>

lemma strip_prefix_Some: "strip_prefix p s = Some rest \<longleftrightarrow> s = p @ rest"
  by (induction p s rule: strip_prefix.induct) auto

lemma strip_prefix_append [simp]: "strip_prefix p (p @ s) = Some s"
  by (simp add: strip_prefix_Some)

lemma strip_prefix_self [simp]: "strip_prefix p p = Some []"
  by (simp add: strip_prefix_Some)

lemma uuid_length: "uuid_text i \<Longrightarrow> length i = 36"
  by (simp add: uuid_text_def)

lemma match_uuid:
  "uuid_text i \<Longrightarrow> match_route (Uuid n # r) (i @ s) = map_option (\<lambda>(kw, rest). ((n, i) # kw, rest)) (match_route r s)"
  by (simp add: uuid_length)

lemma match_str:
  assumes "plain_segment v"
  shows "match_route (Str n # r) (v @ CHR ''/'' # s) =
    map_option (\<lambda>(kw, rest). ((n, v) # kw, rest)) (match_route r (CHR ''/'' # s))"
proof -
  have "takeWhile (\<lambda>c. c \<noteq> CHR ''/'') (v @ CHR ''/'' # s) = v"
    using assms by (auto simp: plain_segment_def takeWhile_append)
  then show ?thesis using assms by (simp add: plain_segment_def Let_def)
qed

text \<open>The routes of a pattern tree, with every include written out.\<close>

fun flatten :: "url_pattern list \<Rightarrow> (segment list \<times> string) list" where
  "flatten [] = []"
| "flatten (Path r name # ps) = (r, name) # flatten ps"
| "flatten (Include r sub # ps) = map (\<lambda>(r', name). (r @ r', name)) (flatten sub) @ flatten ps"

lemma match_route_append:
  "match_route (r @ r') s =
     (case match_route r s of None \<Rightarrow> None
      | Some (kw, rest) \<Rightarrow> map_option (\<lambda>(kw', rest'). (kw @ kw', rest')) (match_route r' rest))"
proof (induction r s rule: match_route.induct)
  case (1 s)
  then show ?case by (cases "match_route r' s") auto
next
  case (2 l r s)
  then show ?case by (cases "strip_prefix l s") auto
next
  case (3 name r s)
  then show ?case by (auto simp: Let_def option.map_comp comp_def case_prod_unfold split: option.splits)
next
  case (4 name r s)
  then show ?case by (auto simp: option.map_comp comp_def case_prod_unfold split: option.splits)
qed

lemma resolve_flatten:
  "resolve ps p = Some (name, kw) \<Longrightarrow> \<exists>r. (r, name) \<in> set (flatten ps) \<and> match_route r p = Some (kw, [])"
proof (induction ps arbitrary: p kw rule: flatten.induct)
  case 1
  then show ?case by simp
next
  case (2 r n ps)
  show ?case
  proof (cases "match_route r p = Some (kw, []) \<and> n = name")
    case False
    then have "resolve ps p = Some (name, kw)"
      using 2(2) by (auto split: option.splits prod.splits list.splits)
    then show ?thesis using 2(1) by auto
  qed auto
next
  case (3 r sub ps)
  show ?case
  proof (cases "resolve ps p = Some (name, kw)")
    case True
    then obtain r' where "(r', name) \<in> set (flatten ps)" "match_route r' p = Some (kw, [])"
      using 3(2) by blast
    then show ?thesis by (intro exI[of _ r']) simp
  next
    case False
    then obtain kw0 rest kw' where
      m: "match_route r p = Some (kw0, rest)" "resolve sub rest = Some (name, kw')" "kw = kw0 @ kw'"
      using 3(3) by (auto split: option.splits)
    then obtain r' where "(r', name) \<in> set (flatten sub)" "match_route r' rest = Some (kw', [])"
      using 3(1) by blast
    then have "(r @ r', name) \<in> set (flatten (Include r sub # ps))" "match_route (r @ r') p = Some (kw, [])"
      using m by (force, simp add: match_route_append)
    then show ?thesis by blast
  qed
qed

lemma match_nil: "match_route [] s = Some (kw, []) \<longleftrightarrow> s = [] \<and> kw = []"
  by auto

lemma match_lit: "match_route (Lit l # r) s = Some (kw, rest) \<longleftrightarrow> (\<exists>s'. s = l @ s' \<and> match_route r s' = Some (kw, rest))"
  by (auto simp: strip_prefix_Some split: option.splits)

lemma match_uuid_Some:
  "match_route (Uuid n # r) s = Some (kw, rest) \<longleftrightarrow>
     (\<exists>i s' kw'. uuid_text i \<and> s = i @ s' \<and> match_route r s' = Some (kw', rest) \<and> kw = (n, i) # kw')"
proof
  assume "match_route (Uuid n # r) s = Some (kw, rest)"
  then show "\<exists>i s' kw'. uuid_text i \<and> s = i @ s' \<and> match_route r s' = Some (kw', rest) \<and> kw = (n, i) # kw'"
    by (intro exI[of _ "take 36 s"] exI[of _ "drop 36 s"]) (auto split: if_splits)
qed (auto simp: match_uuid simp del: match_route.simps)

lemma match_str_Some:
  "match_route [Str n, Lit (CHR ''/'' # l)] s = Some (kw, rest) \<longleftrightarrow>
     (\<exists>v. plain_segment v \<and> s = v @ CHR ''/'' # l @ rest \<and> kw = [(n, v)])"
proof
  assume m: "match_route [Str n, Lit (CHR ''/'' # l)] s = Some (kw, rest)"
  define v where "v = takeWhile (\<lambda>c. c \<noteq> CHR ''/'') s"
  have "v \<noteq> []" "drop (length v) s = (CHR ''/'' # l) @ rest" "kw = [(n, v)]"
    using m by (auto simp: v_def Let_def strip_prefix_Some split: if_splits option.splits)
  moreover have "s = v @ drop (length v) s"
    unfolding v_def by (metis dropWhile_eq_drop takeWhile_dropWhile_id)
  moreover have "CHR ''/'' \<notin> set v"
    unfolding v_def by (auto dest: set_takeWhileD)
  ultimately show "\<exists>v. plain_segment v \<and> s = v @ CHR ''/'' # l @ rest \<and> kw = [(n, v)]"
    by (auto simp: plain_segment_def)
qed (auto simp: match_str simp del: match_route.simps(3) intro: strip_prefix_append)

lemma uuid_plain:
  assumes "uuid_text i"
  shows "plain_segment i"
proof -
  have "i ! k \<noteq> CHR ''/''" if "k < 36" for k
  proof (cases "k \<in> {8, 13, 18, 23}")
    case True
    then show ?thesis using assms that by (auto simp: uuid_text_def list_all_iff)
  next
    case False
    then have "lower_hex (i ! k)" using assms that by (auto simp: uuid_text_def list_all_iff)
    then show ?thesis by (auto simp: lower_hex_def)
  qed
  then show ?thesis
    using uuid_length[OF assms] by (auto simp: plain_segment_def in_set_conv_nth)
qed

text \<open>The two views of the token library and the second URL of the list of users.\<close>

definition library_view :: "string \<Rightarrow> string \<Rightarrow> string \<Rightarrow> bool" where
  "library_view m q name \<longleftrightarrow>
     (served_method m = ''POST'' \<and> q = ''auth/token/refresh/'' \<and> name = ''token_refresh'') \<or>
     (served_method m = ''POST'' \<and> q = ''auth/token/blacklist/'' \<and> name = ''token_blacklist'') \<or>
     (served_method m = ''GET'' \<and> q = ''users/list/'' \<and> name = ''user-list-alt'')"

lemmas url_defs = urlpatterns_def auth_urls_def users_urls_def rbac_urls_def notifications_urls_def billing_urls_def
  audit_urls_def invitations_urls_def features_urls_def tenants_urls_def common_urls_def

lemma plain_not_empty: "plain_segment v \<Longrightarrow> (case v @ s of [] \<Rightarrow> a | _ # _ \<Rightarrow> b) = b"
  by (cases v) (auto simp: plain_segment_def)

lemma not_options: "served_method m = x \<Longrightarrow> x \<noteq> ''OPTIONS'' \<Longrightarrow> m \<noteq> ''OPTIONS''"
  by (auto simp: served_method_def split: if_splits)

lemma endpoint_dispatched:
  "route_ok ep \<Longrightarrow> served_method m \<in> set (http_methods ep) \<Longrightarrow>
     dispatch admin_urls m (route ep) = View (view_name ep) (path_kwargs ep)"
  by (cases ep) (auto simp: dispatch_def not_options url_defs view_methods_def match_uuid match_str plain_not_empty uuid_plain
      simp del: match_route.simps(3,4))

text \<open>An endpoint for a view name, a method and the path parameters.\<close>

definition endpoint_of :: "string \<Rightarrow> string \<Rightarrow> kwargs \<Rightarrow> endpoint" where
  "endpoint_of name m kw = (let v = (case kw of [] \<Rightarrow> [] | (_, v) # _ \<Rightarrow> v) in
     the (map_of
       [(''token_obtain_pair'', Token_obtain [] []), (''auth_register'', Auth_register undefined),
        (''password_reset_request'', Password_reset []), (''password_reset_confirm'', Password_reset_confirm [] [] []),
        (''social_auth'', Social_auth [] []), (''2fa_setup'', Two_factor_setup), (''2fa_enable'', Two_factor_enable []),
        (''2fa_disable'', Two_factor_disable []), (''2fa_complete'', Two_factor_complete [] []), (''user-list'', User_list),
        (''user-create'', User_create undefined), (''user-me'', User_me),
        (''user-profile'', if m = ''GET'' then Profile_get else if m = ''DELETE'' then Profile_delete else Profile_update undefined),
        (''rbac-role-list'', Role_list v), (''rbac-role-assign'', Role_assign v undefined []),
        (''rbac-role-revoke'', Role_revoke v undefined), (''notification-list'', Notification_list None),
        (''notification-mark-read'', Notification_read v), (''stripe-webhook'', Stripe_webhook []),
        (''audit-log-list'', Audit_log_list None None),
        (''invitation-list-create'', if m = ''GET'' then Invitation_list else Invitation_create [] None),
        (''invitation-detail'', Invitation_detail v), (''invitation-accept'', Invitation_accept v),
        (''invitation-revoke'', Invitation_revoke v), (''feature-flags-list'', Feature_flag_list),
        (''feature-flag-detail'', Feature_flag_detail v)] name))"

lemma api_dispatched:
  assumes "dispatch admin_urls m (''/api/v1/'' @ q) = View name kw"
  shows "(\<exists>ep. route_ok ep \<and> ''/api/v1/'' @ q = route ep \<and> served_method m \<in> set (http_methods ep) \<and>
             name = view_name ep \<and> kw = path_kwargs ep) \<or> library_view m q name \<and> kw = []"
    (is "(\<exists>ep. ?P ep) \<or> ?L")
proof -
  have "dispatch admin_urls m (''/api/v1/'' @ q) = dispatch [] m (''/api/v1/'' @ q)"
    by (simp add: dispatch_def urlpatterns_def)
  then have d: "dispatch [] m (''/api/v1/'' @ q) = View name kw" using assms by simp
  then have r: "resolve (urlpatterns []) (''api/v1/'' @ q) = Some (name, kw)"
    and m: "\<forall>methods. map_of view_methods name = Some methods \<longrightarrow> served_method m \<in> set methods"
    by (auto simp: dispatch_def simp del: resolve.simps split: option.splits if_splits)
  obtain r where rn: "(r, name) \<in> set (flatten (urlpatterns []))" and "match_route r (''api/v1/'' @ q) = Some (kw, [])"
    using resolve_flatten[OF r] by blast
  then have "?P (endpoint_of name (served_method m) kw) \<or> ?L"
    using m
    by (simp add: url_defs del: match_route.simps append.simps, elim disjE conjE; hypsubst)
      (auto simp: view_methods_def match_nil match_lit match_uuid_Some match_str_Some endpoint_of_def
        library_view_def simp del: match_route.simps)
  then show ?thesis by blast
qed

text \<open>C21. Below \<open>/api/v1/\<close> the URL configuration hands a request to a view exactly when an endpoint of the
  machine has that path, that method, that view and those path parameters, or it is one of the two views of
  the token library or the second URL of the list of users; every other path or method is refused before any
  view runs.\<close>

theorem api_routes_exact:
  "dispatch admin_urls m (''/api/v1/'' @ q) = View name kw \<longleftrightarrow>
     (\<exists>ep. route_ok ep \<and> ''/api/v1/'' @ q = route ep \<and> served_method m \<in> set (http_methods ep) \<and>
           name = view_name ep \<and> kw = path_kwargs ep) \<or>
     library_view m q name \<and> kw = []"
proof
  assume "dispatch admin_urls m (''/api/v1/'' @ q) = View name kw"
  then show "(\<exists>ep. route_ok ep \<and> ''/api/v1/'' @ q = route ep \<and> served_method m \<in> set (http_methods ep) \<and>
      name = view_name ep \<and> kw = path_kwargs ep) \<or> library_view m q name \<and> kw = []"
    by (rule api_dispatched)
next
  assume "(\<exists>ep. route_ok ep \<and> ''/api/v1/'' @ q = route ep \<and> served_method m \<in> set (http_methods ep) \<and>
      name = view_name ep \<and> kw = path_kwargs ep) \<or> library_view m q name \<and> kw = []"
  then show "dispatch admin_urls m (''/api/v1/'' @ q) = View name kw"
  proof
    assume "\<exists>ep. route_ok ep \<and> ''/api/v1/'' @ q = route ep \<and> served_method m \<in> set (http_methods ep) \<and>
      name = view_name ep \<and> kw = path_kwargs ep"
    then show ?thesis using endpoint_dispatched by metis
  next
    assume "library_view m q name \<and> kw = []"
    then show ?thesis by (auto simp: library_view_def dispatch_def not_options url_defs view_methods_def)
  qed
qed

text \<open>The trap of the invitation URLs: \<open>DELETE\<close> on the URL its docstring names reaches the detail view, which
  has no such method.\<close>

lemma delete_invitation_refused:
  "uuid_text i \<Longrightarrow> dispatch admin_urls ''DELETE'' (''/api/v1/invitations/'' @ i @ ''/'') = Method_not_allowed"
  by (auto simp: dispatch_def served_method_def url_defs view_methods_def match_str plain_not_empty uuid_plain
      simp del: match_route.simps(3))

end
