(* ===== verification/Serializers.thy ===== *)
theory Serializers
  imports Invitations Notifications Audit_Views Password_Reset
begin

text \<open>
  The serializers: what the endpoints accept (\<open>apps/authentication/serializers.py\<close>, \<open>apps/users/serializers.py\<close>,
  \<open>apps/invitations/serializers.py\<close>, \<open>apps/rbac/serializers.py\<close>) and what they show, the filter of the user list and
  the page size. A request body is a record of the fields sent (\<open>None\<close>: not sent; other than text is not
  modelled); an accepted body is the validated data, \<open>None\<close> where a field error answers 400. Of the REST framework the
  text field is written out as documented; \<open>valid_email\<close> is its e-mail check, \<open>render\<close> its rendering of an instant.
\<close>

subsection \<open>Fields\<close>

text \<open>A text field: trimmed, not blank, no null character, its length within the bounds.\<close>

definition char_field :: "nat \<Rightarrow> nat option \<Rightarrow> string \<Rightarrow> string option" where
  "char_field min_length max_length v =
     (let text = py_strip v
      in if text = [] \<or> CHR 0x00 \<in> set text \<or> length text < min_length \<or>
            (case max_length of Some n \<Rightarrow> n < length text | None \<Rightarrow> False)
         then None else Some text)"

definition email_field :: "(string \<Rightarrow> bool) \<Rightarrow> string \<Rightarrow> string option" where
  "email_field valid_email v =
     (case char_field 0 None v of Some text \<Rightarrow> if valid_email text then Some text else None | None \<Rightarrow> None)"

text \<open>\<open>required=False, default=""\<close>: only a field that was not sent gets the default; a blank one is refused.\<close>

definition with_default :: "string \<Rightarrow> (string \<Rightarrow> string option) \<Rightarrow> string option \<Rightarrow> string option" where
  "with_default dflt field v = (case v of None \<Rightarrow> Some dflt | Some x \<Rightarrow> field x)"

subsection \<open>Requests\<close>

record register_body =
  rb_email :: "string option"
  rb_username :: "string option"
  rb_password :: "string option"
  rb_first_name :: "string option"
  rb_last_name :: "string option"

definition RegisterSerializer :: "(string \<Rightarrow> bool) \<Rightarrow> register_body \<Rightarrow> create_user_input option" where
  "RegisterSerializer valid_email b =
     Option.bind (Option.bind (rb_email b) (email_field valid_email)) (\<lambda>email.
     Option.bind (Option.bind (rb_username b) (char_field 0 (Some 150))) (\<lambda>username.
     Option.bind (Option.bind (rb_password b) (char_field 8 None)) (\<lambda>password.
     Option.bind (with_default [] (char_field 0 (Some 150)) (rb_first_name b)) (\<lambda>first_name.
     Option.bind (with_default [] (char_field 0 (Some 150)) (rb_last_name b)) (\<lambda>last_name.
     Some \<lparr>ci_email = email, ci_username = username, ci_password = password,
           ci_first_name = first_name, ci_last_name = last_name\<rparr>)))))"

text \<open>\<open>UserCreateSerializer\<close> declares the same five fields.\<close>

definition UserCreateSerializer :: "(string \<Rightarrow> bool) \<Rightarrow> register_body \<Rightarrow> create_user_input option" where
  "UserCreateSerializer = RegisterSerializer"

text \<open>The registration endpoint from the body as sent: the view runs on the validated data.\<close>

definition post_user ::
  "(string \<Rightarrow> bool) \<Rightarrow> (string \<Rightarrow> string \<Rightarrow> string \<Rightarrow> string list) \<Rightarrow> (string \<Rightarrow> string) \<Rightarrow>
   (user \<Rightarrow> string list) \<Rightarrow> register_body \<Rightarrow> db \<Rightarrow> user_data response \<times> db" where
  "post_user valid_email password_errors make_password clean_errors b s =
     (case UserCreateSerializer valid_email b of
        None \<Rightarrow> (Detail 400 ''invalid input'', s)
      | Some data \<Rightarrow> UserCreateView_post (\<lambda>_. True) password_errors make_password clean_errors data s)"

definition PasswordResetRequestSerializer :: "(string \<Rightarrow> bool) \<Rightarrow> string option \<Rightarrow> string option" where
  "PasswordResetRequestSerializer valid_email email = Option.bind email (email_field valid_email)"

definition PasswordResetConfirmSerializer ::
  "string option \<Rightarrow> string option \<Rightarrow> string option \<Rightarrow> (string \<times> string \<times> string) option" where
  "PasswordResetConfirmSerializer uid token new_password =
     Option.bind (Option.bind uid (char_field 0 None)) (\<lambda>u.
     Option.bind (Option.bind token (char_field 0 None)) (\<lambda>t.
     Option.bind (Option.bind new_password (char_field 8 None)) (\<lambda>p. Some (u, t, p))))"

definition InvitationCreateSerializer :: "(string \<Rightarrow> bool) \<Rightarrow> string option \<Rightarrow> string option \<Rightarrow> (string \<times> string) option" where
  "InvitationCreateSerializer valid_email email role =
     Option.bind (Option.bind email (email_field valid_email)) (\<lambda>e.
     Option.bind (with_default ''member'' (\<lambda>r. if r \<in> set RoleChoices_values then Some r else None) role) (\<lambda>r. Some (e, r)))"

text \<open>\<open>validate_user_id\<close> replaces the key by the user; \<open>Inl\<close> is the field error.\<close>

definition validate_user_id :: "db \<Rightarrow> pk \<Rightarrow> string + user" where
  "validate_user_id s user_id = (case user_of s user_id of Some u \<Rightarrow> Inr u | None \<Rightarrow> Inl ''User not found.'')"

definition RoleAssignSerializer :: "db \<Rightarrow> pk \<Rightarrow> string \<Rightarrow> (user \<times> string) option" where
  "RoleAssignSerializer s user_id role =
     (case validate_user_id s user_id of
        Inl _ \<Rightarrow> None | Inr u \<Rightarrow> if role \<in> set RoleChoices_values then Some (u, role) else None)"

definition RoleRevokeSerializer :: "db \<Rightarrow> pk \<Rightarrow> user option" where
  "RoleRevokeSerializer s user_id = (case validate_user_id s user_id of Inl _ \<Rightarrow> None | Inr u \<Rightarrow> Some u)"

subsection \<open>Answers\<close>

datatype json = JNull | JBool bool | JText string | JObject "(string \<times> json) list"

definition json_option :: "('a \<Rightarrow> json) \<Rightarrow> 'a option \<Rightarrow> json" where
  "json_option f v = (case v of None \<Rightarrow> JNull | Some x \<Rightarrow> f x)"

definition UserTenantRoleSerializer :: "(instant \<Rightarrow> string) \<Rightarrow> user \<Rightarrow> tenant \<Rightarrow> user_tenant_role \<Rightarrow> (string \<times> json) list" where
  "UserTenantRoleSerializer render u t r =
     [(''id'', JText (ur_id r)), (''username'', JText (us_username u)), (''tenant_name'', JText (tn_name t)),
      (''role'', JText (ur_role r)), (''created_at'', JText (render (ur_created_at r)))]"

text \<open>Without an inviter (his account was deleted) the source \<open>invited_by.email\<close> fails, and a read-only field that
  fails is skipped.\<close>

definition InvitationSerializer ::
  "(instant \<Rightarrow> string) \<Rightarrow> instant \<Rightarrow> tenant \<Rightarrow> user option \<Rightarrow> tenant_invitation \<Rightarrow> (string \<times> json) list" where
  "InvitationSerializer render now t inviter i =
     [(''id'', JText (iv_id i)), (''tenant_name'', JText (tn_name t)), (''email'', JText (iv_email i)),
      (''role'', JText (iv_role i)), (''status'', JText (status_value (iv_status i)))] @
     (case inviter of Some u \<Rightarrow> [(''invited_by_email'', JText (us_email u))] | None \<Rightarrow> []) @
     [(''expires_at'', JText (render (iv_expires_at i))), (''created_at'', JText (render (iv_created_at i))),
      (''is_expired'', JBool (is_expired now i))]"

definition NotificationSerializer :: "(instant \<Rightarrow> string) \<Rightarrow> notification \<Rightarrow> (string \<times> json) list" where
  "NotificationSerializer render n =
     [(''id'', JText (nt_id n)), (''title'', JText (nt_title n)), (''body'', JText (nt_body n)),
      (''is_read'', JBool (nt_is_read n)), (''created_at'', JText (render (nt_created_at n)))]"

text \<open>The row's own id is not a column of the model's audit rows; \<open>display\<close> is the label of an action.\<close>

definition AuditLogSerializer ::
  "(instant \<Rightarrow> string) \<Rightarrow> (string \<Rightarrow> string) \<Rightarrow> uuid \<Rightarrow> audit_log \<Rightarrow> (string \<times> json) list" where
  "AuditLogSerializer render display row_id a =
     [(''id'', JText row_id), (''actor_email'', JText (al_actor_email a)), (''action'', JText (al_action a)),
      (''action_display'', JText (display (al_action a))), (''resource_type'', JText (al_resource_type a)),
      (''resource_id'', JText (al_resource_id a)),
      (''metadata'', JObject (map (\<lambda>(k, v). (k, JText v)) (al_metadata a))),
      (''ip_address'', json_option JText (al_ip_address a)), (''timestamp'', JText (render (al_timestamp a)))]"

definition UserProfileSerializer ::
  "(instant \<Rightarrow> string) \<Rightarrow> (string \<Rightarrow> string option) \<Rightarrow> user_profile \<Rightarrow> (string \<times> json) list" where
  "UserProfileSerializer render url p =
     [(''bio'', JText (pf_bio p)), (''phone'', JText (pf_phone p)), (''timezone'', JText (pf_timezone p)),
      (''avatar_url'', json_option JText (avatar_url url p)), (''updated_at'', JText (render (pf_updated_at p)))]"

definition UserWithProfileSerializer ::
  "(instant \<Rightarrow> string) \<Rightarrow> (string \<Rightarrow> string option) \<Rightarrow> db \<Rightarrow> user \<Rightarrow> user_profile \<Rightarrow> (string \<times> json) list" where
  "UserWithProfileSerializer render url s u p =
     [(''id'', JText (str_nat (us_pk u))), (''username'', JText (us_username u)), (''email'', JText (us_email u)),
      (''first_name'', JText (us_first_name u)), (''last_name'', JText (us_last_name u)),
      (''display_name'', JText (get_display_name u)), (''profile'', JObject (UserProfileSerializer render url p)),
      (''two_fa_enabled'', JBool (two_fa_enabled s u))]"

subsection \<open>Filtering and paging\<close>

text \<open>\<open>joined\<close> is the day a user joined; the bounds are inclusive.\<close>

record user_filter =
  uf_is_active :: "bool option"
  uf_date_joined_after :: "int option"
  uf_date_joined_before :: "int option"

definition UserFilter :: "(user \<Rightarrow> int) \<Rightarrow> user_filter \<Rightarrow> user list \<Rightarrow> user list" where
  "UserFilter joined f us =
     filter (\<lambda>u. (case uf_is_active f of Some b \<Rightarrow> us_is_active u = b | None \<Rightarrow> True) \<and>
                 (case uf_date_joined_after f of Some d \<Rightarrow> d \<le> joined u | None \<Rightarrow> True) \<and>
                 (case uf_date_joined_before f of Some d \<Rightarrow> joined u \<le> d | None \<Rightarrow> True)) us"

definition default_page_size :: nat where "default_page_size = 20"

definition max_page_size :: nat where "max_page_size = 100"

text \<open>The paginator of the framework with these two: a positive \<open>page_size\<close> is cut off, anything else is the default.\<close>

definition get_page_size :: "int option \<Rightarrow> nat" where
  "get_page_size page_size =
     (case page_size of Some n \<Rightarrow> if 0 < n then min (nat n) max_page_size else default_page_size | None \<Rightarrow> default_page_size)"

subsection \<open>Lemmas\<close>

lemma char_field_Some:
  "char_field mn mx v = Some x \<longleftrightarrow>
     x = py_strip v \<and> x \<noteq> [] \<and> CHR 0x00 \<notin> set x \<and> mn \<le> length x \<and> (\<forall>n. mx = Some n \<longrightarrow> length x \<le> n)"
  by (auto simp: char_field_def Let_def split: option.splits)

lemma email_field_Some: "email_field ve v = Some x \<longleftrightarrow> char_field 0 None v = Some x \<and> ve x"
  by (auto simp: email_field_def split: option.splits)

lemma py_strip_Nil: "py_strip [] = []"
  by code_simp

lemma name_field_Some:
  "with_default [] (char_field 0 (Some 150)) v = Some x \<Longrightarrow> length x \<le> 150 \<and> py_strip x = x"
  by (cases v) (auto simp: with_default_def char_field_Some py_strip_Nil)

lemma RegisterSerializer_Some:
  assumes "RegisterSerializer ve b = Some d"
  shows "ve (ci_email d) \<and> ci_username d \<noteq> [] \<and> length (ci_username d) \<le> 150 \<and> 8 \<le> length (ci_password d) \<and>
    length (ci_first_name d) \<le> 150 \<and> length (ci_last_name d) \<le> 150 \<and>
    py_strip (ci_email d) = ci_email d \<and> py_strip (ci_username d) = ci_username d \<and> py_strip (ci_password d) = ci_password d \<and>
    py_strip (ci_first_name d) = ci_first_name d \<and> py_strip (ci_last_name d) = ci_last_name d"
  using assms name_field_Some
  by (auto simp: RegisterSerializer_def bind_eq_Some_conv email_field_Some char_field_Some)

lemma page_size_bounded: "1 \<le> get_page_size n \<and> get_page_size n \<le> 100"
  by (auto simp: get_page_size_def default_page_size_def max_page_size_def split: option.splits)

lemma UserFilter_narrows: "set (UserFilter joined f us) \<subseteq> set us"
  by (auto simp: UserFilter_def)

text \<open>The public view of an invitation shows neither its token nor the accepting account.\<close>

lemma InvitationSerializer_public:
  "InvitationSerializer render now t inviter (i\<lparr>iv_token := tok, iv_accepted_by := acc\<rparr>) = InvitationSerializer render now t inviter i"
  by (simp add: InvitationSerializer_def is_expired_def)

subsection \<open>Properties\<close>


definition carol_body :: register_body where
  "carol_body = \<lparr>rb_email = Some ('' Carol'' @ [CHR 0x40] @ ''x.test''), rb_username = Some ''carol '', rb_password = Some ''longenough'',
     rb_first_name = None, rb_last_name = Some ''C''\<rparr>"


end
