(* ===== verification/Front_Door.thy ===== *)
theory Front_Door
  imports Routing Serializers
begin

text \<open>
  A request as it arrives: method, path, query and body, resolved by the URLs of \<open>Routing\<close>, checked against the
  permissions of the view class, read by the serializers, and handed to the view of \<open>System\<close>, all behind the
  tenant middleware. As the REST framework documents, the permissions are checked before the method. A body
  is a map from field names to texts. Parameters: the admin site's URLs, \<open>parse_int\<close> (an integer field),
  \<open>token_fields\<close> (the token library's serializer), and \<open>elsewhere\<close>, the views that are not the program's.
\<close>

subsection \<open>Permissions\<close>

datatype permission = Allow_any | Is_authenticated | Has_role "string list"

text \<open>The \<open>permission_classes\<close> and \<open>required_roles\<close> of each view class; an empty list of classes lets anyone
  through.\<close>

definition RegisterView_permission :: permission where "RegisterView_permission = Allow_any"
definition PasswordResetRequestView_permission :: permission where "PasswordResetRequestView_permission = Allow_any"
definition PasswordResetConfirmView_permission :: permission where "PasswordResetConfirmView_permission = Allow_any"
definition SocialAuthView_permission :: permission where "SocialAuthView_permission = Allow_any"
definition TwoFactorSetupView_permission :: permission where "TwoFactorSetupView_permission = Is_authenticated"
definition TwoFactorVerifyEnableView_permission :: permission where "TwoFactorVerifyEnableView_permission = Is_authenticated"
definition TwoFactorDisableView_permission :: permission where "TwoFactorDisableView_permission = Is_authenticated"
definition TwoFactorCompleteView_permission :: permission where "TwoFactorCompleteView_permission = Allow_any"
definition UserListView_permission :: permission where "UserListView_permission = Has_role [''owner'', ''admin'']"
definition UserCreateView_permission :: permission where "UserCreateView_permission = Allow_any"
definition MeView_permission :: permission where "MeView_permission = Is_authenticated"
definition ProfileView_permission :: permission where "ProfileView_permission = Is_authenticated"
definition TenantRoleListView_permission :: permission where "TenantRoleListView_permission = Has_role [''owner'', ''admin'', ''member'']"
definition AssignRoleView_permission :: permission where "AssignRoleView_permission = Has_role [''owner'', ''admin'']"
definition RevokeRoleView_permission :: permission where "RevokeRoleView_permission = Has_role [role_value OWNER, role_value ADMIN]"
definition NotificationListView_permission :: permission where "NotificationListView_permission = Is_authenticated"
definition MarkNotificationReadView_permission :: permission where "MarkNotificationReadView_permission = Is_authenticated"
definition StripeWebhookView_permission :: permission where "StripeWebhookView_permission = Allow_any"
definition AuditLogListView_permission :: permission where "AuditLogListView_permission = Has_role [''owner'', ''admin'']"
definition TenantInvitationListCreateView_permission :: permission where "TenantInvitationListCreateView_permission = Has_role [''owner'', ''admin'']"
definition InvitationDetailView_permission :: permission where "InvitationDetailView_permission = Allow_any"
definition InvitationAcceptView_permission :: permission where "InvitationAcceptView_permission = Is_authenticated"
definition InvitationRevokeView_permission :: permission where "InvitationRevokeView_permission = Has_role [''owner'', ''admin'']"
definition FeatureFlagsView_permission :: permission where "FeatureFlagsView_permission = Is_authenticated"
definition FeatureFlagDetailView_permission :: permission where "FeatureFlagDetailView_permission = Is_authenticated"

text \<open>The permission behind each URL; the token view has the library's, which lets anyone through.\<close>

definition view_permissions :: "(string \<times> permission) list" where
  "view_permissions =
     [(''token_obtain_pair'', Allow_any), (''auth_register'', RegisterView_permission),
      (''password_reset_request'', PasswordResetRequestView_permission),
      (''password_reset_confirm'', PasswordResetConfirmView_permission),
      (''social_auth'', SocialAuthView_permission), (''2fa_setup'', TwoFactorSetupView_permission),
      (''2fa_enable'', TwoFactorVerifyEnableView_permission), (''2fa_disable'', TwoFactorDisableView_permission),
      (''2fa_complete'', TwoFactorCompleteView_permission), (''user-list'', UserListView_permission),
      (''user-list-alt'', UserListView_permission), (''user-create'', UserCreateView_permission),
      (''user-me'', MeView_permission), (''user-profile'', ProfileView_permission),
      (''rbac-role-list'', TenantRoleListView_permission), (''rbac-role-assign'', AssignRoleView_permission),
      (''rbac-role-revoke'', RevokeRoleView_permission),
      (''notification-list'', NotificationListView_permission),
      (''notification-mark-read'', MarkNotificationReadView_permission),
      (''stripe-webhook'', StripeWebhookView_permission), (''audit-log-list'', AuditLogListView_permission),
      (''invitation-list-create'', TenantInvitationListCreateView_permission),
      (''invitation-detail'', InvitationDetailView_permission),
      (''invitation-accept'', InvitationAcceptView_permission),
      (''invitation-revoke'', InvitationRevokeView_permission),
      (''feature-flags-list'', FeatureFlagsView_permission),
      (''feature-flag-detail'', FeatureFlagDetailView_permission)]"

lemmas permission_defs = RegisterView_permission_def PasswordResetRequestView_permission_def PasswordResetConfirmView_permission_def
  SocialAuthView_permission_def TwoFactorSetupView_permission_def TwoFactorVerifyEnableView_permission_def
  TwoFactorDisableView_permission_def TwoFactorCompleteView_permission_def UserListView_permission_def
  UserCreateView_permission_def MeView_permission_def ProfileView_permission_def
  TenantRoleListView_permission_def AssignRoleView_permission_def RevokeRoleView_permission_def
  NotificationListView_permission_def MarkNotificationReadView_permission_def StripeWebhookView_permission_def
  AuditLogListView_permission_def TenantInvitationListCreateView_permission_def InvitationDetailView_permission_def
  InvitationAcceptView_permission_def InvitationRevokeView_permission_def FeatureFlagsView_permission_def
  FeatureFlagDetailView_permission_def

text \<open>The check before the handler: \<open>None\<close> lets the request through.\<close>

fun check_permission ::
  "(string \<Rightarrow> uuid option) \<Rightarrow> permission \<Rightarrow> kwargs \<Rightarrow> request \<Rightarrow> db \<Rightarrow> unit response option" where
  "check_permission parse_uuid Allow_any kw rq s = None"
| "check_permission parse_uuid Is_authenticated kw rq s = (if rq_user rq = None then Some (Detail 401 []) else None)"
| "check_permission parse_uuid (Has_role required) kw rq s =
     (if rq_user rq = None then Some (Detail 401 [])
      else case HasRolePermission parse_uuid required rq (map_of kw ''tenant_id'') s of
             Inl e \<Rightarrow> Some (Uncaught e)
           | Inr ok \<Rightarrow> if ok then None else Some (Detail 403 role_required_message))"

subsection \<open>Reading the request\<close>

record http_request =
  hr_method :: string
  hr_path :: string
  hr_query :: "string \<Rightarrow> string option"
  hr_data :: "string \<Rightarrow> string option"
  hr_files :: "string \<Rightarrow> string option"
  hr_body :: string
  hr_request :: request

definition data_get :: "http_request \<Rightarrow> string \<Rightarrow> string" where
  "data_get raw key = (case hr_data raw key of Some v \<Rightarrow> v | None \<Rightarrow> [])"

definition register_body_of :: "http_request \<Rightarrow> register_body" where
  "register_body_of raw =
     \<lparr>rb_email = hr_data raw ''email'', rb_username = hr_data raw ''username'', rb_password = hr_data raw ''password'',
      rb_first_name = hr_data raw ''first_name'', rb_last_name = hr_data raw ''last_name''\<rparr>"

definition profile_data_of :: "http_request \<Rightarrow> profile_data" where
  "profile_data_of raw =
     \<lparr>pd_bio = map_option py_strip (hr_data raw ''bio''), pd_phone = map_option py_strip (hr_data raw ''phone''),
      pd_timezone = map_option py_strip (hr_data raw ''timezone''), pd_avatar = map_option Some (hr_files raw ''avatar'')\<rparr>"

record readers =
  rd_valid_email :: "string \<Rightarrow> bool"
  rd_parse_int :: "string \<Rightarrow> pk option"
  rd_token_fields :: "(string \<Rightarrow> string option) \<Rightarrow> (string \<times> string) option"

text \<open>The endpoint behind a view name, a method and the request; \<open>None\<close> where a required field is missing or
  refused, which answers 400.\<close>

definition read_endpoint :: "readers \<Rightarrow> string \<Rightarrow> kwargs \<Rightarrow> http_request \<Rightarrow> endpoint option" where
  "read_endpoint rd name kw raw =
     (let m = served_method (hr_method raw); arg = (case kw of [] \<Rightarrow> [] | (_, v) # _ \<Rightarrow> v);
          user_id = Option.bind (hr_data raw ''user_id'') (rd_parse_int rd)
      in case map_of
           [(''token_obtain_pair'', map_option (\<lambda>(u, p). Token_obtain u p) (rd_token_fields rd (hr_data raw))),
            (''auth_register'', map_option Auth_register (RegisterSerializer (rd_valid_email rd) (register_body_of raw))),
            (''password_reset_request'',
               map_option Password_reset (PasswordResetRequestSerializer (rd_valid_email rd) (hr_data raw ''email''))),
            (''password_reset_confirm'',
               map_option (\<lambda>(u, t, p). Password_reset_confirm u t p)
                 (PasswordResetConfirmSerializer (hr_data raw ''uid'') (hr_data raw ''token'') (hr_data raw ''new_password''))),
            (''social_auth'', Some (Social_auth (data_get raw ''provider'') (data_get raw ''access_token''))),
            (''2fa_setup'', Some Two_factor_setup),
            (''2fa_enable'', Some (Two_factor_enable (data_get raw ''code''))),
            (''2fa_disable'', Some (Two_factor_disable (data_get raw ''code''))),
            (''2fa_complete'', Some (Two_factor_complete (data_get raw ''session_key'') (data_get raw ''code''))),
            (''user-list'', Some User_list), (''user-list-alt'', Some User_list),
            (''user-create'', map_option User_create (UserCreateSerializer (rd_valid_email rd) (register_body_of raw))),
            (''user-me'', Some User_me),
            (''user-profile'', Some (if m = ''GET'' then Profile_get else if m = ''DELETE'' then Profile_delete
               else Profile_update (profile_data_of raw))),
            (''rbac-role-list'', Some (Role_list arg)),
            (''rbac-role-assign'',
               Option.bind user_id (\<lambda>u. map_option (Role_assign arg u) (hr_data raw ''role''))),
            (''rbac-role-revoke'', map_option (Role_revoke arg) user_id),
            (''notification-list'', Some (Notification_list (hr_query raw ''unread_only''))),
            (''notification-mark-read'', Some (Notification_read arg)),
            (''stripe-webhook'', Some (Stripe_webhook (hr_body raw))),
            (''audit-log-list'', Some (Audit_log_list (hr_query raw ''action'') (hr_query raw ''actor''))),
            (''invitation-list-create'', if m = ''GET'' then Some Invitation_list
               else map_option (\<lambda>e. Invitation_create e (hr_data raw ''role'')) (hr_data raw ''email'')),
            (''invitation-detail'', Some (Invitation_detail arg)), (''invitation-accept'', Some (Invitation_accept arg)),
            (''invitation-revoke'', Some (Invitation_revoke arg)), (''feature-flags-list'', Some Feature_flag_list),
            (''feature-flag-detail'', Some (Feature_flag_detail arg))] name of
           Some ep \<Rightarrow> ep
         | None \<Rightarrow> None)"

subsection \<open>The answer to a request\<close>

text \<open>A body that is refused answers 400, under the role URLs after the tenant of the path was looked up.\<close>

definition refuse_body :: "string \<Rightarrow> kwargs \<Rightarrow> db \<Rightarrow> unit response" where
  "refuse_body name kw s =
     (case map_of kw ''tenant_id'' of
        Some t \<Rightarrow> if tenant_of s t = None then Detail 404 [] else Detail 400 ''invalid input''
      | None \<Rightarrow> Detail 400 ''invalid input'')"

definition run_view ::
  "readers \<Rightarrow> environment \<Rightarrow> instant \<Rightarrow> entropy \<Rightarrow> http_request \<Rightarrow> string \<Rightarrow> permission \<Rightarrow> kwargs \<Rightarrow>
   request \<Rightarrow> site \<Rightarrow> unit response \<times> site" where
  "run_view rd env now r raw name p kw rq st =
     (case check_permission (env_parse_uuid env) p kw rq (site_db st) of
        Some refusal \<Rightarrow> (refusal, st)
      | None \<Rightarrow>
          (case map_of view_methods name of
             None \<Rightarrow> (Detail 405 [], st)
           | Some methods \<Rightarrow>
               if hr_method raw = ''OPTIONS'' then (Response 200 (), st)
               else if served_method (hr_method raw) \<notin> set methods then (Detail 405 [], st)
               else (case read_endpoint rd name kw raw of
                       None \<Rightarrow> (refuse_body name kw (site_db st), st)
                     | Some ep \<Rightarrow> view env now r ep rq st)))"

definition route_request ::
  "url_pattern list \<Rightarrow> (string \<Rightarrow> kwargs \<Rightarrow> site \<Rightarrow> unit response \<times> site) \<Rightarrow> readers \<Rightarrow> environment \<Rightarrow> instant \<Rightarrow>
   entropy \<Rightarrow> http_request \<Rightarrow> request \<Rightarrow> site \<Rightarrow> unit response \<times> site" where
  "route_request admin_urls elsewhere rd env now r raw rq st =
     (case Option.bind (strip_prefix ''/'' (hr_path raw)) (resolve (urlpatterns admin_urls)) of
        None \<Rightarrow> (Detail 404 ''The requested resource was not found.'', st)
      | Some (name, kw) \<Rightarrow>
          (case map_of view_permissions name of
             None \<Rightarrow> elsewhere name kw st
           | Some p \<Rightarrow> run_view rd env now r raw name p kw rq st))"

definition respond ::
  "url_pattern list \<Rightarrow> (string \<Rightarrow> kwargs \<Rightarrow> site \<Rightarrow> unit response \<times> site) \<Rightarrow> readers \<Rightarrow> environment \<Rightarrow> instant \<Rightarrow>
   entropy \<Rightarrow> http_request \<Rightarrow> (site, unit response) op" where
  "respond admin_urls elsewhere rd env now r raw =
     TenantMiddleware_call now
       (\<lambda>rq st. case route_request admin_urls elsewhere rd env now r raw rq st of (resp, st') \<Rightarrow> (Inr resp, st'))
       ((hr_request raw)\<lparr>rq_path := hr_path raw\<rparr>)"

subsection \<open>Lemmas\<close>

text \<open>What is read for a dispatched request is an endpoint of that view, method and path.\<close>

lemma read_endpoint_for:
  assumes "read_endpoint rd (view_name ep) (path_kwargs ep) raw = Some ep'"
    and "served_method (hr_method raw) \<in> set (http_methods ep)"
  shows "view_name ep' = view_name ep \<and> path_kwargs ep' = path_kwargs ep \<and> route ep' = route ep \<and>
    route_ok ep' = route_ok ep \<and> served_method (hr_method raw) \<in> set (http_methods ep')"
  using assms by (cases ep) (auto simp: read_endpoint_def Let_def bind_eq_Some_conv split: option.splits if_splits)

text \<open>A view refuses by itself what its permission refuses.\<close>

lemma role_refused:
  assumes "check_permission pu (Has_role required) kw rq s = Some refusal"
  shows "\<exists>resp. authenticated_with_role pu required rq (map_of kw ''tenant_id'') handler s = (resp, s) \<and> answered resp = refusal"
  using assms by (auto simp: authenticated_with_role_def split: option.splits sum.splits if_splits)

lemma permission_guards_view:
  assumes "map_of view_permissions (view_name ep) = Some p"
    and "check_permission (env_parse_uuid env) p (path_kwargs ep) rq (site_db st) = Some refusal"
  shows "view env now r ep rq st = (refusal, st)"
proof (cases p)
  case Allow_any
  with assms(2) show ?thesis by simp
next
  case Is_authenticated
  then have "rq_user rq = None" "refusal = Detail 401 []" using assms(2) by (auto split: if_splits)
  with assms(1) Is_authenticated show ?thesis
    by (cases ep) (simp_all add: view_permissions_def permission_defs on_db_def reading_def TwoFactorSetupView_get_def
      TwoFactorVerifyEnableView_post_def TwoFactorDisableView_post_def MeView_get_def ProfileView_get_def
      ProfileView_update_def ProfileView_delete_def NotificationListView_get_def MarkNotificationReadView_patch_def
      InvitationAcceptView_post_def FeatureFlagsView_get_def FeatureFlagDetailView_get_def)
next
  case (Has_role required)
  have r: "on_db (authenticated_with_role (env_parse_uuid env) rs rq t handler) st = (refusal, st)"
    if "p = Has_role rs" and "map_of (path_kwargs ep) ''tenant_id'' = t"
    for rs t and handler :: "user \<Rightarrow> db \<Rightarrow> 'a response \<times> db"
    using role_refused [of "env_parse_uuid env" rs "path_kwargs ep" rq "site_db st" refusal handler] assms(2) that
    by (auto simp: on_db_def)
  show ?thesis
    using assms(1) Has_role
    by (cases ep) (auto simp: r view_permissions_def permission_defs UserListView_get_def TenantRoleListView_get_def
      AssignRoleView_post_def RevokeRoleView_post_def TenantInvitationListCreateView_get_def
      TenantInvitationListCreateView_post_def InvitationRevokeView_delete_def AuditLogListView_get_def)
qed

text \<open>The endpoint a request asks for: its path, its method, and the data read from it.\<close>

definition asks :: "readers \<Rightarrow> http_request \<Rightarrow> endpoint \<Rightarrow> bool" where
  "asks rd raw ep \<longleftrightarrow>
     route_ok ep \<and> hr_path raw = route ep \<and> served_method (hr_method raw) \<in> set (http_methods ep) \<and>
     read_endpoint rd (view_name ep) (path_kwargs ep) raw = Some ep"

text \<open>Below \<open>/api/v1/\<close> every view has a permission, but for the two views of the token library.\<close>

definition token_library_urls :: "string list" where
  "token_library_urls = [''auth/token/refresh/'', ''auth/token/blacklist/'']"

lemma view_permissions_name: "map_of view_permissions (view_name ep) \<noteq> None"
  by (cases ep) (simp_all add: view_permissions_def permission_defs)

lemma library_view_permission:
  "library_view m q name \<Longrightarrow> q \<notin> set token_library_urls \<Longrightarrow> name = ''user-list-alt'' \<and> q = ''users/list/''"
  by (auto simp: library_view_def token_library_urls_def)

lemma view_methods_served:
  "list_all (\<lambda>(name, ms). ms \<noteq> [] \<and> hd ms \<noteq> ''OPTIONS'' \<and> served_method (hd ms) = hd ms) view_methods"
  by (simp add: view_methods_def served_method_def)

lemma view_methods_some:
  assumes "map_of view_methods name = Some methods"
  shows "\<exists>m. m \<noteq> ''OPTIONS'' \<and> served_method m \<in> set methods"
proof -
  have "methods \<noteq> [] \<and> hd methods \<noteq> ''OPTIONS'' \<and> served_method (hd methods) = hd methods"
    using view_methods_served map_of_SomeD [OF assms] by (auto simp: list_all_iff)
  then show ?thesis by (intro exI[of _ "hd methods"]) simp
qed

lemma resolved_permission:
  assumes r: "resolve (urlpatterns admin_urls) (''api/v1/'' @ q) = Some (name, kw)" and q: "q \<notin> set token_library_urls"
  shows "map_of view_permissions name \<noteq> None"
proof -
  obtain m where "dispatch admin_urls m (''/api/v1/'' @ q) = View name kw"
  proof (cases "map_of view_methods name")
    case None
    with r that show thesis by (simp add: dispatch_def)
  next
    case (Some methods)
    then obtain m where "m \<noteq> ''OPTIONS''" "served_method m \<in> set methods" using view_methods_some by blast
    with r Some that [of m] show thesis by (simp add: dispatch_def)
  qed
  from api_dispatched [OF this] show ?thesis
  proof
    assume "library_view m q name \<and> kw = []"
    with library_view_permission [of m q name] q show ?thesis by (auto simp: view_permissions_def permission_defs)
  qed (use view_permissions_name in blast)
qed

text \<open>A request that gets past the checks of the view class reaches the view of an endpoint.\<close>

lemma reaches_view:
  assumes path: "hr_path raw = ''/api/v1/'' @ q" and q: "q \<notin> set token_library_urls"
    and run: "route_request admin_urls elsewhere rd env now r raw rq st = (resp, st')"
    and change: "site_db st' \<noteq> site_db st"
  shows "\<exists>ep p. asks rd raw ep \<and> map_of view_permissions (view_name ep) = Some p \<and>
    check_permission (env_parse_uuid env) p (path_kwargs ep) rq (site_db st) = None \<and>
    (resp, st') = view env now r ep rq st"
proof -
  have strip: "strip_prefix ''/'' (hr_path raw) = Some (''api/v1/'' @ q)" using path by simp
  obtain name kw where res: "resolve (urlpatterns admin_urls) (''api/v1/'' @ q) = Some (name, kw)"
    using run change by (auto simp: route_request_def strip simp del: resolve.simps append.simps split: option.splits)
  obtain p where p: "map_of view_permissions name = Some p" using resolved_permission [OF res q] by blast
  have rv: "run_view rd env now r raw name p kw rq st = (resp, st')"
    using run by (simp add: route_request_def strip res p del: resolve.simps append.simps)
  then obtain methods ep' where ok: "check_permission (env_parse_uuid env) p kw rq (site_db st) = None"
      "map_of view_methods name = Some methods" "hr_method raw \<noteq> ''OPTIONS''" "served_method (hr_method raw) \<in> set methods"
      "read_endpoint rd name kw raw = Some ep'" and v: "(resp, st') = view env now r ep' rq st"
    using change by (auto simp: run_view_def split: option.splits if_splits)
  have "dispatch admin_urls (hr_method raw) (''/api/v1/'' @ q) = View name kw"
    using ok res by (simp add: dispatch_def del: resolve.simps)
  from api_dispatched [OF this] show ?thesis
  proof
    assume "\<exists>ep. route_ok ep \<and> ''/api/v1/'' @ q = route ep \<and> served_method (hr_method raw) \<in> set (http_methods ep) \<and>
      name = view_name ep \<and> kw = path_kwargs ep"
    then obtain ep where ep: "route_ok ep" "''/api/v1/'' @ q = route ep" "served_method (hr_method raw) \<in> set (http_methods ep)"
      "name = view_name ep" "kw = path_kwargs ep" by blast
    have "view_name ep' = view_name ep \<and> path_kwargs ep' = path_kwargs ep \<and> route ep' = route ep \<and>
        route_ok ep' = route_ok ep \<and> served_method (hr_method raw) \<in> set (http_methods ep')"
      using ok(5) ep by (intro read_endpoint_for) simp_all
    with ep p ok(1,5) v path show ?thesis by (intro exI[of _ ep'] exI[of _ p]) (simp add: asks_def)
  next
    assume "library_view (hr_method raw) q name \<and> kw = []"
    then have "name = ''user-list-alt''" using library_view_permission q by blast
    then have "ep' = User_list" using ok(5) by (auto simp: read_endpoint_def Let_def)
    then have "site_db st' = site_db st" using v by (simp add: on_db_def reading_views_keep case_prod_beta)
    with change show ?thesis by simp
  qed
qed

text \<open>A request asks for at most one endpoint, which answers it.\<close>

lemma asked_name:
  assumes "asks rd raw ep"
  shows "resolve (urlpatterns admin_urls) (drop 1 (hr_path raw)) = Some (view_name ep, path_kwargs ep)"
    and "strip_prefix ''/'' (hr_path raw) = Some (drop 1 (hr_path raw))"
    and "\<exists>methods. map_of view_methods (view_name ep) = Some methods \<and> served_method (hr_method raw) \<in> set methods \<and>
      hr_method raw \<noteq> ''OPTIONS''"
proof -
  have d: "dispatch admin_urls (hr_method raw) (hr_path raw) = View (view_name ep) (path_kwargs ep)"
    using assms endpoint_dispatched [of ep "hr_method raw" admin_urls] by (simp add: asks_def)
  show strip: "strip_prefix ''/'' (hr_path raw) = Some (drop 1 (hr_path raw))"
    using assms by (cases ep) (simp_all add: asks_def)
  have named: "map_of view_methods (view_name ep) \<noteq> None" by (cases ep) (simp_all add: view_methods_def)
  show "resolve (urlpatterns admin_urls) (drop 1 (hr_path raw)) = Some (view_name ep, path_kwargs ep)"
    using d unfolding dispatch_def strip by (auto split: option.splits if_splits)
  then show "\<exists>methods. map_of view_methods (view_name ep) = Some methods \<and> served_method (hr_method raw) \<in> set methods \<and>
      hr_method raw \<noteq> ''OPTIONS''"
    using d named unfolding dispatch_def strip by (auto split: option.splits if_splits)
qed

lemma asks_unique: "asks rd raw ep \<Longrightarrow> asks rd raw ep' \<Longrightarrow> ep' = ep"
  using asked_name(1) [where admin_urls = "[]"] unfolding asks_def by (metis option.inject prod.inject)

lemma api_not_exempt: "\<not> list_ex (starts_with (''/api/v1/'' @ q)) EXEMPT_PREFIXES"
  by (simp add: EXEMPT_PREFIXES_def)

text \<open>A change of the database by a request comes from the view of an endpoint, behind the tenant of the host
  and the permission of the view class.\<close>

lemma respond_change:
  assumes path: "hr_path raw = ''/api/v1/'' @ q" and q: "q \<notin> set token_library_urls"
    and change: "site_db (snd (respond admin_urls elsewhere rd env now r raw st)) \<noteq> site_db st"
  shows "\<exists>ep p t. asks rd raw ep \<and>
    respond admin_urls elsewhere rd env now r raw st = serve env now r ep (hr_request raw) st \<and>
    map_of view_permissions (view_name ep) = Some p \<and>
    check_permission (env_parse_uuid env) p (path_kwargs ep)
      ((hr_request raw)\<lparr>rq_path := hr_path raw, rq_tenant := Some t\<rparr>) (site_db st) = None"
proof -
  obtain y st1 where host: "resolve_tenant now (split_head (CHR '':'') (rq_host (hr_request raw))) st = (y, st1)" by fastforce
  have db: "site_db st1 = site_db st" using resolve_tenant_frame [OF host] by simp
  have exempt: "\<not> list_ex (starts_with (hr_path raw)) EXEMPT_PREFIXES" using path api_not_exempt [of q] by simp
  note defs = respond_def TenantMiddleware_call_def exempt host
  obtain t where y: "y = Inr (Some t)" "tn_is_active t"
    using change db by (cases y) (auto simp: defs split: option.splits if_splits)
  let ?rq = "(hr_request raw)\<lparr>rq_path := hr_path raw, rq_tenant := Some t\<rparr>"
  let ?st = "set_tenant_id (Some (tn_id t)) st1"
  obtain resp st2 where run: "route_request admin_urls elsewhere rd env now r raw ?rq ?st = (resp, st2)" by fastforce
  have resp: "respond admin_urls elsewhere rd env now r raw st = (Inr resp, clear_tenant st2)"
    using run y by (simp add: defs)
  have "site_db st2 \<noteq> site_db ?st"
    using change db by (simp add: resp clear_tenant_def set_tenant_id_def)
  from reaches_view [OF path q run this] obtain ep p where
    ep: "asks rd raw ep" "map_of view_permissions (view_name ep) = Some p"
      "check_permission (env_parse_uuid env) p (path_kwargs ep) ?rq (site_db ?st) = None"
      "(resp, st2) = view env now r ep ?rq ?st" by blast
  then have route: "route ep = hr_path raw" by (simp add: asks_def)
  have "serve env now r ep (hr_request raw) st = (Inr resp, clear_tenant st2)"
    using y ep(4) [symmetric] exempt route
    by (simp add: serve_def TenantMiddleware_call_def host)
  moreover have "site_db ?st = site_db st" using db by (simp add: set_tenant_id_def)
  ultimately show ?thesis using ep resp by (intro exI[of _ ep] exI[of _ p] exI[of _ t]) simp
qed

lemma asks_served:
  assumes ep: "asks rd raw ep"
  shows "respond admin_urls elsewhere rd env now r raw st = serve env now r ep (hr_request raw) st"
proof -
  have path: "hr_path raw = route ep" using ep by (simp add: asks_def)
  obtain p where p: "map_of view_permissions (view_name ep) = Some p" using view_permissions_name by blast
  have "route_request admin_urls elsewhere rd env now r raw rq s = view env now r ep rq s" for rq s
  proof (cases "check_permission (env_parse_uuid env) p (path_kwargs ep) rq (site_db s)")
    case None
    with p asked_name(1) [where admin_urls = admin_urls, OF ep] asked_name(2,3) [OF ep] ep show ?thesis by (auto simp: route_request_def run_view_def asks_def)
  next
    case (Some refusal)
    with p asked_name(1) [where admin_urls = admin_urls, OF ep] asked_name(2,3) [OF ep] permission_guards_view [OF p Some] show ?thesis
      by (simp add: route_request_def run_view_def)
  qed
  then show ?thesis by (simp add: respond_def serve_def path)
qed

subsection \<open>A run\<close>

definition demo_readers :: readers where
  "demo_readers = \<lparr>rd_valid_email = (\<lambda>_. True), rd_parse_int = (\<lambda>_. Some 2), rd_token_fields = (\<lambda>_. None)\<rparr>"

definition demo_http :: "string \<Rightarrow> string \<Rightarrow> user option \<Rightarrow> http_request" where
  "demo_http method path u =
     \<lparr>hr_method = method, hr_path = path, hr_query = Map.empty, hr_data = [''email'' \<mapsto> ''dan@acme.test''],
      hr_files = Map.empty, hr_body = [], hr_request = demo_request\<lparr>rq_user := u\<rparr>\<rparr>"

definition demo_respond :: "http_request \<Rightarrow> (exn + unit response) \<times> site" where
  "demo_respond raw = respond [] (\<lambda>_ _ st. (Detail 404 [], st)) demo_readers demo_env 5 demo_entropy raw
     (demo_site (demo_db\<lparr>roles := [member_row 1 ''t1'' ''owner'']\<rparr>))"

lemma demo_answers:
  "map (\<lambda>raw. (case fst (demo_respond raw) of Inr resp \<Rightarrow> status_code resp | Inl _ \<Rightarrow> 0,
               length (invitations (site_db (snd (demo_respond raw))))))
     [demo_http ''POST'' ''/api/v1/invitations/'' (Some alice), demo_http ''POST'' ''/api/v1/invitations/'' (Some bob),
      demo_http ''POST'' ''/api/v1/invitations/'' None, demo_http ''PUT'' ''/api/v1/invitations/'' (Some alice),
      demo_http ''GET'' ''/api/v1/invitations/x/y'' (Some alice), demo_http ''POST'' ''/api/v1/users/create/'' None] =
   [(201, 1), (403, 0), (401, 0), (405, 0), (404, 0), (400, 0)]"
  by code_simp

subsection \<open>What the front door guarantees\<close>




lemma invitations_permission:
  "route ep = ''/api/v1/invitations/'' \<Longrightarrow> map_of view_permissions (view_name ep) = Some (Has_role [''owner'', ''admin''])"
  by (cases ep) (simp_all add: view_permissions_def permission_defs)


end
