(* ===== verification/Admin.thy ===== *)
theory Admin
  imports Migrations Integrity
begin

text \<open>
  The site of the administration: the \<open>admin.py\<close> files of the applications as records, the framework's checks of
  what they name against the models of \<open>Migrations\<close>, and what the site does when a tenant is deleted in it: as
  the framework documents, it collects every row the deletion would cascade to and refuses when one of them
  belongs to a registered model whose admin denies the deletion. The administrator has every permission the
  declarations leave open.
\<close>

subsection \<open>Declarations\<close>

record inline =
  in_model :: string
  in_extra :: nat
  in_fields :: "string list"

record model_admin =
  ad_model :: string
  ad_list_display :: "string list"
  ad_list_filter :: "string list"
  ad_search_fields :: "string list"
  ad_ordering :: "string list"
  ad_readonly_fields :: "string list"
  ad_raw_id_fields :: "string list"
  ad_prepopulated_fields :: "(string \<times> string list) list"
  ad_inlines :: "inline list"
  ad_has_add :: bool
  ad_has_change :: bool
  ad_has_delete :: bool

text \<open>What a declaration starts from: no lists, and the permissions of the framework.\<close>

definition model_admin_of :: "string \<Rightarrow> model_admin" where
  "model_admin_of m =
     \<lparr>ad_model = m, ad_list_display = [], ad_list_filter = [], ad_search_fields = [], ad_ordering = [],
      ad_readonly_fields = [], ad_raw_id_fields = [], ad_prepopulated_fields = [], ad_inlines = [],
      ad_has_add = True, ad_has_change = True, ad_has_delete = True\<rparr>"

definition DomainInline :: inline where
  "DomainInline = \<lparr>in_model = ''tenants.domain'', in_extra = 1, in_fields = [''domain'', ''is_primary'']\<rparr>"

definition AuditLogAdmin :: model_admin where
  "AuditLogAdmin =
     model_admin_of ''audit.auditlog''\<lparr>
     ad_list_display := [''timestamp'', ''actor_email'', ''action'', ''resource_type'', ''resource_id'',
       ''tenant''],
     ad_list_filter := [''action'', ''tenant''],
     ad_search_fields := [''actor_email'', ''resource_id'', ''metadata''],
     ad_readonly_fields := [''id'', ''timestamp'', ''actor'', ''actor_email'', ''action'',
       ''resource_type'', ''resource_id'', ''metadata'', ''ip_address'', ''user_agent'', ''tenant''],
     ad_ordering := [''-timestamp''],
     ad_has_add := False, ad_has_change := False, ad_has_delete := False\<rparr>"

definition PlanAdmin :: model_admin where
  "PlanAdmin =
     model_admin_of ''billing.plan''\<lparr>
     ad_list_display := [''name'', ''slug'', ''max_members'', ''max_storage_mb'', ''is_active''],
     ad_list_filter := [''is_active''], ad_search_fields := [''name'', ''slug'', ''stripe_price_id''],
     ad_prepopulated_fields := [(''slug'', [''name''])]\<rparr>"

definition SubscriptionAdmin :: model_admin where
  "SubscriptionAdmin =
     model_admin_of ''billing.subscription''\<lparr>
     ad_list_display := [''tenant'', ''plan'', ''status'', ''stripe_customer_id'',
       ''current_period_end'', ''updated_at''],
     ad_list_filter := [''status'', ''plan''],
     ad_search_fields := [''tenant__name'', ''stripe_customer_id'', ''stripe_subscription_id''],
     ad_readonly_fields := [''created_at'', ''updated_at'']\<rparr>"

definition WebhookEventAdmin :: model_admin where
  "WebhookEventAdmin =
     model_admin_of ''billing.webhookevent''\<lparr>
     ad_list_display := [''stripe_event_id'', ''event_type'', ''processed_at''],
     ad_list_filter := [''event_type''], ad_search_fields := [''stripe_event_id''],
     ad_readonly_fields := [''stripe_event_id'', ''event_type'', ''processed_at'', ''payload'']\<rparr>"

definition RecordAdmin :: model_admin where
  "RecordAdmin =
     model_admin_of ''common.record''\<lparr>
     ad_list_display := [''title'', ''is_deleted'', ''created_at'', ''updated_at''],
     ad_list_filter := [''is_deleted''], ad_search_fields := [''title''],
     ad_readonly_fields := [''id'', ''created_at'', ''updated_at'', ''deleted_at'']\<rparr>"

definition TenantFeatureFlagAdmin :: model_admin where
  "TenantFeatureFlagAdmin =
     model_admin_of ''features.tenantfeatureflag''\<lparr>
     ad_list_display := [''flag_name'', ''tenant'', ''is_enabled'', ''source'', ''updated_at''],
     ad_list_filter := [''is_enabled'', ''source'', ''flag_name''],
     ad_search_fields := [''flag_name'', ''tenant__name'', ''note''],
     ad_ordering := [''flag_name'', ''tenant__name''],
     ad_readonly_fields := [''created_at'', ''updated_at'']\<rparr>"

definition TenantInvitationAdmin :: model_admin where
  "TenantInvitationAdmin =
     model_admin_of ''invitations.tenantinvitation''\<lparr>
     ad_list_display := [''email'', ''tenant'', ''role'', ''status'', ''invited_by'', ''expires_at'',
       ''created_at''],
     ad_list_filter := [''status'', ''role'', ''tenant''],
     ad_search_fields := [''email'', ''tenant__name'', ''invited_by__email''],
     ad_readonly_fields := [''id'', ''token'', ''created_at'', ''accepted_by''],
     ad_raw_id_fields := [''invited_by'', ''accepted_by'']\<rparr>"

definition NotificationAdmin :: model_admin where
  "NotificationAdmin =
     model_admin_of ''notifications.notification''\<lparr>
     ad_list_display := [''title'', ''user'', ''is_read'', ''created_at''], ad_list_filter := [''is_read''],
     ad_search_fields := [''title'', ''body'', ''user__username'', ''user__email''],
     ad_readonly_fields := [''id'', ''created_at''], ad_ordering := [''-created_at'']\<rparr>"

definition UserTenantRoleAdmin :: model_admin where
  "UserTenantRoleAdmin =
     model_admin_of ''rbac.usertenantrole''\<lparr>
     ad_list_display := [''user'', ''tenant'', ''role'', ''assigned_by'', ''created_at''],
     ad_list_filter := [''role'', ''tenant''], ad_search_fields := [''user__username'', ''tenant__name''],
     ad_raw_id_fields := [''user'', ''tenant'', ''assigned_by'']\<rparr>"

definition TenantAdmin :: model_admin where
  "TenantAdmin =
     model_admin_of ''tenants.tenant''\<lparr>
     ad_list_display := [''name'', ''schema_name'', ''is_active'', ''created_at''],
     ad_list_filter := [''is_active''], ad_search_fields := [''name'', ''schema_name'', ''slug''],
     ad_readonly_fields := [''id'', ''created_at'', ''updated_at''], ad_inlines := [DomainInline]\<rparr>"

definition DomainAdmin :: model_admin where
  "DomainAdmin =
     model_admin_of ''tenants.domain''\<lparr>
     ad_list_display := [''domain'', ''tenant'', ''is_primary''], ad_list_filter := [''is_primary''],
     ad_search_fields := [''domain'', ''tenant__name''], ad_raw_id_fields := [''tenant'']\<rparr>"

definition REGISTERED :: "model_admin list" where
  "REGISTERED =
     [AuditLogAdmin, PlanAdmin, SubscriptionAdmin, WebhookEventAdmin, RecordAdmin, TenantFeatureFlagAdmin,
      TenantInvitationAdmin, NotificationAdmin, UserTenantRoleAdmin, TenantAdmin, DomainAdmin]"

subsection \<open>The checks of the framework\<close>

text \<open>A lookup goes along references, the names joined by two underscores; of the framework's user model the
  columns the declarations name are given.\<close>

definition user_model :: model where
  "user_model = declared
     [(''id'', column_of BigAutoField\<lparr>cl_primary := True\<rparr>), (''username'', column_of (CharField 150)\<lparr>cl_unique := True\<rparr>),
      (''email'', column_of (EmailField 254)\<lparr>cl_blank := True\<rparr>)] [] [] []"

definition ALL_MODELS :: project_state where
  "ALL_MODELS = (AUTH_USER, user_model) # MODELS"

fun split_lookup :: "string \<Rightarrow> string list" where
  "split_lookup [] = [[]]"
| "split_lookup [c] = [[c]]"
| "split_lookup (c # d # s) =
     (if c = CHR ''_'' \<and> d = CHR ''_'' then [] # split_lookup s
      else (case split_lookup (d # s) of p # ps \<Rightarrow> (c # p) # ps | [] \<Rightarrow> [[c]]))"

fun find_column :: "project_state \<Rightarrow> string \<Rightarrow> string list \<Rightarrow> column option" where
  "find_column ms m [] = None"
| "find_column ms m [f] = Option.bind (map_of ms m) (\<lambda>md. map_of (md_fields md) f)"
| "find_column ms m (f # g # path) =
     (case Option.bind (map_of ms m) (\<lambda>md. map_of (md_fields md) f) of
        None \<Rightarrow> None
      | Some c \<Rightarrow> (case references c of [to] \<Rightarrow> find_column ms to (g # path) | _ \<Rightarrow> None))"

definition has_field :: "string \<Rightarrow> string \<Rightarrow> bool" where
  "has_field m f \<longleftrightarrow> find_column ALL_MODELS m [f] \<noteq> None"

definition is_relation :: "string \<Rightarrow> string \<Rightarrow> bool" where
  "is_relation m f \<longleftrightarrow> (case find_column ALL_MODELS m [f] of Some c \<Rightarrow> references c \<noteq> [] | None \<Rightarrow> False)"

text \<open>A text search needs a column that is not a reference at the end of its path.\<close>

definition searchable :: "string \<Rightarrow> string \<Rightarrow> bool" where
  "searchable m f \<longleftrightarrow> (case find_column ALL_MODELS m (split_lookup f) of Some c \<Rightarrow> references c = [] | None \<Rightarrow> False)"

definition sortable :: "string \<Rightarrow> string \<Rightarrow> bool" where
  "sortable m f \<longleftrightarrow> find_column ALL_MODELS m (split_lookup (dropWhile (\<lambda>c. c = CHR ''-'') f)) \<noteq> None"

definition inline_ok :: "string \<Rightarrow> inline \<Rightarrow> bool" where
  "inline_ok m i \<longleftrightarrow>
     list_all (has_field (in_model i)) (in_fields i) \<and>
     (case map_of ALL_MODELS (in_model i) of
        None \<Rightarrow> False | Some md \<Rightarrow> length (filter (\<lambda>(_, c). references c = [m]) (md_fields md)) = 1)"

definition admin_ok :: "model_admin \<Rightarrow> bool" where
  "admin_ok a \<longleftrightarrow> (let m = ad_model a in
     list_all (has_field m) (ad_list_display a @ ad_list_filter a @ ad_readonly_fields a) \<and>
     list_all (searchable m) (ad_search_fields a) \<and> list_all (sortable m) (ad_ordering a) \<and>
     list_all (is_relation m) (ad_raw_id_fields a) \<and>
     list_all (\<lambda>(f, fs). \<not> is_relation m f \<and> list_all (has_field m) (f # fs)) (ad_prepopulated_fields a) \<and>
     list_all (inline_ok m) (ad_inlines a))"

subsection \<open>Deleting a tenant\<close>

text \<open>The rows that reference a tenant, by model; all six references cascade.\<close>

definition cascaded :: "uuid \<Rightarrow> db \<Rightarrow> (string \<times> nat) list" where
  "cascaded t s =
     [(''tenants.domain'', qs_count (\<lambda>d. dm_tenant d = t) (domains s)),
      (''rbac.usertenantrole'', qs_count (\<lambda>r. ur_tenant r = t) (roles s)),
      (''invitations.tenantinvitation'', qs_count (\<lambda>i. iv_tenant i = t) (invitations s)),
      (''billing.subscription'', qs_count (\<lambda>x. sb_tenant x = t) (subscriptions s)),
      (''features.tenantfeatureflag'', qs_count (\<lambda>f. ff_tenant f = t) (feature_flags s)),
      (''audit.auditlog'', qs_count (\<lambda>a. al_tenant a = Some t) (audit_logs s))]"

definition delete_tenant :: "uuid \<Rightarrow> db \<Rightarrow> db" where
  "delete_tenant t s =
     s\<lparr>tenants := qs_delete (\<lambda>x. tn_id x = t) (tenants s),
       domains := qs_delete (\<lambda>d. dm_tenant d = t) (domains s),
       roles := qs_delete (\<lambda>r. ur_tenant r = t) (roles s),
       invitations := qs_delete (\<lambda>i. iv_tenant i = t) (invitations s),
       subscriptions := qs_delete (\<lambda>x. sb_tenant x = t) (subscriptions s),
       feature_flags := qs_delete (\<lambda>f. ff_tenant f = t) (feature_flags s),
       audit_logs := qs_delete (\<lambda>a. al_tenant a = Some t) (audit_logs s)\<rparr>"

definition may_delete :: "string \<Rightarrow> bool" where
  "may_delete m = (case find (\<lambda>a. ad_model a = m) REGISTERED of Some a \<Rightarrow> ad_has_delete a | None \<Rightarrow> True)"

definition admin_delete_tenant :: "uuid \<Rightarrow> db \<Rightarrow> db option" where
  "admin_delete_tenant t s =
     (if may_delete ''tenants.tenant'' \<and> list_all (\<lambda>(m, n). n = 0 \<or> may_delete m) (cascaded t s)
      then Some (delete_tenant t s) else None)"

subsection \<open>Lemmas\<close>

lemmas admin_defs = AuditLogAdmin_def PlanAdmin_def SubscriptionAdmin_def WebhookEventAdmin_def RecordAdmin_def
  TenantFeatureFlagAdmin_def TenantInvitationAdmin_def NotificationAdmin_def UserTenantRoleAdmin_def TenantAdmin_def
  DomainAdmin_def model_admin_of_def

lemma may_delete_iff: "may_delete m \<longleftrightarrow> m \<noteq> ''audit.auditlog''"
  by (auto simp: may_delete_def REGISTERED_def admin_defs)

lemma qs_count_0: "qs_count P t = 0 \<longleftrightarrow> (\<forall>r\<in>set t. \<not> P r)"
  by (auto simp: qs_count_def filter_empty_conv)

lemma admin_delete_tenant_iff:
  "admin_delete_tenant t s = (if \<exists>a\<in>set (audit_logs s). al_tenant a = Some t then None else Some (delete_tenant t s))"
  by (auto simp: admin_delete_tenant_def cascaded_def may_delete_iff qs_count_0)

lemma table_ok_delete_strong:
  "table_ok key P t \<Longrightarrow> (\<And>r. r \<in> set t \<Longrightarrow> P r \<Longrightarrow> \<not> D r \<Longrightarrow> Q r) \<Longrightarrow> table_ok key Q (qs_delete D t)"
  by (auto simp: table_ok_def list_all_iff tbl_ok_def distinct_map_delete)

lemma filter_pending_delete:
  "filter (\<lambda>i. iv_status i = PENDING) (qs_delete D is) = qs_delete D (filter (\<lambda>i. iv_status i = PENDING) is)"
  by (simp add: qs_delete_def conj_commute)

lemma find_delete: "(\<And>r. P r \<Longrightarrow> \<not> D r) \<Longrightarrow> find P (qs_delete D t) = find P t"
  by (induction t) (auto simp: qs_delete_def)

lemma tenant_of_deleted: "i \<noteq> t \<Longrightarrow> tenant_of (delete_tenant t s) i = tenant_of s i"
  by (auto simp: tenant_of_def delete_tenant_def intro!: find_delete)

text \<open>The cascade leaves no reference to the tenant.\<close>

lemma delete_tenant_db_ok:
  assumes ok: "db_ok s"
  shows "db_ok (delete_tenant t s)"
proof -
  let ?s = "delete_tenant t s"
  have U: "user_pks ?s = user_pks s" and T: "tenant_ids ?s = tenant_ids s - {t}"
    by (auto simp: user_pks_def tenant_ids_def delete_tenant_def)
  have "users_ok ?s" "list_all user_row (users ?s)" "totps_ok ?s" "tbl_ok pl_pk (plans ?s)"
    "tbl_ok we_stripe_event_id (webhook_events ?s)"
    "table_ok pf_user (profile_row (user_pks s)) (profiles ?s)" "list_all (\<lambda>t. tp_user t \<in> user_pks s) (totps ?s)"
    "table_ok nt_id (\<lambda>n. nt_user n \<in> user_pks s) (notifications ?s)"
    "table_ok ot_jti (\<lambda>t. null_or_in (user_pks s) (ot_user t)) (outstanding_tokens ?s)"
    using ok by (simp_all add: db_ok_def delete_tenant_def users_ok_def totps_ok_def)
  moreover have "tenancy_ok ?s"
  proof -
    have "domains ?s = qs_delete (\<lambda>d. dm_tenant d = t) (domains s)" "tenants ?s = qs_delete (\<lambda>x. tn_id x = t) (tenants s)"
      by (simp_all add: delete_tenant_def)
    with ok show ?thesis
      by (auto simp: db_ok_def tenancy_ok_def tbl_ok_def distinct_map_delete list_all_iff tenant_of_deleted)
  qed
  moreover have "table_ok role_key (role_row (user_pks s) (tenant_ids ?s)) (roles ?s)"
    "table_ok flag_key (\<lambda>f. ff_tenant f \<in> tenant_ids ?s) (feature_flags ?s)"
    using ok unfolding T
    by (auto simp: db_ok_def delete_tenant_def role_row_def intro!: table_ok_delete_strong)
  moreover have "invitations_ok ?s" "list_all (invitation_refs (user_pks s)) (invitations ?s)"
  proof -
    have "invitations ?s = qs_delete (\<lambda>i. iv_tenant i = t) (invitations s)" by (simp add: delete_tenant_def)
    with ok show "invitations_ok ?s" "list_all (invitation_refs (user_pks s)) (invitations ?s)"
      by (auto simp: db_ok_def invitations_ok_def tbl_ok_def distinct_map_delete list_all_iff tenant_of_deleted
          filter_pending_delete)
  qed
  moreover have "subs_ok ?s"
  proof -
    have "subscriptions ?s = qs_delete (\<lambda>x. sb_tenant x = t) (subscriptions s)" by (simp add: delete_tenant_def)
    moreover have "subs_ok s" using ok by (simp add: db_ok_def)
    ultimately show ?thesis by (simp add: subs_ok_def tbl_ok_def distinct_map_delete) blast
  qed
  moreover have "list_all (subscription_refs (tenant_ids ?s) (plans ?s)) (subscriptions ?s)"
  proof -
    have "list_all (subscription_refs (tenant_ids s) (plans s)) (subscriptions s)" using ok by (simp add: db_ok_def)
    then show ?thesis unfolding T by (auto simp: delete_tenant_def list_all_iff subscription_refs_def)
  qed
  moreover have "list_all (audit_refs (user_pks s) (tenant_ids ?s)) (audit_logs ?s)"
  proof -
    have "list_all (audit_refs (user_pks s) (tenant_ids s)) (audit_logs s)" using ok by (simp add: db_ok_def)
    then show ?thesis unfolding T
      by (auto simp: delete_tenant_def list_all_iff audit_refs_def null_or_in_def split: option.splits)
  qed
  ultimately show ?thesis unfolding db_ok_def U by blast
qed

subsection \<open>Properties\<close>

text \<open>What the declarations name exists: each registered model once, every listed, filtered, searched, sorted
  or read-only field a column of it, every search ending in a column that is not a reference, every inline
  with exactly one reference to its parent.\<close>

theorem admin_declarations_valid:
  "list_all admin_ok REGISTERED \<and> distinct (map ad_model REGISTERED) \<and>
   list_all (\<lambda>a. map_of MODELS (ad_model a) \<noteq> None) REGISTERED"
  by code_simp




end
