(* ===== verification/Races.thy ===== *)
theory Races
  imports Invitations
begin

text \<open>
  Requests served at the same time. A request of a kind is cut into its database statements, one phase each, and
  the requests take turns in any order; a statement is atomic, as is a statement of the database. Two
  endpoints are cut open: the Stripe webhook (\<open>apps/billing/views.py\<close>), whose comment promises that concurrent
  deliveries cannot both insert, and the acceptance of an invitation
  (\<open>services/invitations/invitation_service.py\<close>), which takes no lock. Run alone, the phases are the
  functions of \<open>Billing\<close> and \<open>Invitations\<close>. \<open>get_or_create\<close> is the framework's: look up, insert, and after a
  violated constraint look up again.
\<close>

subsection \<open>Deliveries of Stripe events\<close>

record stripe_delivery =
  sd_id :: string
  sd_type :: string
  sd_object :: stripe_object

datatype delivery_phase = Arrived | Missed | Lost | Recorded | Answered "string response"

fun delivery_step :: "instant \<Rightarrow> stripe_delivery \<Rightarrow> delivery_phase \<Rightarrow> db \<Rightarrow> delivery_phase \<times> db" where
  "delivery_step now d Arrived s =
     (case qs_get (\<lambda>w. we_stripe_event_id w = sd_id d) (webhook_events s) of
        Inr _ \<Rightarrow> (Answered (Response 200 ''duplicate''), s)
      | Inl e \<Rightarrow> if e = DoesNotExist then (Missed, s) else (Answered (Uncaught e), s))"
| "delivery_step now d Missed s =
     (if qs_exists (\<lambda>w. we_stripe_event_id w = sd_id d) (webhook_events s) then (Lost, s)
      else (Recorded, s\<lparr>webhook_events := webhook_events s @
              [\<lparr>we_stripe_event_id = sd_id d, we_event_type = sd_type d, we_processed_at = now,
                we_payload = sd_object d\<rparr>]\<rparr>))"
| "delivery_step now d Lost s =
     (case qs_get (\<lambda>w. we_stripe_event_id w = sd_id d) (webhook_events s) of
        Inr _ \<Rightarrow> (Answered (Response 200 ''duplicate''), s)
      | Inl _ \<Rightarrow> (Answered (Uncaught IntegrityError), s))"
| "delivery_step now d Recorded s =
     (case delay (Handle_stripe_event (sd_id d) (sd_type d) (sd_object d)) s of
        (Inl e, s') \<Rightarrow> (Answered (Uncaught e), s')
      | (Inr _, s') \<Rightarrow> (Answered (Response 200 ''queued''), s'))"
| "delivery_step now d (Answered r) s = (Answered r, s)"

text \<open>A turn of delivery number \<open>i\<close>, or of the worker; \<open>started\<close> collects the events whose processing began.\<close>

datatype delivery_turn = Turn nat instant | Worker_turn instant

type_synonym delivery_race = "(nat \<Rightarrow> delivery_phase) \<times> db \<times> string list"

fun race_step :: "(nat \<Rightarrow> stripe_delivery) \<Rightarrow> delivery_race \<Rightarrow> delivery_turn \<Rightarrow> delivery_race" where
  "race_step ds (ph, s, started) (Turn i now) =
     (case delivery_step now (ds i) (ph i) s of (p, s') \<Rightarrow> (ph(i := p), s', started))"
| "race_step ds (ph, s, started) (Worker_turn now) =
     (case queue s of
        [] \<Rightarrow> (ph, s, started)
      | t # q \<Rightarrow> (ph, run_task now t (s\<lparr>queue := q\<rparr>), started @ stripe_ids [t]))"

text \<open>A delivery that is never interrupted is the view.\<close>

lemma delivery_alone:
  assumes "webhook_secret \<noteq> []" and "sd_type d \<in> set HANDLED_EVENTS"
    and "construct_event body (str_get (rq_META rq ''HTTP_STRIPE_SIGNATURE'') []) webhook_secret =
      Event (sd_id d) (sd_type d) (sd_object d)"
  shows "((\<lambda>(p, s). delivery_step now d p s) ^^ 3) (Arrived, s) =
    (case StripeWebhookView_post construct_event webhook_secret now body rq s of (r, s') \<Rightarrow> (Answered r, s'))"
proof (cases "qs_get (\<lambda>w. we_stripe_event_id w = sd_id d) (webhook_events s)")
  case (Inl e)
  show ?thesis
  proof (cases "e = DoesNotExist")
    case True
    with Inl have "\<not> qs_exists (\<lambda>w. we_stripe_event_id w = sd_id d) (webhook_events s)"
      by (simp add: qs_get_DoesNotExist)
    with assms Inl True show ?thesis
      by (simp add: StripeWebhookView_post_def get_or_create_def delay_def numeral_3_eq_3 split: prod.splits sum.splits)
  qed (use assms Inl in \<open>simp add: StripeWebhookView_post_def get_or_create_def numeral_3_eq_3\<close>)
qed (use assms in \<open>simp add: StripeWebhookView_post_def get_or_create_def numeral_3_eq_3\<close>)

subsection \<open>The invariant of the deliveries\<close>

definition recorded :: "db \<Rightarrow> string set" where
  "recorded s = we_stripe_event_id ` set (webhook_events s)"

definition answered_ok :: "delivery_phase \<Rightarrow> bool" where
  "answered_ok p \<longleftrightarrow> (\<exists>n m. p = Answered (Response n m))"

definition failed :: "delivery_phase \<Rightarrow> bool" where
  "failed p \<longleftrightarrow> (\<exists>e. p = Answered (Uncaught e))"

text \<open>On the phases, the set \<open>R\<close> of recorded events and the list \<open>L\<close> of those processed or queued.\<close>

definition race_core :: "(nat \<Rightarrow> stripe_delivery) \<Rightarrow> (nat \<Rightarrow> delivery_phase) \<Rightarrow> string set \<Rightarrow> string list \<Rightarrow> bool" where
  "race_core ds ph R L \<longleftrightarrow>
     distinct L \<and> set L \<subseteq> R \<and>
     (\<forall>i. ph i = Lost \<or> ph i = Recorded \<or> answered_ok (ph i) \<longrightarrow> sd_id (ds i) \<in> R) \<and>
     (\<forall>i. ph i = Recorded \<longrightarrow> sd_id (ds i) \<notin> set L) \<and>
     (\<forall>i j. ph i = Recorded \<and> ph j = Recorded \<and> sd_id (ds i) = sd_id (ds j) \<longrightarrow> i = j) \<and>
     (\<forall>x\<in>R. x \<in> set L \<or> (\<exists>i. sd_id (ds i) = x \<and> (ph i = Recorded \<or> failed (ph i))))"

fun race_inv :: "(nat \<Rightarrow> stripe_delivery) \<Rightarrow> delivery_race \<Rightarrow> bool" where
  "race_inv ds (ph, s, started) \<longleftrightarrow>
     tbl_ok we_stripe_event_id (webhook_events s) \<and> race_core ds ph (recorded s) (started @ stripe_ids (queue s))"

lemma lookup_recorded:
  "tbl_ok we_stripe_event_id (webhook_events s) \<Longrightarrow>
     (case qs_get (\<lambda>w. we_stripe_event_id w = x) (webhook_events s) of
        Inr _ \<Rightarrow> x \<in> recorded s | Inl e \<Rightarrow> e = DoesNotExist \<and> x \<notin> recorded s)"
  unfolding tbl_ok_def recorded_def
  by (cases rule: qs_get_key_cases [where key = we_stripe_event_id and t = "webhook_events s" and k = x]) auto

lemma run_task_frame:
  "webhook_events (run_task now t s) = webhook_events s \<and> stripe_ids (queue (run_task now t s)) = stripe_ids (queue s)"
  by (cases t) (simp_all add: run_task_def handle_event_frame)

lemma stripe_ids_snoc: "stripe_ids (q @ [Handle_stripe_event i ty obj]) = stripe_ids q @ [i]"
  by (simp add: stripe_ids_def)

text \<open>What keeps the invariant: a phase that changes without a write, a new event, an event queued.\<close>

lemma phase_update_ex:
  assumes "\<exists>j. sd_id (ds j) = x \<and> (ph j = Recorded \<or> failed (ph j))"
    and "sd_id (ds i) = x \<Longrightarrow> ph i = Recorded \<or> failed (ph i) \<Longrightarrow> p = Recorded \<or> failed p"
  shows "\<exists>j. sd_id (ds j) = x \<and> ((ph(i := p)) j = Recorded \<or> failed ((ph(i := p)) j))"
proof -
  from assms(1) obtain j where j: "sd_id (ds j) = x" "ph j = Recorded \<or> failed (ph j)" by blast
  with assms(2) show ?thesis by (intro exI [of _ j]) auto
qed

lemma race_core_phase:
  assumes inv: "race_core ds ph R L" and old: "ph i \<noteq> Recorded" "\<not> failed (ph i)"
    and new: "p \<noteq> Recorded" "p = Lost \<or> answered_ok p \<longrightarrow> sd_id (ds i) \<in> R"
  shows "race_core ds (ph(i := p)) R L"
  unfolding race_core_def
proof (intro conjI)
  show "\<forall>x\<in>R. x \<in> set L \<or> (\<exists>j. sd_id (ds j) = x \<and> ((ph(i := p)) j = Recorded \<or> failed ((ph(i := p)) j)))"
    using inv old unfolding race_core_def by (metis phase_update_ex)
qed (use inv new in \<open>auto simp: race_core_def\<close>)

lemma race_core_record:
  assumes inv: "race_core ds ph R L" and old: "ph i = Missed" and fresh: "sd_id (ds i) \<notin> R"
  shows "race_core ds (ph(i := Recorded)) (insert (sd_id (ds i)) R) L"
  unfolding race_core_def
proof (intro conjI)
  show "\<forall>x\<in>insert (sd_id (ds i)) R. x \<in> set L \<or>
      (\<exists>j. sd_id (ds j) = x \<and> ((ph(i := Recorded)) j = Recorded \<or> failed ((ph(i := Recorded)) j)))"
  proof
    fix x assume x: "x \<in> insert (sd_id (ds i)) R"
    show "x \<in> set L \<or> (\<exists>j. sd_id (ds j) = x \<and> ((ph(i := Recorded)) j = Recorded \<or> failed ((ph(i := Recorded)) j)))"
    proof (cases "x = sd_id (ds i)")
      case False
      with x inv show ?thesis unfolding race_core_def by (metis insertE phase_update_ex)
    qed auto
  qed
  show "\<forall>a b. (ph(i := Recorded)) a = Recorded \<and> (ph(i := Recorded)) b = Recorded \<and> sd_id (ds a) = sd_id (ds b) \<longrightarrow> a = b"
  proof (intro allI impI)
    fix a b assume ab: "(ph(i := Recorded)) a = Recorded \<and> (ph(i := Recorded)) b = Recorded \<and> sd_id (ds a) = sd_id (ds b)"
    have other: "sd_id (ds j) \<in> R" if "ph j = Recorded" for j using inv that unfolding race_core_def by blast
    show "a = b"
      using ab inv fresh other [of a] other [of b] unfolding race_core_def by (metis fun_upd_other)
  qed
qed (use inv fresh in \<open>auto simp: race_core_def\<close>)

lemma race_core_queue:
  assumes inv: "race_core ds ph R L" and old: "ph i = Recorded"
  shows "race_core ds (ph(i := Answered (Response n m))) R (L @ [sd_id (ds i)])"
    and "race_core ds (ph(i := Answered (Uncaught e))) R L"
proof -
  have R: "sd_id (ds i) \<in> R" and L: "sd_id (ds i) \<notin> set L" using inv old unfolding race_core_def by blast+
  have one: "sd_id (ds j) \<noteq> sd_id (ds i)" if "ph j = Recorded" "j \<noteq> i" for j
    using inv old that unfolding race_core_def by metis
  show "race_core ds (ph(i := Answered (Response n m))) R (L @ [sd_id (ds i)])"
    unfolding race_core_def
  proof (intro conjI)
    show "\<forall>x\<in>R. x \<in> set (L @ [sd_id (ds i)]) \<or> (\<exists>j. sd_id (ds j) = x \<and>
        ((ph(i := Answered (Response n m))) j = Recorded \<or> failed ((ph(i := Answered (Response n m))) j)))"
    proof
      fix x assume x: "x \<in> R"
      show "x \<in> set (L @ [sd_id (ds i)]) \<or> (\<exists>j. sd_id (ds j) = x \<and>
        ((ph(i := Answered (Response n m))) j = Recorded \<or> failed ((ph(i := Answered (Response n m))) j)))"
      proof (cases "x = sd_id (ds i)")
        case False
        with x inv show ?thesis unfolding race_core_def by (metis UnCI phase_update_ex set_append)
      qed simp
    qed
  qed (use inv R L one in \<open>auto simp: race_core_def\<close>)
  show "race_core ds (ph(i := Answered (Uncaught e))) R L"
    unfolding race_core_def
  proof (intro conjI)
    show "\<forall>x\<in>R. x \<in> set L \<or> (\<exists>j. sd_id (ds j) = x \<and>
        ((ph(i := Answered (Uncaught e))) j = Recorded \<or> failed ((ph(i := Answered (Uncaught e))) j)))"
      using inv unfolding race_core_def by (metis failed_def phase_update_ex)
  qed (use inv in \<open>auto simp: race_core_def answered_ok_def\<close>)
qed

lemma race_inv_turn:
  assumes inv: "race_inv ds (ph, s, started)"
  shows "race_inv ds (race_step ds (ph, s, started) (Turn i now))"
proof -
  let ?d = "sd_id (ds i)"
  from inv have keys: "tbl_ok we_stripe_event_id (webhook_events s)"
    and core: "race_core ds ph (recorded s) (started @ stripe_ids (queue s))" by simp_all
  note look = lookup_recorded [OF keys, of ?d]
  show ?thesis
  proof (cases "ph i")
    case Arrived
    then show ?thesis using look keys
      by (auto simp: answered_ok_def failed_def intro!: race_core_phase [OF core] split: sum.splits)
  next
    case Missed
    have ex: "qs_exists (\<lambda>w. we_stripe_event_id w = ?d) (webhook_events s) \<longleftrightarrow> ?d \<in> recorded s"
      by (auto simp: recorded_def) (metis imageI)
    show ?thesis
    proof (cases "?d \<in> recorded s")
      case True
      with Missed ex keys show ?thesis
        by (auto simp: answered_ok_def failed_def simp del: qs_exists_iff intro!: race_core_phase [OF core])
    next
      case False
      let ?w = "\<lparr>we_stripe_event_id = ?d, we_event_type = sd_type (ds i), we_processed_at = now, we_payload = sd_object (ds i)\<rparr>"
      have "tbl_ok we_stripe_event_id (webhook_events s @ [?w])" using keys False by (auto simp: tbl_ok_def recorded_def)
      moreover have "recorded (s\<lparr>webhook_events := webhook_events s @ [?w]\<rparr>) = insert ?d (recorded s)"
        by (simp add: recorded_def)
      ultimately show ?thesis using Missed False ex race_core_record [OF core Missed False]
        by (simp del: qs_exists_iff)
    qed
  next
    case Lost
    then have "?d \<in> recorded s" using core unfolding race_core_def by blast
    with look obtain r where "qs_get (\<lambda>w. we_stripe_event_id w = ?d) (webhook_events s) = Inr r" by (auto split: sum.splits)
    with Lost keys \<open>?d \<in> recorded s\<close> show ?thesis
      by (auto simp: answered_ok_def failed_def intro!: race_core_phase [OF core])
  next
    case Recorded
    then show ?thesis using keys race_core_queue [OF core Recorded]
      by (simp add: delay_def stripe_ids_snoc recorded_def)
  qed (use inv in \<open>simp add: fun_upd_idem\<close>)
qed

lemma race_inv_worker:
  assumes inv: "race_inv ds (ph, s, started)"
  shows "race_inv ds (race_step ds (ph, s, started) (Worker_turn now))"
proof (cases "queue s")
  case (Cons t q)
  let ?s = "run_task now t (s\<lparr>queue := q\<rparr>)"
  have L: "(started @ stripe_ids [t]) @ stripe_ids (queue ?s) = started @ stripe_ids (queue s)"
    and ws: "webhook_events ?s = webhook_events s"
    using run_task_frame [of now t "s\<lparr>queue := q\<rparr>"] stripe_ids_Cons [of t q] Cons by simp_all
  have "race_inv ds (ph, ?s, started @ stripe_ids [t])"
    using inv unfolding race_inv.simps L ws recorded_def .
  then show ?thesis by (simp add: Cons)
qed (use inv in simp)

lemma race_inv_step: "race_inv ds w \<Longrightarrow> race_inv ds (race_step ds w e)"
  by (cases w; cases e) (simp_all add: race_inv_turn race_inv_worker del: race_step.simps race_inv.simps)

interpretation delivery_machine: preserved "race_step ds" "\<lambda>_ _. True" "race_inv ds" for ds
  by unfold_locales (rule race_inv_step)

lemma delivery_admitted: "delivery_machine.admitted ds w es"
  by (induction es arbitrary: w) simp_all

lemma delivery_start:
  "webhook_events s = [] \<Longrightarrow> stripe_ids (queue s) = [] \<Longrightarrow> race_inv ds (\<lambda>_. Arrived, s, [])"
  by (simp add: race_core_def recorded_def tbl_ok_def answered_ok_def)


text \<open>Two deliveries of one event: both find no row, the second insert violates the constraint, one task.\<close>

definition twice :: "nat \<Rightarrow> stripe_delivery" where
  "twice i = \<lparr>sd_id = ''e1'', sd_type = ''invoice.payment_failed'', sd_object = invoice ''sub_t1''\<rparr>"


subsection \<open>Acceptances of invitations\<close>

record acceptor =
  ac_user :: user
  ac_token :: string
  ac_role_id :: uuid

datatype acceptance =
    Opening | Expiring tenant_invitation | Checking tenant_invitation tenant | Joining tenant_invitation tenant
  | Joined tenant_invitation tenant | Refused exn | Taken tenant_invitation

text \<open>The statements: read the invitation; mark it expired; look for a membership; assign the role; save the
  invitation. Each save writes the columns it names.\<close>

fun acceptance_step :: "instant \<Rightarrow> acceptor \<Rightarrow> acceptance \<Rightarrow> db \<Rightarrow> acceptance \<times> db" where
  "acceptance_step now a Opening s =
     (case qs_get (\<lambda>i. iv_token i = ac_token a \<and> tenant_of s (iv_tenant i) \<noteq> None) (invitations s) of
        Inl e \<Rightarrow> (Refused (if e = DoesNotExist then NotFoundServiceError ''Invitation not found.'' else e), s)
      | Inr i \<Rightarrow>
          if iv_status i \<noteq> PENDING
          then (Refused (NotFoundServiceError ''This invitation has already been used or revoked.''), s)
          else if is_expired now i then (Expiring i, s)
          else (case tenant_of s (iv_tenant i) of None \<Rightarrow> (Refused DoesNotExist, s) | Some t \<Rightarrow> (Checking i t, s)))"
| "acceptance_step now a (Expiring i) s =
     (Refused (ValidationServiceError ''This invitation has expired.''),
      s\<lparr>invitations := qs_update (\<lambda>x. iv_id x = iv_id i) (\<lambda>x. x\<lparr>iv_status := EXPIRED\<rparr>) (invitations s)\<rparr>)"
| "acceptance_step now a (Checking i t) s =
     (if qs_exists (\<lambda>r. role_key r = (us_pk (ac_user a), tn_id t)) (roles s)
      then (Refused (ConflictServiceError ''You are already a member of this tenant.''), s) else (Joining i t, s))"
| "acceptance_step now a (Joining i t) s =
     (case assign_role now (ac_role_id a) (ac_user a) t (iv_role i) (Option.bind (iv_invited_by i) (user_of s)) s of
        (Inl e, s') \<Rightarrow> (Refused e, s') | (Inr _, s') \<Rightarrow> (Joined i t, s'))"
| "acceptance_step now a (Joined i t) s =
     (let i' = i\<lparr>iv_status := ACCEPTED, iv_accepted_by := Some (us_pk (ac_user a))\<rparr>
      in (Taken i', AuditService_log now ''invitation_accepted'' None (Some (tn_id t)) (Some (ac_user a))
            ''TenantInvitation'' (iv_id i) [(''email'', iv_email i), (''role'', iv_role i)] (save_invitation i' s)))"
| "acceptance_step now a (Refused e) s = (Refused e, s)"
| "acceptance_step now a (Taken i) s = (Taken i, s)"

type_synonym acceptance_race = "(nat \<Rightarrow> acceptance) \<times> db"

fun accept_turn :: "(nat \<Rightarrow> acceptor) \<Rightarrow> acceptance_race \<Rightarrow> nat \<times> instant \<Rightarrow> acceptance_race" where
  "accept_turn as (ph, s) (i, now) = (case acceptance_step now (as i) (ph i) s of (p, s') \<Rightarrow> (ph(i := p), s'))"

text \<open>An acceptance that is never interrupted is the service.\<close>

lemma acceptance_alone:
  assumes keys: "tbl_ok iv_id (invitations s)"
  shows "((\<lambda>(p, s). acceptance_step now \<lparr>ac_user = u, ac_token = token, ac_role_id = rid\<rparr> p s) ^^ 4) (Opening, s) =
    (case accept_invitation now rid token u s of (Inl e, s') \<Rightarrow> (Refused e, s') | (Inr i, s') \<Rightarrow> (Taken i, s'))"
proof -
  have four: "f ^^ 4 = f \<circ> f \<circ> f \<circ> f" for f :: "'x \<Rightarrow> 'x" by (simp add: eval_nat_numeral comp_assoc)
  have expire: "qs_update (\<lambda>x. iv_id x = iv_id i) (\<lambda>x. x\<lparr>iv_status := EXPIRED\<rparr>) (invitations s) =
      invitations (save_invitation (i\<lparr>iv_status := EXPIRED\<rparr>) s)" if "i \<in> set (invitations s)" for i
  proof -
    have "r = i" if "r \<in> set (invitations s)" "iv_id r = iv_id i" for r
      using that \<open>i \<in> set (invitations s)\<close> keys unfolding tbl_ok_def by (metis distinct_map inj_onD)
    then have "r\<lparr>iv_status := EXPIRED\<rparr> = r\<lparr>iv_status := EXPIRED, iv_accepted_by := iv_accepted_by i\<rparr>"
      if "r \<in> set (invitations s)" "iv_id r = iv_id i" for r
      using that by (cases i) simp
    then show ?thesis unfolding save_invitation_def by (auto intro!: qs_update_cong)
  qed
  have save: "s\<lparr>invitations := invitations (save_invitation j s)\<rparr> = save_invitation j s" for j
    by (simp add: save_invitation_def)
  show ?thesis
  proof (cases "qs_get (\<lambda>i. iv_token i = token \<and> tenant_of s (iv_tenant i) \<noteq> None) (invitations s)")
    case (Inr i)
    then have "i \<in> set (invitations s)" by (auto dest: qs_get_Inr)
    with Inr show ?thesis
      by (auto simp: four accept_invitation_def Let_def expire save split: option.splits sum.splits prod.splits)
  qed (simp add: four accept_invitation_def)
qed

subsection \<open>What concurrent acceptances can do\<close>

definition invited :: "instant \<Rightarrow> db \<Rightarrow> acceptor \<Rightarrow> tenant_invitation \<Rightarrow> bool" where
  "invited t0 s a j \<longleftrightarrow> j \<in> set (invitations s) \<and> iv_token j = ac_token a \<and> is_usable t0 j"

fun phase_ok :: "instant \<Rightarrow> db \<Rightarrow> acceptor \<Rightarrow> acceptance \<Rightarrow> bool" where
  "phase_ok t0 s a (Checking j t) = (invited t0 s a j \<and> tn_id t = iv_tenant j)"
| "phase_ok t0 s a (Joining j t) = (invited t0 s a j \<and> tn_id t = iv_tenant j)"
| "phase_ok t0 s a (Joined j t) = (invited t0 s a j \<and> tn_id t = iv_tenant j)"
| "phase_ok t0 s a _ = True"

definition granted_by :: "instant \<Rightarrow> db \<Rightarrow> (nat \<Rightarrow> acceptor) \<Rightarrow> pk \<times> uuid \<Rightarrow> string option \<Rightarrow> bool" where
  "granted_by t0 s as k new \<longleftrightarrow>
     (\<exists>i j. invited t0 s (as i) j \<and> k = (us_pk (ac_user (as i)), iv_tenant j) \<and> new = Some (iv_role j))"

fun accept_inv :: "instant \<Rightarrow> db \<Rightarrow> (nat \<Rightarrow> acceptor) \<Rightarrow> acceptance_race \<Rightarrow> bool" where
  "accept_inv t0 s0 as (ph, s) \<longleftrightarrow>
     roles_ok s \<and>
     (\<forall>j\<in>set (invitations s). iv_status j = PENDING \<longrightarrow> j \<in> set (invitations s0)) \<and>
     (\<forall>i. phase_ok t0 s0 (as i) (ph i)) \<and>
     (\<forall>k. role_map s k \<noteq> role_map s0 k \<longrightarrow> granted_by t0 s0 as k (role_map s k))"

lemma pending_after_update:
  "\<lbrakk>\<forall>j\<in>set is. iv_status j = PENDING \<longrightarrow> j \<in> A; \<And>x. iv_status (f x) \<noteq> PENDING\<rbrakk> \<Longrightarrow>
     \<forall>j\<in>set (qs_update P f is). iv_status j = PENDING \<longrightarrow> j \<in> A"
  by (auto simp: qs_update_def)

lemma accept_inv_turn:
  assumes inv: "accept_inv t0 s0 as (ph, s)" and time: "t0 \<le> now"
  shows "accept_inv t0 s0 as (accept_turn as (ph, s) (i, now))"
proof (cases "ph i")
  case Opening
  then show ?thesis using inv time
    by (auto simp: invited_def is_usable_def is_expired_def tenant_of_def find_Some_iff dest!: qs_get_Inr
        split: sum.splits option.splits)
next
  case (Expiring j)
  with inv show ?thesis
    by (auto simp: roles_ok_def role_map_def intro!: pending_after_update)
next
  case (Checking j t)
  then have "phase_ok t0 s0 (as i) (Checking j t)" using inv by (metis accept_inv.simps)
  with inv Checking show ?thesis by auto
next
  case (Joining j t)
  then have ok: "phase_ok t0 s0 (as i) (Joining j t)" using inv by (metis accept_inv.simps)
  obtain r s' where run: "assign_role now (ac_role_id (as i)) (ac_user (as i)) t (iv_role j)
      (Option.bind (iv_invited_by j) (user_of s)) s = (r, s')" by fastforce
  have "roles_ok s" using inv by simp
  from run this show ?thesis
  proof (rule assign_role_cases)
    fix m assume "r = Inl (ValidationServiceError m)" "s' = s"
    with inv Joining run show ?thesis by simp
  next
    fix obj assume r: "r = Inr obj" and roles: "roles_ok s'"
      "role_map s' = (role_map s)((us_pk (ac_user (as i)), tn_id t) \<mapsto> iv_role j)"
      and s': "s' = AuditService_log now ''role_assigned'' None (Some (tn_id t)) (Option.bind (iv_invited_by j) (user_of s))
        ''User'' (str_nat (us_pk (ac_user (as i)))) [(''role'', iv_role j), (''target_email'', us_email (ac_user (as i)))]
        (s\<lparr>roles := roles s'\<rparr>)"
    have "invitations s' = invitations s" by (subst s') (simp add: AuditService_log_def Let_def)
    moreover have "granted_by t0 s0 as (us_pk (ac_user (as i)), tn_id t) (Some (iv_role j))"
      using ok unfolding granted_by_def by auto
    ultimately show ?thesis using inv Joining run r roles ok by auto
  qed
next
  case (Joined j t)
  have "roles (snd (acceptance_step now (as i) (Joined j t) s)) = roles s"
    "invitations (snd (acceptance_step now (as i) (Joined j t) s)) =
      invitations (save_invitation (j\<lparr>iv_status := ACCEPTED, iv_accepted_by := Some (us_pk (ac_user (as i)))\<rparr>) s)"
    by (simp_all add: AuditService_log_def Let_def)
  with inv Joined show ?thesis
    by (auto simp: roles_ok_def role_map_def save_invitation_def Let_def intro!: pending_after_update)
qed (use inv in \<open>auto simp: fun_upd_idem\<close>)

interpretation accept_machine: preserved "accept_turn as" "\<lambda>_ (e :: nat \<times> instant). t0 \<le> snd e" "accept_inv t0 s0 as" for as t0 s0
proof
  fix w and e :: "nat \<times> instant" assume "accept_inv t0 s0 as w" "t0 \<le> snd e"
  then show "accept_inv t0 s0 as (accept_turn as w e)"
    by (cases w; cases e) (simp del: accept_turn.simps accept_inv.simps add: accept_inv_turn)
qed

lemma accept_start: "roles_ok s \<Longrightarrow> accept_inv t0 s as (\<lambda>_. Opening, s)"
  by simp

lemma accept_admitted: "list_all (\<lambda>e. t0 \<le> snd e) es \<Longrightarrow> accept_machine.admitted as t0 w es"
  by (induction es arbitrary: w) simp_all


text \<open>The acceptances of two people at once: both read the invitation before either saves it.\<close>

definition pair_of :: "acceptor \<Rightarrow> acceptor \<Rightarrow> nat \<Rightarrow> acceptor" where
  "pair_of a b n = (if n = 0 then a else b)"

definition lockstep :: "instant \<Rightarrow> (nat \<times> instant) list" where
  "lockstep now = [(0, now), (1, now), (0, now), (1, now), (0, now), (1, now), (0, now), (1, now)]"

lemma not_member: "roles_ok s \<Longrightarrow> role_map s k = None \<Longrightarrow> \<not> qs_exists (\<lambda>r. role_key r = k) (roles s)"
  by (auto simp: role_map_def tbl_lookup_def find_None_iff)

text \<open>An invitation token can be redeemed by two people. The read of the invitation and the save that closes it
  are separate statements without a lock, so when two users who are not members accept one open invitation
  at the same time, both are told that they joined and both get its role.\<close>

theorem token_redeemed_twice:
  assumes ok: "invitations_ok s" "roles_ok s" and row: "tbl_lookup iv_token (invitations s) token = Some i"
    and open_row: "is_usable now i" and users: "us_pk u \<noteq> us_pk v"
    and out: "role_map s (us_pk u, iv_tenant i) = None" "role_map s (us_pk v, iv_tenant i) = None"
    and run: "foldl (accept_turn (pair_of \<lparr>ac_user = u, ac_token = token, ac_role_id = k\<rparr>
      \<lparr>ac_user = v, ac_token = token, ac_role_id = l\<rparr>)) (\<lambda>_. Opening, s) (lockstep now) = (ph, s')"
  shows "(\<exists>a b. ph 0 = Taken a \<and> ph 1 = Taken b) \<and>
    role_map s' (us_pk u, iv_tenant i) = Some (iv_role i) \<and> role_map s' (us_pk v, iv_tenant i) = Some (iv_role i)"
proof -
  have i: "i \<in> set (invitations s)" "iv_token i = token" using row by (auto simp: tbl_lookup_def find_Some_iff)
  then obtain t where t: "tenant_of s (iv_tenant i) = Some t" and role: "iv_role i \<in> set RoleChoices_values"
    using ok(1) by (auto simp: invitations_ok_def list_all_iff)
  then have id: "tn_id t = iv_tenant i" by (auto simp: tenant_of_def find_Some_iff)
  have get: "qs_get (\<lambda>i. iv_token i = token \<and> (\<exists>y. tenant_of s (iv_tenant i) = Some y)) (invitations s) = Inr i"
    using get_invitation [OF ok(1), of token] row by simp
  obtain o1 s1 where 1: "assign_role now k u t (iv_role i) (Option.bind (iv_invited_by i) (user_of s)) s = (Inr o1, s1)"
    "roles_ok s1" "role_map s1 = (role_map s)((us_pk u, tn_id t) \<mapsto> iv_role i)"
    using assign_role_effect [OF ok(2) role] by metis
  obtain o2 s2 where 2: "assign_role now l v t (iv_role i) (Option.bind (iv_invited_by i) (user_of s1)) s1 = (Inr o2, s2)"
    "role_map s2 = (role_map s1)((us_pk v, tn_id t) \<mapsto> iv_role i)"
    using assign_role_effect [OF 1(2) role] by metis
  note out' = not_member [OF ok(2) out(1)] not_member [OF ok(2) out(2)]
  have final: "roles s' = roles s2" "\<exists>a b. ph 0 = Taken a \<and> ph 1 = Taken b"
    using run get t id open_row 1(1) 2(1) out'
    by (auto simp: lockstep_def pair_of_def is_usable_def AuditService_log_def Let_def)
  then have "role_map s' = role_map s2" by (intro role_map_roles) simp
  with final(2) 1(3) 2(2) id users show ?thesis by simp
qed

definition both :: "nat \<Rightarrow> acceptor" where
  "both = pair_of \<lparr>ac_user = alice, ac_token = ''k'', ac_role_id = ''r8''\<rparr> \<lparr>ac_user = bob, ac_token = ''k'', ac_role_id = ''r9''\<rparr>"

theorem token_redeemed_twice_witness:
  "let w = foldl (accept_turn both) (\<lambda>_. Opening, demo_db\<lparr>invitations := [invite_row ''k'']\<rparr>) (lockstep 5) in
     role_map (snd w) (1, ''t1'') = Some ''admin'' \<and> role_map (snd w) (2, ''t1'') = Some ''admin''"
proof -
  let ?s = "demo_db\<lparr>invitations := [invite_row ''k'']\<rparr>"
  obtain ph s' where run: "foldl (accept_turn both) (\<lambda>_. Opening, ?s) (lockstep 5) = (ph, s')" by (metis prod.exhaust)
  have ok: "invitations_ok ?s" "roles_ok ?s" using invite_row_inv by (simp_all add: invite_inv_def)
  have row: "tbl_lookup iv_token (invitations ?s) ''k'' = Some (invite_row ''k'')" by (simp add: tbl_lookup_def)
  have "role_map ?s k = None" for k by (simp add: role_map_def tbl_lookup_def)
  with token_redeemed_twice [OF ok row _ _ _ _ run [unfolded both_def]] run show ?thesis
    by (simp add: is_usable_def is_expired_def Let_def)
qed


end
