(* ===== verification/Rate_Limits.thy ===== *)
theory Rate_Limits
  imports Front_Door Throttling Settings
begin

text \<open>
  The rate limits at work: which throttle classes and which scope each view has, by its class or by the defaults of
  the settings, and the requests they let through over time. Of the REST framework, as documented: a request
  is checked against every throttle of its view, after the permissions and before the method; a view without a
  scope passes the scoped throttles; a rate is a number and a period; a request is allowed while fewer than that
  number were counted for its key in the last period, and counted when it is allowed. The history of a key is the
  list of the instants counted, the latest first. \<open>ident\<close>, the address of a client, is the framework's.
\<close>

subsection \<open>The sliding window\<close>

type_synonym history = "string \<Rightarrow> instant list"

definition period :: "string \<Rightarrow> int" where
  "period p =
     (case p of [] \<Rightarrow> 0
      | c # _ \<Rightarrow> if c = CHR ''s'' then 1 else if c = CHR ''m'' then 60 else if c = CHR ''h'' then 3600
                else if c = CHR ''d'' then 86400 else 0)"

definition parse_rate :: "string \<Rightarrow> nat \<times> int" where
  "parse_rate rate = (nat_of_digits (split_head (CHR ''/'') rate), period (drop (Suc (length (split_head (CHR ''/'') rate))) rate))"

text \<open>The history drops from its old end what the period has passed.\<close>

definition recent :: "instant \<Rightarrow> int \<Rightarrow> instant list \<Rightarrow> instant list" where
  "recent now d ts = rev (dropWhile (\<lambda>t. t \<le> now - d) (rev ts))"

definition allow_request :: "instant \<Rightarrow> string \<Rightarrow> string option \<Rightarrow> history \<Rightarrow> bool \<times> history" where
  "allow_request now rate key h =
     (case key of
        None \<Rightarrow> (True, h)
      | Some k \<Rightarrow>
          (let (n, d) = parse_rate rate; ts = recent now d (h k)
           in if n \<le> length ts then (False, h) else (True, h(k := now # ts))))"

subsection \<open>The throttles of a view\<close>

datatype throttle = Anon_rate | User_rate | Login_rate | Register_rate | Password_reset_rate

definition cache_format :: "string \<Rightarrow> string \<Rightarrow> string" where
  "cache_format scope ident = ''throttle_'' @ scope @ ''_'' @ ident"

definition client :: "(request \<Rightarrow> string) \<Rightarrow> request \<Rightarrow> string" where
  "client ident rq = (case rq_user rq of Some u \<Rightarrow> str_nat (us_pk u) | None \<Rightarrow> ident rq)"

text \<open>The rate and the key of a request under a throttle of a view with a scope.\<close>

definition scoped_call ::
  "(string \<Rightarrow> rates \<Rightarrow> string) \<Rightarrow> (request \<Rightarrow> string) \<Rightarrow> rates \<Rightarrow> string option \<Rightarrow> request \<Rightarrow> exn + string \<times> string option" where
  "scoped_call get_rate ident rates scope rq =
     (case scope of None \<Rightarrow> Inr ([], None) | Some sc \<Rightarrow> Inr (get_rate sc rates, Some (cache_format sc (client ident rq))))"

definition simple_call :: "string \<Rightarrow> rates \<Rightarrow> string option \<Rightarrow> exn + string \<times> string option" where
  "simple_call scope rates key = (case scope_rate scope rates of Inl e \<Rightarrow> Inl e | Inr rate \<Rightarrow> Inr (rate, key))"

fun throttle_call ::
  "(request \<Rightarrow> string) \<Rightarrow> rates \<Rightarrow> string option \<Rightarrow> request \<Rightarrow> throttle \<Rightarrow> exn + string \<times> string option" where
  "throttle_call ident rates scope rq Anon_rate =
     simple_call ''anon'' rates (AnonRateThrottle_get_cache_key cache_format ident rq)"
| "throttle_call ident rates scope rq User_rate =
     simple_call ''user'' rates (UserRateThrottle_get_cache_key cache_format ident rq)"
| "throttle_call ident rates scope rq Login_rate = scoped_call LoginRateThrottle_get_rate ident rates scope rq"
| "throttle_call ident rates scope rq Register_rate = scoped_call RegisterRateThrottle_get_rate ident rates scope rq"
| "throttle_call ident rates scope rq Password_reset_rate =
     scoped_call PasswordResetRateThrottle_get_rate ident rates scope rq"

text \<open>Every throttle is asked, also after one has refused.\<close>

fun check_throttles ::
  "(request \<Rightarrow> string) \<Rightarrow> rates \<Rightarrow> instant \<Rightarrow> string option \<Rightarrow> request \<Rightarrow> throttle list \<Rightarrow> history \<Rightarrow> (exn + bool) \<times> history" where
  "check_throttles ident rates now scope rq [] h = (Inr True, h)"
| "check_throttles ident rates now scope rq (t # ts) h =
     (case throttle_call ident rates scope rq t of
        Inl e \<Rightarrow> (Inl e, h)
      | Inr (rate, key) \<Rightarrow>
          (case allow_request now rate key h of
             (ok, h1) \<Rightarrow>
               (case check_throttles ident rates now scope rq ts h1 of
                  (Inl e, h2) \<Rightarrow> (Inl e, h2) | (Inr oks, h2) \<Rightarrow> (Inr (ok \<and> oks), h2))))"

text \<open>The classes by their names in the settings, and what the view classes declare.\<close>

definition throttle_named :: "string \<Rightarrow> throttle option" where
  "throttle_named = map_of
     [(''apps.common.throttling.AnonRateThrottle'', Anon_rate), (''apps.common.throttling.UserRateThrottle'', User_rate),
      (''apps.common.throttling.LoginRateThrottle'', Login_rate),
      (''apps.common.throttling.RegisterRateThrottle'', Register_rate),
      (''apps.common.throttling.PasswordResetRateThrottle'', Password_reset_rate)]"

definition default_throttles :: "config \<Rightarrow> throttle list" where
  "default_throttles config = List.map_filter throttle_named (DEFAULT_THROTTLE_CLASSES (rest_framework_of config))"

definition rates_of :: "config \<Rightarrow> rates" where
  "rates_of config = map_of (THROTTLE_RATES (rest_framework_of config))"

definition RegisterView_throttle :: "throttle list \<times> string" where
  "RegisterView_throttle = ([Register_rate], ''register'')"

definition PasswordResetRequestView_throttle :: "throttle list \<times> string" where
  "PasswordResetRequestView_throttle = ([Password_reset_rate], ''password_reset'')"

definition ThrottledTokenObtainPairView_throttle_scope :: string where
  "ThrottledTokenObtainPairView_throttle_scope = ''login''"

definition HealthCheckView_throttle_classes :: "throttle list" where "HealthCheckView_throttle_classes = []"

definition ReadinessCheckView_throttle_classes :: "throttle list" where "ReadinessCheckView_throttle_classes = []"

definition throttles_of :: "config \<Rightarrow> string \<Rightarrow> throttle list" where
  "throttles_of config name =
     (case map_of [(''auth_register'', fst RegisterView_throttle),
                   (''password_reset_request'', fst PasswordResetRequestView_throttle),
                   (''health-check'', HealthCheckView_throttle_classes),
                   (''readiness-check'', ReadinessCheckView_throttle_classes)] name of
        Some ts \<Rightarrow> ts | None \<Rightarrow> default_throttles config)"

definition scope_of :: "string \<Rightarrow> string option" where
  "scope_of = map_of
     [(''token_obtain_pair'', ThrottledTokenObtainPairView_throttle_scope),
      (''auth_register'', snd RegisterView_throttle), (''password_reset_request'', snd PasswordResetRequestView_throttle)]"

subsection \<open>Requests over time\<close>

type_synonym arrival = "string \<times> instant \<times> request"

text \<open>The requests of a sequence that their throttles let through.\<close>

fun let_through :: "(request \<Rightarrow> string) \<Rightarrow> config \<Rightarrow> arrival list \<Rightarrow> history \<Rightarrow> arrival list \<times> history" where
  "let_through ident config [] h = ([], h)"
| "let_through ident config ((name, now, rq) # es) h =
     (case check_throttles ident (rates_of config) now (scope_of name) rq (throttles_of config name) h of
        (ok, h1) \<Rightarrow>
          (case let_through ident config es h1 of
             (passed, h2) \<Rightarrow> (if ok = Inr True then (name, now, rq) # passed else passed, h2)))"

text \<open>The answer of a view behind its permission and its throttles.\<close>

definition limited_view ::
  "(request \<Rightarrow> string) \<Rightarrow> config \<Rightarrow> readers \<Rightarrow> environment \<Rightarrow> instant \<Rightarrow> entropy \<Rightarrow> http_request \<Rightarrow> string \<Rightarrow>
   permission \<Rightarrow> kwargs \<Rightarrow> request \<Rightarrow> site \<times> history \<Rightarrow> unit response \<times> site \<times> history" where
  "limited_view ident config rd env now r raw name p kw rq w =
     (case check_permission (env_parse_uuid env) p kw rq (site_db (fst w)) of
        Some refusal \<Rightarrow> (refusal, w)
      | None \<Rightarrow>
          (case check_throttles ident (rates_of config) now (scope_of name) rq (throttles_of config name) (snd w) of
             (Inl e, h) \<Rightarrow> (Uncaught e, fst w, h)
           | (Inr ok, h) \<Rightarrow>
               if \<not> ok then (Detail 429 ''Request was throttled.'', fst w, h)
               else (case run_view rd env now r raw name p kw rq (fst w) of (resp, st) \<Rightarrow> (resp, st, h))))"

text \<open>A request behind its throttles runs the view of \<open>Front_Door\<close> or leaves the site alone.\<close>

lemma limited_view_runs:
  assumes "limited_view ident config rd env now r raw name p kw rq (st, h) = (resp, st', h')"
  shows "st' = st \<or>
    (resp, st') = run_view rd env now r raw name p kw rq st \<and>
    check_throttles ident (rates_of config) now (scope_of name) rq (throttles_of config name) h = (Inr True, h')"
  using assms by (auto simp: limited_view_def split: option.splits prod.splits sum.splits if_splits)

subsection \<open>What a key lets through\<close>

definition in_window :: "int \<Rightarrow> instant \<Rightarrow> instant list \<Rightarrow> nat" where
  "in_window d t ts = length (filter (\<lambda>x. t < x \<and> x \<le> t + d) ts)"

lemma in_window_simps [simp]:
  "in_window d t [] = 0"
  "in_window d t (x # ts) = (if t < x \<and> x \<le> t + d then 1 else 0) + in_window d t ts"
  "in_window d t (xs @ ts) = in_window d t xs + in_window d t ts"
  by (simp_all add: in_window_def)

lemma in_window_length: "in_window d t ts \<le> length ts"
  by (simp add: in_window_def)

lemma in_window_old: "\<forall>x\<in>set ts. x \<le> t \<Longrightarrow> in_window d t ts = 0"
  by (auto simp: in_window_def filter_empty_conv)

text \<open>The history \<open>ts\<close> of a key with rate \<open>n\<close> per \<open>d\<close>, against all the instants ever counted for it.\<close>

definition counted_ok :: "nat \<Rightarrow> int \<Rightarrow> instant \<Rightarrow> instant list \<Rightarrow> instant list \<Rightarrow> bool" where
  "counted_ok n d now ts counted \<longleftrightarrow>
     sorted (rev ts) \<and> (\<forall>x\<in>set ts. x \<le> now) \<and> (\<exists>old. counted = ts @ old \<and> (\<forall>x\<in>set old. x \<le> now - d)) \<and>
     (\<forall>t. in_window d t counted \<le> n)"

lemma counted_ok_later: "counted_ok n d now ts counted \<Longrightarrow> now \<le> later \<Longrightarrow> counted_ok n d later ts counted"
  unfolding counted_ok_def by (auto simp: le_diff_eq) (meson add_mono_thms_linordered_semiring(3) order_trans)

lemma dropWhile_sorted: "sorted ts \<Longrightarrow> dropWhile (\<lambda>x. x \<le> c) ts = filter (\<lambda>x. c < x) ts" for c :: int
  by (induction ts) (force intro: filter_True [symmetric])+

lemma allow_counted:
  assumes ok: "counted_ok n d now (h k) counted" and rate: "key = Some k \<Longrightarrow> parse_rate rate = (n, d)"
    and run: "allow_request now rate key h = (allowed, h')"
  shows "counted_ok n d now (h' k) (if key = Some k \<and> allowed then now # counted else counted)"
proof (cases "key = Some k \<and> allowed")
  case False
  then have "h' k = h k"
    using run by (auto simp: allow_request_def Let_def split: option.splits prod.splits if_splits)
  with False ok show ?thesis by auto
next
  case True
  let ?r = "recent now d (h k)" and ?rest = "rev (takeWhile (\<lambda>x. x \<le> now - d) (rev (h k)))"
  have h: "h' k = now # ?r" "length ?r < n"
    using run True rate by (auto simp: allow_request_def Let_def split: if_splits)
  have split: "h k = ?r @ ?rest"
    unfolding recent_def rev_append [symmetric] takeWhile_dropWhile_id by simp
  have sorted: "sorted (rev (h k))" "\<forall>x\<in>set (h k). x \<le> now" using ok by (simp_all add: counted_ok_def)
  have rest: "\<forall>x\<in>set ?rest. x \<le> now - d" by (auto dest: set_takeWhileD)
  obtain old where old: "counted = h k @ old" "\<forall>x\<in>set old. x \<le> now - d" using ok by (auto simp: counted_ok_def)
  have "sorted (rev (now # ?r))" "\<forall>x\<in>set (now # ?r). x \<le> now"
    using sorted by (auto simp: recent_def dropWhile_sorted sorted_append sorted_filter [of id, simplified])
  moreover have "\<exists>old'. now # counted = (now # ?r) @ old' \<and> (\<forall>x\<in>set old'. x \<le> now - d)"
    using old rest split by (intro exI[of _ "?rest @ old"]) auto
  moreover have "in_window d t (now # counted) \<le> n" for t
  proof (cases "t < now \<and> now \<le> t + d")
    case True
    then have "\<forall>x\<in>set (?rest @ old). x \<le> t" using rest old(2) by force
    then have "in_window d t (?rest @ old) = 0" by (rule in_window_old)
    moreover have "counted = ?r @ (?rest @ old)" using old(1) split by simp
    ultimately have "in_window d t counted = in_window d t ?r" by simp
    with True h(2) in_window_length [of d t ?r] show ?thesis by simp
  next
    case False
    then have "in_window d t (now # counted) = in_window d t counted" by auto
    with ok show ?thesis by (simp add: counted_ok_def)
  qed
  ultimately show ?thesis using True h(1) by (simp add: counted_ok_def)
qed

text \<open>A check of all throttles of a view: what it lets through with the key, it counted.\<close>

definition calls :: "(request \<Rightarrow> string) \<Rightarrow> rates \<Rightarrow> string option \<Rightarrow> request \<Rightarrow> string \<Rightarrow> string \<Rightarrow> throttle \<Rightarrow> bool" where
  "calls ident rates scope rq rate k t \<longleftrightarrow> throttle_call ident rates scope rq t = Inr (rate, Some k)"

lemma check_counted:
  assumes "counted_ok n d now (h k) counted" and "parse_rate rate = (n, d)"
    and "\<forall>t\<in>set ts. \<forall>rate'. calls ident rates scope rq rate' k t \<longrightarrow> rate' = rate"
    and "check_throttles ident rates now scope rq ts h = (res, h')"
  shows "\<exists>counted'. counted_ok n d now (h' k) counted' \<and> (\<forall>t. in_window d t counted \<le> in_window d t counted') \<and>
    (res = Inr True \<and> (\<exists>t\<in>set ts. calls ident rates scope rq rate k t) \<longrightarrow>
       (\<forall>t. in_window d t (now # counted) \<le> in_window d t counted'))"
  using assms
proof (induction ts arbitrary: h counted res h')
  case Nil
  then show ?case by auto
next
  case (Cons t ts)
  show ?case
  proof (cases "throttle_call ident rates scope rq t")
    case (Inl e)
    with Cons.prems show ?thesis by auto
  next
    case (Inr call)
    obtain rate1 key where call: "throttle_call ident rates scope rq t = Inr (rate1, key)" using Inr by (cases call) auto
    obtain ok h1 where allow: "allow_request now rate1 key h = (ok, h1)" by fastforce
    obtain res1 h2 where rest: "check_throttles ident rates now scope rq ts h1 = (res1, h2)" by fastforce
    have h2: "h' = h2" and res: "res = Inr True \<longleftrightarrow> ok \<and> res1 = Inr True"
      using Cons.prems(4) call allow rest by (auto split: sum.splits)
    let ?c = "if key = Some k \<and> ok then now # counted else counted"
    have "parse_rate rate1 = (n, d)" if "key = Some k"
      using that Cons.prems(2,3) call by (auto simp: calls_def)
    then have "counted_ok n d now (h1 k) ?c" using allow_counted [OF Cons.prems(1) _ allow] by blast
    from Cons.IH [OF this Cons.prems(2) _ rest] Cons.prems(3) obtain c' where c':
      "counted_ok n d now (h2 k) c'" "\<forall>t. in_window d t ?c \<le> in_window d t c'"
      "res1 = Inr True \<and> (\<exists>t\<in>set ts. calls ident rates scope rq rate k t) \<longrightarrow>
         (\<forall>t. in_window d t (now # ?c) \<le> in_window d t c')" by auto
    have grows: "in_window d t counted \<le> in_window d t ?c" for t by simp
    show ?thesis
    proof (intro exI[of _ c'] conjI impI)
      show "counted_ok n d now (h' k) c'" using c'(1) h2 by simp
      show "\<forall>t. in_window d t counted \<le> in_window d t c'" using c'(2) grows le_trans by blast
      assume passed: "res = Inr True \<and> (\<exists>x\<in>set (t # ts). calls ident rates scope rq rate k x)"
      show "\<forall>t. in_window d t (now # counted) \<le> in_window d t c'"
      proof (cases "calls ident rates scope rq rate k t")
        case True
        then have "?c = now # counted" using call passed res by (auto simp: calls_def)
        with c'(2) show ?thesis by simp
      next
        case False
        with passed res have "\<forall>t. in_window d t (now # ?c) \<le> in_window d t c'" using c'(3) by auto
        moreover have "in_window d t (now # counted) \<le> in_window d t (now # ?c)" for t by simp
        ultimately show ?thesis using le_trans by blast
      qed
    qed
  qed
qed

text \<open>Every use of the key is at the same rate; \<open>P\<close> picks arrivals that use it.\<close>

definition same_rate :: "(request \<Rightarrow> string) \<Rightarrow> config \<Rightarrow> string \<Rightarrow> string \<Rightarrow> arrival \<Rightarrow> bool" where
  "same_rate ident config rate k e \<longleftrightarrow>
     (case e of (name, now, rq) \<Rightarrow> \<forall>t\<in>set (throttles_of config name). \<forall>rate'.
        calls ident (rates_of config) (scope_of name) rq rate' k t \<longrightarrow> rate' = rate)"

definition uses :: "(request \<Rightarrow> string) \<Rightarrow> config \<Rightarrow> string \<Rightarrow> string \<Rightarrow> arrival \<Rightarrow> bool" where
  "uses ident config rate k e \<longleftrightarrow>
     (case e of (name, now, rq) \<Rightarrow> \<exists>t\<in>set (throttles_of config name). calls ident (rates_of config) (scope_of name) rq rate k t)"

definition arrived :: "arrival \<Rightarrow> instant" where "arrived e = fst (snd e)"

lemma passed_counted:
  assumes "counted_ok n d t0 (h k) counted" and "parse_rate rate = (n, d)"
    and "sorted (map arrived es)" and "\<forall>e\<in>set es. t0 \<le> arrived e"
    and "\<And>e. e \<in> set es \<Longrightarrow> same_rate ident config rate k e"
  shows "in_window d t (map arrived (filter (uses ident config rate k) (fst (let_through ident config es h)))) +
    in_window d t counted \<le> n"
  using assms
proof (induction es arbitrary: h counted t0)
  case Nil
  then show ?case by (simp add: counted_ok_def)
next
  case (Cons e es)
  obtain name now rq where e: "e = (name, now, rq)" by (cases e) auto
  obtain res h1 where check: "check_throttles ident (rates_of config) now (scope_of name) rq (throttles_of config name) h = (res, h1)"
    by fastforce
  have now: "counted_ok n d now (h k) counted"
    using counted_ok_later [OF Cons.prems(1)] Cons.prems(4) e by (simp add: arrived_def)
  have same: "\<forall>t\<in>set (throttles_of config name). \<forall>rate'.
      calls ident (rates_of config) (scope_of name) rq rate' k t \<longrightarrow> rate' = rate"
    using Cons.prems(5) [of e] e by (simp add: same_rate_def)
  obtain c' where c': "counted_ok n d now (h1 k) c'" "\<forall>t. in_window d t counted \<le> in_window d t c'"
    "res = Inr True \<and> uses ident config rate k e \<longrightarrow> (\<forall>t. in_window d t (now # counted) \<le> in_window d t c')"
    using check_counted [OF now Cons.prems(2) same check] unfolding uses_def e prod.case by blast
  let ?passed = "\<lambda>es h. map arrived (filter (uses ident config rate k) (fst (let_through ident config es h)))"
  have later: "\<forall>e\<in>set es. now \<le> arrived e" "sorted (map arrived es)"
    using Cons.prems(3) e by (auto, auto simp: arrived_def)
  have IH: "in_window d t (?passed es h1) + in_window d t c' \<le> n"
    using Cons.IH [where h = h1, OF c'(1) Cons.prems(2) later(2) later(1)] Cons.prems(5) by simp
  have step: "?passed (e # es) h = (if res = Inr True \<and> uses ident config rate k e then now # ?passed es h1 else ?passed es h1)"
    using check e by (simp add: arrived_def case_prod_beta)
  show ?case
  proof (cases "res = Inr True \<and> uses ident config rate k e")
    case True
    with c'(3) have "in_window d t (now # counted) \<le> in_window d t c'" by blast
    with IH True show ?thesis unfolding step by simp
  next
    case False
    have "in_window d t counted \<le> in_window d t c'" using c'(2) by blast
    with IH show ?thesis unfolding step if_not_P [OF False] by linarith
  qed
qed

subsection \<open>The keys\<close>

lemma in_window_filter:
  "(\<And>x. P x \<Longrightarrow> Q x) \<Longrightarrow> in_window d t (map f (filter P xs)) \<le> in_window d t (map f (filter Q xs))"
  by (induction xs) auto

text \<open>The rate of a scope under the settings.\<close>

definition limit :: "config \<Rightarrow> string \<Rightarrow> nat \<times> int" where
  "limit config scope = parse_rate (the (rates_of config scope))"

definition scopes :: "string list" where
  "scopes = [''anon'', ''user'', ''login'', ''register'', ''password_reset'']"

lemma rates_known: "s \<in> set scopes \<Longrightarrow> \<exists>rate. rates_of config s = Some rate"
  by (auto simp: scopes_def rates_of_def rest_framework_of_def throttle_rates_def)

lemma cache_format_scope:
  "cache_format s c = cache_format s' c' \<Longrightarrow> s \<in> set scopes \<Longrightarrow> s' \<in> set scopes \<Longrightarrow> s = s'"
  by (auto simp: cache_format_def scopes_def)

lemma default_throttles: "default_throttles config = [Anon_rate, User_rate, Login_rate]"
  by (simp add: default_throttles_def rest_framework_of_def throttle_named_def map_filter_def)

lemmas view_throttles = throttles_of_def default_throttles RegisterView_throttle_def PasswordResetRequestView_throttle_def
  HealthCheckView_throttle_classes_def ReadinessCheckView_throttle_classes_def

lemma scope_of_cases:
  assumes "scope_of name = Some s"
  obtains "name = ''token_obtain_pair''" "s = ''login''" | "name = ''auth_register''" "s = ''register''"
    | "name = ''password_reset_request''" "s = ''password_reset''"
  using assms by (auto simp: scope_of_def ThrottledTokenObtainPairView_throttle_scope_def RegisterView_throttle_def
      PasswordResetRequestView_throttle_def split: if_splits)

lemma scope_known: "scope_of name = Some s \<Longrightarrow> s \<in> set scopes"
  by (elim scope_of_cases) (simp_all add: scopes_def)

text \<open>A key belongs to one scope, and its rate is the rate of that scope.\<close>

lemmas call_defs = calls_def simple_call_def scoped_call_def scope_rate_def rate_or_def
  AnonRateThrottle_get_cache_key_def UserRateThrottle_get_cache_key_def Let_def client_def
  LoginRateThrottle_get_rate_def RegisterRateThrottle_get_rate_def PasswordResetRateThrottle_get_rate_def

lemma scoped_call_scope:
  assumes "scoped_call get_rate ident (rates_of config) scope rq = Inr (rate, Some k)"
    and "\<And>s r. rates_of config s = Some r \<Longrightarrow> get_rate s (rates_of config) = r" and "\<And>s. scope = Some s \<Longrightarrow> s \<in> set scopes"
  shows "\<exists>s c. s \<in> set scopes \<and> k = cache_format s c \<and> rates_of config s = Some rate"
proof (cases scope)
  case None
  with assms(1) show ?thesis by (simp add: scoped_call_def)
next
  case (Some s)
  then obtain r where "rates_of config s = Some r" using rates_known assms(3) by blast
  with assms Some show ?thesis by - (rule exI [of _ s], auto simp: scoped_call_def)
qed

lemma calls_scope:
  assumes "calls ident (rates_of config) scope rq rate k t" and "\<And>s. scope = Some s \<Longrightarrow> s \<in> set scopes"
  shows "\<exists>s c. s \<in> set scopes \<and> k = cache_format s c \<and> rates_of config s = Some rate"
proof (cases t)
  case Anon_rate
  then show ?thesis using assms(1)
    by - (rule exI [of _ "''anon''"], auto simp: call_defs scopes_def split: option.splits if_splits)
next
  case User_rate
  then show ?thesis using assms(1)
    by - (rule exI [of _ "''user''"], auto simp: call_defs scopes_def split: option.splits if_splits)
next
  case Login_rate
  show ?thesis
    by (rule scoped_call_scope [where get_rate = LoginRateThrottle_get_rate])
      (use assms Login_rate in \<open>simp_all add: calls_def LoginRateThrottle_get_rate_def rate_or_def\<close>)
next
  case Register_rate
  show ?thesis
    by (rule scoped_call_scope [where get_rate = RegisterRateThrottle_get_rate])
      (use assms Register_rate in \<open>simp_all add: calls_def RegisterRateThrottle_get_rate_def rate_or_def\<close>)
next
  case Password_reset_rate
  show ?thesis
    by (rule scoped_call_scope [where get_rate = PasswordResetRateThrottle_get_rate])
      (use assms Password_reset_rate in \<open>simp_all add: calls_def PasswordResetRateThrottle_get_rate_def rate_or_def\<close>)
qed

lemma scope_same_rate:
  assumes "s \<in> set scopes"
  shows "same_rate ident config (the (rates_of config s)) (cache_format s c) e"
proof -
  have "rate' = the (rates_of config s)"
    if call: "calls ident (rates_of config) (scope_of m) rq rate' (cache_format s c) t" for m rq rate' t
  proof -
    obtain s' c' where s': "s' \<in> set scopes" "cache_format s c = cache_format s' c'" "rates_of config s' = Some rate'"
      using calls_scope [OF call] scope_known by blast
    from cache_format_scope [OF s'(2) assms s'(1)] s'(3) show ?thesis by simp
  qed
  then show ?thesis by (simp add: same_rate_def split: prod.splits)
qed

lemma scoped_uses:
  assumes "scope_of name = Some s" and "client ident rq = c"
  shows "uses ident config (the (rates_of config s)) (cache_format s c) (name, now, rq)"
proof -
  obtain rate where rate: "rates_of config s = Some rate" using rates_known [OF scope_known [OF assms(1)]] by blast
  have throttle: "Login_rate \<in> set (throttles_of config name) \<or> Register_rate \<in> set (throttles_of config name) \<or>
      Password_reset_rate \<in> set (throttles_of config name)"
    using assms(1) by (elim scope_of_cases) (simp_all add: view_throttles)
  have "calls ident (rates_of config) (Some s) rq rate (cache_format s c) t"
    if "t = Login_rate \<or> t = Register_rate \<or> t = Password_reset_rate" for t
    using that rate assms(2) unfolding calls_def scoped_call_def
    by (auto simp: scoped_call_def LoginRateThrottle_get_rate_def RegisterRateThrottle_get_rate_def
        PasswordResetRateThrottle_get_rate_def rate_or_def)
  with throttle rate assms(1) show ?thesis unfolding uses_def by auto
qed

text \<open>The views that declare throttle classes of their own.\<close>

definition own_throttles :: "string list" where
  "own_throttles = [''auth_register'', ''password_reset_request'', ''health-check'', ''readiness-check'']"

lemma anon_uses:
  assumes "name \<notin> set own_throttles" and "rq_user rq = None"
  shows "uses ident config (the (rates_of config ''anon'')) (cache_format ''anon'' (ident rq)) (name, now, rq)"
proof -
  obtain rate where rate: "rates_of config ''anon'' = Some rate" using rates_known [of "''anon''"] by (auto simp: scopes_def)
  have "Anon_rate \<in> set (throttles_of config name)" using assms(1) by (simp add: view_throttles own_throttles_def)
  moreover have "calls ident (rates_of config) scope rq rate (cache_format ''anon'' (ident rq)) Anon_rate" for scope
    using rate assms(2) by (simp add: calls_def simple_call_def scope_rate_def AnonRateThrottle_get_cache_key_def)
  ultimately show ?thesis using rate unfolding uses_def by auto
qed

subsection \<open>Properties\<close>

lemma limit_of_scope:
  assumes "sorted (map arrived es)" and "s \<in> set scopes"
    and "\<And>e. P e \<Longrightarrow> uses ident config (the (rates_of config s)) (cache_format s c) e"
  shows "in_window (snd (limit config s)) t (map arrived (filter P (fst (let_through ident config es (\<lambda>_. []))))) \<le>
    fst (limit config s)"
proof -
  let ?rate = "the (rates_of config s)" and ?k = "cache_format s c"
  let ?n = "fst (limit config s)" and ?d = "snd (limit config s)"
  have "in_window ?d t (map arrived (filter P (fst (let_through ident config es (\<lambda>_. []))))) \<le>
      in_window ?d t (map arrived (filter (uses ident config ?rate ?k) (fst (let_through ident config es (\<lambda>_. [])))))"
    by (rule in_window_filter) (rule assms(3))
  also have "\<dots> + in_window ?d t [] \<le> ?n"
  proof (rule passed_counted)
    show "counted_ok ?n ?d (case es of [] \<Rightarrow> 0 | e # _ \<Rightarrow> arrived e) [] []" by (simp add: counted_ok_def)
    show "parse_rate ?rate = (?n, ?d)" by (simp add: limit_def)
    show "\<forall>e\<in>set es. (case es of [] \<Rightarrow> 0 | e # _ \<Rightarrow> arrived e) \<le> arrived e"
      using assms(1) by (cases es) auto
    show "same_rate ident config ?rate ?k e" for e by (rule scope_same_rate [OF assms(2)])
  qed (use assms(1) in simp)
  finally show ?thesis by simp
qed


text \<open>One client, a request a second.\<close>

definition attempts :: "string \<Rightarrow> nat \<Rightarrow> arrival list" where
  "attempts name n = map (\<lambda>i. (name, int i, demo_request)) [0..<n]"

definition shipped :: config where "shipped = Map.empty"

definition passing :: "string \<Rightarrow> nat \<Rightarrow> nat" where
  "passing name n = length (fst (let_through (\<lambda>_. ''10.0.0.1'') shipped (attempts name n) (\<lambda>_. [])))"

text \<open>The three registrations an hour hold on one of the two registration endpoints: \<open>/api/v1/users/create/\<close>
  calls the same service under the anonymous limit. Stripe, an anonymous client too, gets twenty events a minute
  through, and further ones are refused although the webhook is documented to answer fast.\<close>

theorem registration_limit_bypassed:
  "passing ''auth_register'' 4 = 3 \<and> passing ''user-create'' 4 = 4"
  by code_simp

theorem webhook_throttled: "passing ''stripe-webhook'' 21 = 20"
  by code_simp


end
