(* ===== verification/Project.thy ===== *)
theory Project
  imports Settings Admin Pipeline Worker
begin

text \<open>
  How the parts are wired: the applications (\<open>apps/*/apps.py\<close>), the settings of \<open>config/settings/base.py\<close> that name
  modules, templates and the documentation, the names under which the tasks are registered (\<open>apps/*/tasks.py\<close>,
  found by \<open>config/celery.py\<close> in the installed applications), and the settings module each entry point of a
  process falls back to. The start-up checks of the framework are written out as it documents them.
\<close>

subsection \<open>Applications\<close>

record app_config =
  cf_name :: string
  cf_verbose_name :: "string option"
  cf_auto_field :: "string option"

definition AuditConfig :: app_config where
  "AuditConfig = \<lparr>cf_name = ''apps.audit'', cf_verbose_name = Some ''Audit Log'', cf_auto_field = Some ''django.db.models.BigAutoField''\<rparr>"

definition AuthenticationConfig :: app_config where
  "AuthenticationConfig = \<lparr>cf_name = ''apps.authentication'', cf_verbose_name = None, cf_auto_field = Some ''django.db.models.BigAutoField''\<rparr>"

definition BillingConfig :: app_config where
  "BillingConfig = \<lparr>cf_name = ''apps.billing'', cf_verbose_name = Some ''Billing'', cf_auto_field = Some ''django.db.models.BigAutoField''\<rparr>"

definition CommonConfig :: app_config where
  "CommonConfig = \<lparr>cf_name = ''apps.common'', cf_verbose_name = None, cf_auto_field = Some ''django.db.models.BigAutoField''\<rparr>"

definition FeaturesConfig :: app_config where
  "FeaturesConfig = \<lparr>cf_name = ''apps.features'', cf_verbose_name = Some ''Feature Flags'', cf_auto_field = None\<rparr>"

definition InvitationsConfig :: app_config where
  "InvitationsConfig = \<lparr>cf_name = ''apps.invitations'', cf_verbose_name = Some ''Invitations'', cf_auto_field = Some ''django.db.models.BigAutoField''\<rparr>"

definition NotificationsConfig :: app_config where
  "NotificationsConfig = \<lparr>cf_name = ''apps.notifications'', cf_verbose_name = None, cf_auto_field = Some ''django.db.models.BigAutoField''\<rparr>"

definition RbacConfig :: app_config where
  "RbacConfig = \<lparr>cf_name = ''apps.rbac'', cf_verbose_name = None, cf_auto_field = Some ''django.db.models.BigAutoField''\<rparr>"

definition TenantsConfig :: app_config where
  "TenantsConfig = \<lparr>cf_name = ''apps.tenants'', cf_verbose_name = None, cf_auto_field = Some ''django.db.models.BigAutoField''\<rparr>"

definition UsersConfig :: app_config where
  "UsersConfig = \<lparr>cf_name = ''apps.users'', cf_verbose_name = None, cf_auto_field = Some ''django.db.models.BigAutoField''\<rparr>"

definition APP_CONFIGS :: "app_config list" where
  "APP_CONFIGS =
     [CommonConfig, UsersConfig, AuthenticationConfig, TenantsConfig, RbacConfig, NotificationsConfig, BillingConfig,
      AuditConfig, InvitationsConfig, FeaturesConfig]"

text \<open>The label of an application is the last part of its name.\<close>

definition app_label :: "string \<Rightarrow> string" where
  "app_label name = rev (takeWhile (\<lambda>c. c \<noteq> CHR ''.'') (rev name))"

definition DEFAULT_AUTO_FIELD :: string where "DEFAULT_AUTO_FIELD = ''django.db.models.BigAutoField''"

definition auto_field :: "app_config \<Rightarrow> string" where
  "auto_field c = (case cf_auto_field c of Some f \<Rightarrow> f | None \<Rightarrow> DEFAULT_AUTO_FIELD)"

subsection \<open>Modules, templates, documentation\<close>

definition ROOT_URLCONF :: string where "ROOT_URLCONF = ''config.urls''"

definition WSGI_APPLICATION :: string where "WSGI_APPLICATION = ''config.wsgi.application''"

definition ASGI_APPLICATION :: string where "ASGI_APPLICATION = ''config.asgi.application''"

record template_settings =
  BACKEND :: string
  DIRS :: "string list"
  APP_DIRS :: bool
  context_processors :: "string list"

definition TEMPLATES :: "template_settings list" where
  "TEMPLATES =
     [\<lparr>BACKEND = ''django.template.backends.django.DjangoTemplates'', DIRS = [], APP_DIRS = True,
       context_processors =
         [''django.template.context_processors.debug'', ''django.template.context_processors.request'',
          ''django.contrib.auth.context_processors.auth'', ''django.contrib.messages.context_processors.messages'']\<rparr>]"

definition LANGUAGE_CODE :: string where "LANGUAGE_CODE = ''en-us''"

definition USE_I18N :: bool where "USE_I18N = True"

definition USE_TZ :: bool where "USE_TZ = True"

definition STATIC_URL :: string where "STATIC_URL = ''/static/''"

definition MEDIA_URL :: string where "MEDIA_URL = ''/media/''"

text \<open>The directory of the project is a parameter.\<close>

definition STATIC_ROOT :: "string \<Rightarrow> string" where "STATIC_ROOT base_dir = base_dir @ ''/staticfiles''"

definition MEDIA_ROOT :: "string \<Rightarrow> string" where "MEDIA_ROOT base_dir = base_dir @ ''/media''"

record schema_settings =
  TITLE :: string
  DESCRIPTION :: string
  VERSION :: string
  SERVE_INCLUDE_SCHEMA :: bool
  COMPONENT_SPLIT_REQUEST :: bool
  SCHEMA_PATH_PREFIX :: string
  SWAGGER_UI_SETTINGS :: "(string \<times> bool) list"
  security_schemes :: "(string \<times> (string \<times> string) list) list"
  SECURITY :: "(string \<times> string list) list list"

definition SPECTACULAR_SETTINGS :: schema_settings where
  "SPECTACULAR_SETTINGS =
     \<lparr>TITLE = ''Django SaaS Kit API'',
      DESCRIPTION = ''Multi-tenant SaaS API with JWT authentication, RBAC, and notifications.'', VERSION = ''1.0.0'',
      SERVE_INCLUDE_SCHEMA = False, COMPONENT_SPLIT_REQUEST = True, SCHEMA_PATH_PREFIX = ''/api/v1/'',
      SWAGGER_UI_SETTINGS = [(''deepLinking'', True), (''persistAuthorization'', True), (''displayOperationId'', True)],
      security_schemes = [(''BearerAuth'', [(''type'', ''http''), (''scheme'', ''bearer''), (''bearerFormat'', ''JWT'')])],
      SECURITY = [[(''BearerAuth'', [])]]\<rparr>"

subsection \<open>Tasks\<close>

text \<open>The registered names of the tasks; a worker knows those of the installed applications. The beat entry of the
  settings and the messages the program queues name tasks.\<close>

definition users_tasks :: "string list" where "users_tasks = [''apps.users.tasks.send_welcome_email'']"

definition notifications_tasks :: "string list" where
  "notifications_tasks = [''apps.notifications.tasks.send_email_notification'']"

definition billing_tasks :: "string list" where
  "billing_tasks =
     [''apps.billing.tasks.handle_stripe_event'', ''apps.billing.tasks.send_dunning_email'',
      ''apps.billing.tasks.send_trial_ending_email'']"

definition authentication_tasks :: "string list" where
  "authentication_tasks =
     [''apps.authentication.tasks.cleanup_expired_tokens'', ''apps.authentication.tasks.send_password_reset_email'']"

definition invitations_tasks :: "string list" where "invitations_tasks = [''apps.invitations.tasks.send_invitation_email'']"

definition autodiscover_tasks :: "string list \<Rightarrow> string list" where
  "autodiscover_tasks installed =
     concat (map (\<lambda>app. case map_of
       [(''apps.users'', users_tasks), (''apps.notifications'', notifications_tasks), (''apps.billing'', billing_tasks),
        (''apps.authentication'', authentication_tasks), (''apps.invitations'', invitations_tasks)] app of
          Some ts \<Rightarrow> ts | None \<Rightarrow> []) installed)"

fun task_name :: "celery_task \<Rightarrow> string" where
  "task_name (Handle_stripe_event _ _ _) = ''apps.billing.tasks.handle_stripe_event''"
| "task_name (Send_dunning_email _) = ''apps.billing.tasks.send_dunning_email''"
| "task_name (Send_welcome_email _) = ''apps.users.tasks.send_welcome_email''"
| "task_name (Send_invitation_email _ _ _ _ _) = ''apps.invitations.tasks.send_invitation_email''"
| "task_name (Send_password_reset_email _ _ _ _ _ _) = ''apps.authentication.tasks.send_password_reset_email''"

subsection \<open>Entry points\<close>

text \<open>\<open>os.environ.setdefault\<close>: the variable wins.\<close>

datatype entry_point = Manage | Celery_worker | Wsgi | Asgi

fun default_settings_module :: "entry_point \<Rightarrow> string" where
  "default_settings_module Manage = ''config.settings.local''"
| "default_settings_module Celery_worker = ''config.settings.local''"
| "default_settings_module Wsgi = ''config.settings.prod''"
| "default_settings_module Asgi = ''config.settings.prod''"

definition settings_module :: "string option \<Rightarrow> entry_point \<Rightarrow> string" where
  "settings_module variable e = (case variable of Some m \<Rightarrow> m | None \<Rightarrow> default_settings_module e)"

subsection \<open>The start-up checks\<close>

text \<open>What the framework's site of the administration needs of the settings.\<close>

definition admin_dependencies :: bool where
  "admin_dependencies \<longleftrightarrow>
     list_all (\<lambda>a. a \<in> set INSTALLED_APPS)
       [''django.contrib.contenttypes'', ''django.contrib.auth'', ''django.contrib.messages'', ''django.contrib.sessions''] \<and>
     list_ex (\<lambda>t. BACKEND t = ''django.template.backends.django.DjangoTemplates'' \<and>
       list_all (\<lambda>p. p \<in> set (context_processors t))
         [''django.contrib.auth.context_processors.auth'', ''django.contrib.messages.context_processors.messages'',
          ''django.template.context_processors.request'']) TEMPLATES \<and>
     list_all (\<lambda>m. m \<in> set MIDDLEWARE)
       [''django.contrib.auth.middleware.AuthenticationMiddleware'', ''django.contrib.messages.middleware.MessageMiddleware'',
        ''django.contrib.sessions.middleware.SessionMiddleware'']"

text \<open>A middleware that needs another one stands behind it: the user is read from the session, the messages
  are stored in it.\<close>

fun behind :: "string \<Rightarrow> string \<Rightarrow> string list \<Rightarrow> bool" where
  "behind a b [] = False"
| "behind a b (m # ms) = (if m = a then b \<in> set ms else behind a b ms)"

theorem project_wired:
  "map cf_name APP_CONFIGS = LOCAL_APPS \<and> distinct (map app_label INSTALLED_APPS) \<and>
   list_all (\<lambda>c. auto_field c = ''django.db.models.BigAutoField'') APP_CONFIGS \<and>
   list_all (\<lambda>(key, _). split_head (CHR ''.'') key \<in> set (map app_label LOCAL_APPS)) MODELS \<and>
   admin_dependencies \<and>
   behind ''django.contrib.sessions.middleware.SessionMiddleware''
     ''django.contrib.auth.middleware.AuthenticationMiddleware'' MIDDLEWARE \<and>
   behind ''django.contrib.sessions.middleware.SessionMiddleware''
     ''django.contrib.messages.middleware.MessageMiddleware'' MIDDLEWARE"
  by code_simp

theorem tasks_known:
  "task_name t \<in> set (autodiscover_tasks INSTALLED_APPS) \<and>
   list_all (\<lambda>(_, task, _). task \<in> set (autodiscover_tasks INSTALLED_APPS)) CELERY_BEAT_SCHEDULE"
proof
  have known: "autodiscover_tasks INSTALLED_APPS =
      users_tasks @ authentication_tasks @ notifications_tasks @ billing_tasks @ invitations_tasks" by code_simp
  show "task_name t \<in> set (autodiscover_tasks INSTALLED_APPS)"
    unfolding known by (cases t) (simp_all add: users_tasks_def authentication_tasks_def billing_tasks_def invitations_tasks_def)
  show "list_all (\<lambda>(_, task, _). task \<in> set (autodiscover_tasks INSTALLED_APPS)) CELERY_BEAT_SCHEDULE"
    unfolding known by code_simp
qed

theorem schema_covers_api:
  "prefix (SCHEMA_PATH_PREFIX SPECTACULAR_SETTINGS) (route ep) \<and>
   list_all (list_all (\<lambda>(scheme, _). map_of (security_schemes SPECTACULAR_SETTINGS) scheme \<noteq> None))
     (SECURITY SPECTACULAR_SETTINGS)"
  by (cases ep) (simp_all add: SPECTACULAR_SETTINGS_def)

text \<open>Without the variable the worker runs the local settings beside a web process on the production ones.\<close>

theorem entry_points_agree:
  "(\<exists>e e'. settings_module variable e \<noteq> settings_module variable e') \<longleftrightarrow> variable = None"
proof -
  have "settings_module None Celery_worker \<noteq> settings_module None Wsgi" by (simp add: settings_module_def)
  moreover have "settings_module (Some m) e = settings_module (Some m) e'" for m e e' by (simp add: settings_module_def)
  ultimately show ?thesis by (cases variable) auto
qed

end
