(* ===== verification/Command_Line.thy ===== *)
theory Command_Line
  imports Gdpr "HOL-Library.Sublist"
begin

text \<open>
  The command line of \<open>delete_user_data\<close>: the arguments it declares (\<open>add_arguments\<close>), read as Python's \<open>argparse\<close>
  documents: options and positional arguments in any order, a long option cut short as long as it is the only one
  that begins so, \<open>--option=value\<close>, and \<open>--\<close> before arguments that are no options. Joined short options, and
  negative numbers or words with blanks that begin with a dash as arguments, are refused by the model. \<open>base\<close>, the
  options the framework gives every command, each with what it does, is a parameter.
\<close>

subsection \<open>Arguments\<close>

datatype argument = Positional string | Flag string string

definition add_arguments :: "argument list" where
  "add_arguments = [Positional ''user_id'', Flag ''--hard-delete'' ''hard_delete'', Flag ''--no-input'' ''no_input'']"

text \<open>What an option does: it is noted, it takes the next argument, or it ends the process (\<open>--help\<close>).\<close>

datatype option_action = Notes | Takes_value | Exits

type_synonym options = "(string \<times> option_action) list"

definition flags_of :: "argument list \<Rightarrow> options" where
  "flags_of as = concat (map (\<lambda>a. case a of Flag name _ \<Rightarrow> [(name, Notes)] | Positional _ \<Rightarrow> []) as)"

definition option_named :: "options \<Rightarrow> string \<Rightarrow> (string \<times> option_action) option" where
  "option_named opts a =
     (case map_of opts a of
        Some action \<Rightarrow> Some (a, action)
      | None \<Rightarrow>
          if prefix ''--'' a
          then (case filter (\<lambda>(name, _). prefix a name) opts of [opt] \<Rightarrow> Some opt | _ \<Rightarrow> None) else None)"

text \<open>The positional arguments and the flags given; \<open>None\<close>: the process ends with a message, the command is not run.\<close>

fun parse_argv :: "options \<Rightarrow> string list \<Rightarrow> (string list \<times> string list) option" where
  "parse_argv opts [] = Some ([], [])"
| "parse_argv opts (a # as) =
     (if a = ''--'' then Some (as, [])
      else if \<not> prefix ''-'' a \<or> a = ''-'' then map_option (apfst ((#) a)) (parse_argv opts as)
      else if CHR ''='' \<in> set a
      then (case option_named opts (takeWhile (\<lambda>c. c \<noteq> CHR ''='') a) of
              Some (_, Takes_value) \<Rightarrow> parse_argv opts as | _ \<Rightarrow> None)
      else (case option_named opts a of
              None \<Rightarrow> None
            | Some (_, Exits) \<Rightarrow> None
            | Some (name, Notes) \<Rightarrow> map_option (apsnd ((#) name)) (parse_argv opts as)
            | Some (_, Takes_value) \<Rightarrow>
                (case as of [] \<Rightarrow> None | v # as' \<Rightarrow> if prefix ''-'' v \<and> v \<noteq> ''-'' then None else parse_argv opts as')))"

text \<open>The value of a \<open>store_true\<close> argument, by the name it is stored under.\<close>

definition given :: "string \<Rightarrow> string list \<Rightarrow> bool" where
  "given dest flags \<longleftrightarrow> list_ex (\<lambda>a. case a of Flag name d \<Rightarrow> d = dest \<and> name \<in> set flags | Positional _ \<Rightarrow> False) add_arguments"

definition parse_command :: "options \<Rightarrow> string list \<Rightarrow> (string \<times> bool \<times> bool) option" where
  "parse_command base argv =
     (case parse_argv (flags_of add_arguments @ base) argv of
        Some ([user_id], flags) \<Rightarrow> Some (user_id, given ''hard_delete'' flags, given ''no_input'' flags)
      | _ \<Rightarrow> None)"

definition run_delete_user_data ::
  "options \<Rightarrow> (string \<Rightarrow> pk option) \<Rightarrow> string \<Rightarrow> string \<Rightarrow> string list \<Rightarrow> string \<Rightarrow> db \<Rightarrow> command_result option \<times> db" where
  "run_delete_user_data base parse_pk tag unusable_password argv confirm s =
     (case parse_command base argv of
        None \<Rightarrow> (None, s)
      | Some (user_id, hard, no_input) \<Rightarrow>
          (case delete_user_data parse_pk tag unusable_password user_id hard no_input confirm s of
             (r, s') \<Rightarrow> (Some r, s')))"

subsection \<open>Lemmas\<close>

text \<open>An argument that stands for an option.\<close>

definition stands_for :: "string \<Rightarrow> string \<Rightarrow> bool" where
  "stands_for a name \<longleftrightarrow> a = name \<or> prefix ''--'' a \<and> prefix a name"

lemma option_named_stands:
  assumes "option_named opts a = Some (name, action)"
  shows "stands_for a name"
proof (cases "map_of opts a")
  case None
  then have a: "prefix ''--'' a" and f: "filter (\<lambda>(name, _). prefix a name) opts = [(name, action)]"
    using assms by (auto simp: option_named_def split: if_splits list.splits)
  have "(name, action) \<in> set (filter (\<lambda>(name, _). prefix a name) opts)" unfolding f by simp
  with a show ?thesis by (simp add: stands_for_def)
qed (use assms in \<open>simp add: option_named_def stands_for_def\<close>)

lemma parse_argv_stands:
  "parse_argv opts argv = Some (ps, flags) \<Longrightarrow> name \<in> set flags \<Longrightarrow> \<exists>a\<in>set argv. stands_for a name"
proof (induction argv arbitrary: ps flags rule: length_induct)
  case (1 argv)
  note IH = 1(1) [rule_format] and run = 1(2) and name = 1(3)
  obtain a as where argv: "argv = a # as" using run name by (cases argv) auto
  have rest: "\<exists>a\<in>set argv. stands_for a name"
    if "parse_argv opts as' = Some (ps', flags')" "name \<in> set flags'" "set as' \<subseteq> set as" "length as' \<le> length as" for as' ps' flags'
  proof -
    have "length as' < length argv" using that(4) argv by simp
    from IH [OF this that(1,2)] that(3) argv show ?thesis by auto
  qed
  consider (stop) "a = ''--''" | (positional) "a \<noteq> ''--''" "\<not> prefix ''-'' a \<or> a = ''-''"
    | (valued) "a \<noteq> ''--''" "prefix ''-'' a" "a \<noteq> ''-''" "CHR ''='' \<in> set a"
    | (plain) "a \<noteq> ''--''" "prefix ''-'' a" "a \<noteq> ''-''" "CHR ''='' \<notin> set a" by blast
  then show ?case
  proof cases
    case stop
    with run name argv show ?thesis by simp
  next
    case positional
    then obtain ps' where "parse_argv opts as = Some (ps', flags)" using run argv by auto
    then show ?thesis using name by (rule rest) simp_all
  next
    case valued
    then have "parse_argv opts as = Some (ps, flags)" using run argv by (auto split: option.splits option_action.splits)
    then show ?thesis using name by (rule rest) simp_all
  next
    case plain
    then obtain n action where opt: "option_named opts a = Some (n, action)" using run argv by (auto split: option.splits)
    show ?thesis
    proof (cases action)
      case Takes_value
      then obtain v as' where "as = v # as'" "parse_argv opts as' = Some (ps, flags)"
        using run argv plain opt by (auto split: list.splits if_splits)
      then show ?thesis using name rest [of as' ps flags] by auto
    next
      case Exits
      then show ?thesis using run argv plain opt by simp
    next
      case Notes
      then obtain flags' where flags: "flags = n # flags'" "parse_argv opts as = Some (ps, flags')"
        using run argv plain opt by auto
      show ?thesis
      proof (cases "name = n")
        case True
        then show ?thesis using option_named_stands [OF opt] argv by auto
      next
        case False
        then have "name \<in> set flags'" using name flags(1) by simp
        with flags(2) show ?thesis by (rule rest) simp_all
      qed
    qed
  qed
qed

lemma parse_command_flags:
  assumes "parse_command base argv = Some (user_id, hard, no_input)"
  shows "hard \<Longrightarrow> \<exists>a\<in>set argv. stands_for a ''--hard-delete''" "no_input \<Longrightarrow> \<exists>a\<in>set argv. stands_for a ''--no-input''"
  using assms
  by (auto simp: parse_command_def given_def add_arguments_def split: option.splits list.splits dest: parse_argv_stands)

lemma anonymize_keeps_accounts: "anonymize tag pw u s = (r, s') \<Longrightarrow> map us_pk (users s') = map us_pk (users s)"
  by (auto simp: anonymize_def atomic_def revoke_tokens_def delete_notifications_def delete_roles_def save_user_def
      qs_update_def Let_def split: if_splits)

subsection \<open>Property\<close>

text \<open>C37. The command erases nothing by accident. Whatever the command line, the database changes only when an
  argument stands for \<open>--no-input\<close> or the operator answered yes, and an account disappears (instead of being
  anonymised) only when an argument stands for \<open>--hard-delete\<close>; a command line without exactly one user
  changes nothing.\<close>

theorem erasure_needs_consent:
  assumes run: "run_delete_user_data base parse_pk tag pw argv confirm s = (r, s')" and change: "s' \<noteq> s"
  shows "((\<exists>a\<in>set argv. stands_for a ''--no-input'') \<or> py_lower (py_strip confirm) = ''yes'') \<and>
    (map us_pk (users s') \<noteq> map us_pk (users s) \<longrightarrow> (\<exists>a\<in>set argv. stands_for a ''--hard-delete'')) \<and>
    (\<exists>user_id hard no_input. parse_command base argv = Some (user_id, hard, no_input))"
proof -
  obtain user_id hard no_input where cmd: "parse_command base argv = Some (user_id, hard, no_input)"
    using run change by (auto simp: run_delete_user_data_def split: option.splits)
  then obtain r' where del: "delete_user_data parse_pk tag pw user_id hard no_input confirm s = (r', s')"
    using run by (auto simp: run_delete_user_data_def split: prod.splits)
  then obtain u x where u: "no_input \<or> py_lower (py_strip confirm) = ''yes''"
      "(if hard then hard_delete u else anonymize tag pw u) s = (x, s')"
    using change by (auto simp: delete_user_data_def split: option.splits prod.splits sum.splits if_splits)
  have "hard" if "map us_pk (users s') \<noteq> map us_pk (users s)"
    using that u(2) anonymize_keeps_accounts [of tag pw u s x s'] by (cases hard) simp_all
  with u(1) cmd parse_command_flags [OF cmd] show ?thesis by blast
qed

text \<open>The options of the framework's commands.\<close>

definition django_options :: options where
  "django_options =
     [(''--help'', Exits), (''-h'', Exits), (''--version'', Exits), (''--verbosity'', Takes_value), (''-v'', Takes_value),
      (''--settings'', Takes_value), (''--pythonpath'', Takes_value), (''--traceback'', Notes), (''--no-color'', Notes),
      (''--force-color'', Notes), (''--skip-checks'', Notes)]"

lemma command_lines:
  "map (parse_command django_options)
     [[''2''], [''2'', ''--hard-delete''], [''--no-i'', ''2'', ''--hard''], [''2'', ''--no''], [''--verbosity'', ''0'', ''2''],
      [''--'', ''2''], [''2'', ''3''], [], [''2'', ''--hard-delete=yes''], [''2'', ''-h''], [''--ver'', ''0'', ''2'']] =
   [Some (''2'', False, False), Some (''2'', True, False), Some (''2'', True, True), None, Some (''2'', False, False),
    Some (''2'', False, False), None, None, None, None, None]"
  by code_simp

theorem erasure_needs_consent_witness:
  "\<exists>r s'. run_delete_user_data django_options (\<lambda>_. Some 2) ''ab12'' ''!x'' [''2'', ''--hard''] '' Yes '' gdpr_db = (r, s') \<and>
     map us_pk (users s') \<noteq> map us_pk (users gdpr_db) \<and> (\<exists>a\<in>set [''2'', ''--hard'']. stands_for a ''--hard-delete'')"
proof -
  obtain r s' where run:
    "run_delete_user_data django_options (\<lambda>_. Some 2) ''ab12'' ''!x'' [''2'', ''--hard''] '' Yes '' gdpr_db = (r, s')" by fastforce
  have "map us_pk (users (snd (run_delete_user_data django_options (\<lambda>_. Some 2) ''ab12'' ''!x'' [''2'', ''--hard'']
      '' Yes '' gdpr_db))) = [1]" by code_simp
  moreover have "map us_pk (users gdpr_db) = [1, 2]" by code_simp
  ultimately have gone: "map us_pk (users s') \<noteq> map us_pk (users gdpr_db)" using run by simp
  then have "s' \<noteq> gdpr_db" by auto
  from erasure_needs_consent [OF run this] gone run show ?thesis by blast
qed

end
