(* ===== verification/Doc_Examples.thy ===== *)
theory Doc_Examples
  imports System
begin

text \<open>
  The samples of the documentation: the flag checks of \<open>examples/feature_flags.py\<close>, which ask waffle directly, and
  the sample requests of \<open>examples/openapi_examples.py\<close>, which the API documentation shows for a seeded database.
  \<open>flag_active\<close>, \<open>switch_active\<close> and \<open>sample_active\<close> are waffle's.
\<close>

subsection \<open>Flags\<close>

record dashboard =
  db_version :: string
  db_layout :: string
  db_message :: string

definition DashboardView_get :: "(request \<Rightarrow> string \<Rightarrow> bool) \<Rightarrow> request \<Rightarrow> dashboard response" where
  "DashboardView_get flag_active rq =
     (if rq_user rq = None then Detail 401 []
      else if flag_active rq ''new_dashboard''
      then Response 200 \<lparr>db_version = ''v2'', db_layout = ''new_dashboard'', db_message = ''You are on the new dashboard.''\<rparr>
      else Response 200 \<lparr>db_version = ''v1'', db_layout = ''classic'', db_message = ''You are on the classic dashboard.''\<rparr>)"

definition get_dashboard_config :: "(request \<Rightarrow> string \<Rightarrow> bool) \<Rightarrow> request \<Rightarrow> string \<times> bool" where
  "get_dashboard_config flag_active rq =
     (if flag_active rq ''new_dashboard'' then (''redesign'', True) else (''classic'', False))"

text \<open>The switch is read and ignored: the data come back as they are.\<close>

definition process_export :: "(string \<Rightarrow> bool) \<Rightarrow> 'a list \<Rightarrow> 'a list" where
  "process_export switch_active data = (if switch_active ''async_export'' then data else data)"

definition should_run_experiment :: "(string \<Rightarrow> bool) \<Rightarrow> bool" where
  "should_run_experiment sample_active = sample_active ''checkout_experiment''"

subsection \<open>Requests\<close>

definition DEMO_LOGIN_REQUEST :: "string \<times> string" where
  "DEMO_LOGIN_REQUEST = (da_username DEMO_ADMIN, da_password DEMO_ADMIN)"

definition DEMO_RBAC_TENANT_ID :: uuid where "DEMO_RBAC_TENANT_ID = TENANT1_ID"

subsection \<open>Properties\<close>

text \<open>The sample and the service agree on a flag unless the tenant overrides it: the sample never sees the
  override.\<close>

theorem sample_ignores_override:
  assumes "flag_is_active w rq ''new_dashboard'' = Some (flag_active rq ''new_dashboard'')" and "rq_tenant rq = Some t"
    and "rq_user rq = Some u"
  shows "(\<exists>d. DashboardView_get flag_active rq = Response 200 d \<and> (db_version d = ''v2'' \<longleftrightarrow> flag_active rq ''new_dashboard'')) \<and>
    is_enabled (Some w) defaults ''new_dashboard'' (Some rq) None s =
    (case qs_get (\<lambda>r. flag_key r = (tn_id t, ''new_dashboard'')) (feature_flags s) of
       Inr r \<Rightarrow> ff_is_enabled r | Inl _ \<Rightarrow> flag_active rq ''new_dashboard'')"
  using assms by (auto simp: DashboardView_get_def is_enabled_def get_waffle_flag_def split: sum.splits)

text \<open>The documented requests work on a seeded database. The sample login is answered with tokens (or the request
  for a second factor), and the account it names may list the roles of the documented tenant, where it is
  admin. Of the authentication backend, as documented: an active account with that name and the hash of that
  password is found. The account must be active, which seeding does not restore.\<close>

theorem documented_requests_work:
  assumes ok: "db_ok s" "demo_email_free s" and run: "seed mk now dids rid s = (Inr (ts, u), s')" and active: "us_is_active u"
    and auth: "\<And>v. v \<in> set (users s') \<Longrightarrow> us_is_active v \<Longrightarrow> us_username v = fst DEMO_LOGIN_REQUEST \<Longrightarrow>
      us_password v = mk (snd DEMO_LOGIN_REQUEST) \<Longrightarrow> au (fst DEMO_LOGIN_REQUEST) (snd DEMO_LOGIN_REQUEST) s' = Some v"
    and uuid: "parse_uuid DEMO_RBAC_TENANT_ID = Some DEMO_RBAC_TENANT_ID" and user: "rq_user rq = Some u"
  shows "(\<exists>body st'. ThrottledTokenObtainPairView_post au mint now' j1 j2 key (fst DEMO_LOGIN_REQUEST)
      (snd DEMO_LOGIN_REQUEST) (st\<lparr>site_db := s'\<rparr>) = (Response 200 body, st')) \<and>
    (\<exists>rows. TenantRoleListView_get parse_uuid rq DEMO_RBAC_TENANT_ID s' = (Response 200 rows, s') \<and>
      (\<exists>row\<in>set rows. ur_user row = us_pk u \<and> ur_role row = ''admin''))"
proof
  have eff: "db_ok s'" "u \<in> set (users s')" "demo_admin_row mk u" "role_map s' = (role_map s)((us_pk u, TENANT1_ID) \<mapsto> ''admin'')"
    "seeded mk s'"
    using seed_effect [OF ok run] by auto
  have "au (fst DEMO_LOGIN_REQUEST) (snd DEMO_LOGIN_REQUEST) s' = Some u"
    using auth [OF eff(2) active] eff(3) by (simp add: demo_admin_row_def DEMO_LOGIN_REQUEST_def)
  then show "\<exists>body st'. ThrottledTokenObtainPairView_post au mint now' j1 j2 key (fst DEMO_LOGIN_REQUEST)
      (snd DEMO_LOGIN_REQUEST) (st\<lparr>site_db := s'\<rparr>) = (Response 200 body, st')"
    by (simp add: ThrottledTokenObtainPairView_post_def case_prod_beta Let_def)
  have roles: "roles_ok s'" "tbl_ok tn_id (tenants s')" using db_okD(2,3) [OF eff(1)] by (simp_all add: tenancy_ok_def)
  obtain t where "t \<in> set (tenants s')" "tn_id t = TENANT1_ID"
    using eff(5) by (auto simp: seeded_def seeded_tenant_def DEMO_TENANTS_def)
  then have "tenant_of s' TENANT1_ID \<noteq> None" by (auto simp: tenant_of_def find_None_iff)
  then obtain t where t: "tenant_of s' TENANT1_ID = Some t" "tn_id t = TENANT1_ID"
    by (auto simp: tenant_of_def find_Some_iff)
  have "TENANT1_ID \<noteq> []" by (simp add: TENANT1_ID_def)
  then have "resolve_request_tenant parse_uuid rq (Some TENANT1_ID) s' = Inr (Some t)"
    using resolve_url_tenant [of parse_uuid TENANT1_ID s' rq] uuid roles(2) t by (simp add: DEMO_RBAC_TENANT_ID_def)
  moreover have role: "role_map s' (us_pk u, tn_id t) = Some ''admin''" using eff(4) t by simp
  ultimately have "HasRolePermission parse_uuid [''owner'', ''admin'', ''member''] rq (Some TENANT1_ID) s' = Inr True"
    using user by (simp add: HasRolePermission_def has_role_map [OF roles(1)])
  moreover obtain row where "row \<in> set (roles s')" "ur_user row = us_pk u" "ur_tenant row = tn_id t" "ur_role row = ''admin''"
    using role unfolding role_map_Some [OF roles(1)] by blast
  ultimately show "\<exists>rows. TenantRoleListView_get parse_uuid rq DEMO_RBAC_TENANT_ID s' = (Response 200 rows, s') \<and>
      (\<exists>row\<in>set rows. ur_user row = us_pk u \<and> ur_role row = ''admin'')"
    using t user by (auto simp: TenantRoleListView_get_def authenticated_with_role_def DEMO_RBAC_TENANT_ID_def)
qed

end
