(* ===== verification/Refusals.thy ===== *)
theory Refusals
  imports Error_Envelope Pipeline
begin

text \<open>
  The answers of \<open>TenantMiddleware\<close> in the error envelope (\<open>_tenant_not_found\<close>, \<open>_tenant_inactive\<close> of
  \<open>apps/tenants/middleware.py\<close>). \<open>TenantMiddleware_call\<close> gives their status and message.
\<close>

definition tenant_not_found :: envelope where
  "tenant_not_found = \<lparr>en_status = 404, en_error = ''not_found'', en_message = ''Tenant not found.'', en_details = JObj []\<rparr>"

definition tenant_inactive :: envelope where
  "tenant_inactive =
     \<lparr>en_status = 403, en_error = ''tenant_inactive'', en_message = ''This tenant is inactive.'', en_details = JObj []\<rparr>"

definition as_detail :: "envelope \<Rightarrow> 'a response" where
  "as_detail e = Detail (en_status e) (en_message e)"

text \<open>The middleware answers for itself in these two cases only. Otherwise the answer is the view's, asked
  without a tenant on an exempt path and with an active one elsewhere. A client that reads the code of the envelope cannot
  tell an unknown tenant from an unknown URL.\<close>

theorem middleware_refusals:
  assumes "TenantMiddleware_call now get_response rq st = (Inr r, st')"
  shows "(r \<in> {as_detail tenant_not_found, as_detail tenant_inactive} \<or>
    (\<exists>t st1. fst (get_response (rq\<lparr>rq_tenant := t\<rparr>) st1) = Inr r \<and>
       (case t of None \<Rightarrow> list_ex (starts_with (rq_path rq)) EXEMPT_PREFIXES | Some t \<Rightarrow> tn_is_active t))) \<and>
    en_error tenant_not_found = en_error handler404"
proof (intro conjI)
  show "en_error tenant_not_found = en_error handler404" by (simp add: tenant_not_found_def handler404_def)
  show "r \<in> {as_detail tenant_not_found, as_detail tenant_inactive} \<or>
    (\<exists>t st1. fst (get_response (rq\<lparr>rq_tenant := t\<rparr>) st1) = Inr r \<and>
       (case t of None \<Rightarrow> list_ex (starts_with (rq_path rq)) EXEMPT_PREFIXES | Some t \<Rightarrow> tn_is_active t))"
  proof (cases "list_ex (starts_with (rq_path rq)) EXEMPT_PREFIXES")
    case True
    then have "fst (get_response (rq\<lparr>rq_tenant := None\<rparr>) (clear_tenant st)) = Inr r"
      using assms by (simp add: TenantMiddleware_call_def)
    with True show ?thesis
      by (intro disjI2 exI [of _ "None :: tenant option"] exI [of _ "clear_tenant st"]) simp
  next
    case False
    obtain found st1 where find: "resolve_tenant now (split_head (CHR '':'') (rq_host rq)) st = (found, st1)" by fastforce
    consider "r = Detail 404 ''Tenant not found.''" | "r = Detail 403 ''This tenant is inactive.''"
      | (served) t where "tn_is_active t"
          "fst (get_response (rq\<lparr>rq_tenant := Some t\<rparr>) (set_tenant_id (Some (tn_id t)) st1)) = Inr r"
      using assms False find
      by (auto simp: TenantMiddleware_call_def split: sum.splits option.splits prod.splits if_splits)
    then show ?thesis
    proof cases
      case served
      then show ?thesis
        by (intro disjI2 exI [of _ "Some t"] exI [of _ "set_tenant_id (Some (tn_id t)) st1"]) simp
    qed (simp_all add: as_detail_def tenant_not_found_def tenant_inactive_def)
  qed
qed

end
