(* ===== verification/Token_Views.thy ===== *)
theory Token_Views
  imports Rate_Limits
begin

text \<open>
  \<open>apps/authentication/token_views.py\<close>: two subclasses of the token library's views, offered as a replacement for the
  ones the URLs reach. \<open>TokenRefreshView\<close> adds nothing to the library's class. What the library's view does with
  a login is the first half of \<open>ThrottledTokenObtainPairView\<close>, which calls it.
\<close>

definition TokenObtainPairView_throttle :: "throttle list \<times> string" where
  "TokenObtainPairView_throttle = ([Login_rate], ''login'')"

definition TokenObtainPairView_post ::
  "(string \<Rightarrow> string \<Rightarrow> db \<Rightarrow> user option) \<Rightarrow> (user \<Rightarrow> string \<Rightarrow> string \<times> string) \<Rightarrow> string \<Rightarrow> string \<Rightarrow> string \<Rightarrow>
   site \<Rightarrow> login_result response \<times> site" where
  "TokenObtainPairView_post authenticate mint jti username password st =
     (case authenticate username password (site_db st) of
        None \<Rightarrow> (Detail 401 [], st)
      | Some u \<Rightarrow>
          (case refresh_token_for_user mint jti u (site_db st) of
             (pair, s1) \<Rightarrow> (Response 200 (Tokens (fst pair) (snd pair)), st\<lparr>site_db := s1\<rparr>)))"

text \<open>The replacement would keep the limit on logins: it declares one of the default throttles, under the same
  scope.\<close>

theorem token_view_limit_kept:
  "set (fst TokenObtainPairView_throttle) \<subseteq> set (default_throttles config) \<and>
   scope_of ''token_obtain_pair'' = Some (snd TokenObtainPairView_throttle)"
  by (simp add: TokenObtainPairView_throttle_def default_throttles scope_of_def
      ThrottledTokenObtainPairView_throttle_scope_def)

text \<open>It would not keep the second factor. Both views answer the wrong password alike, and both give tokens to an
  account without a second factor; an account with one is asked for it by the view in use and given tokens by the
  replacement.\<close>

theorem token_view_skips_second_factor:
  "case authenticate name pw (site_db st) of
     None \<Rightarrow>
       ThrottledTokenObtainPairView_post authenticate mint now j1 j2 key name pw st = (Detail 401 [], st) \<and>
       TokenObtainPairView_post authenticate mint j1 name pw st = (Detail 401 [], st)
   | Some u \<Rightarrow>
       (let tokens = Response 200 (Tokens (fst (mint u j1)) (snd (mint u j1)))
        in fst (TokenObtainPairView_post authenticate mint j1 name pw st) = tokens \<and>
           fst (ThrottledTokenObtainPairView_post authenticate mint now j1 j2 key name pw st) =
             (if \<exists>t. totp_of (site_db st) (us_pk u) = Some t \<and> tp_is_enabled t
              then Response 200 (Two_fa_required key) else tokens))"
  by (simp add: TokenObtainPairView_post_def ThrottledTokenObtainPairView_post_def refresh_token_for_user_def
      totp_of_def Let_def split: option.split)

end
