(* ===== verification/Spec2Isabelle.thy ===== *)
theory Spec2Isabelle
  imports System Idempotency Socket_Auth Error_Envelope Soft_Delete Throttling Platform
    Settings Requirements_Pins Migrations Pipeline
    Worker Operations Asgi Front_Door Admin Races Rate_Limits Project Command_Line
    Doc_Examples Refusals Token_Views
begin

text \<open>
  Verification library of the Django SaaS kit, a multi-tenant HTTP API: accounts with a second factor and
  social login, tenants with roles, invitations, feature flags and subscriptions, notifications over mail and
  WebSocket, an audit log, a Celery worker and management commands. Everything under \<open>src/\<close> that carries logic
  of the program is translated from its source; libraries are arguments of the definitions that call them.

  \<^bold>\<open>How the parts work together.\<close> A request passes the middlewares of \<open>config/settings/base.py\<close> (\<open>Pipeline\<close>):
  the request context gives it an id, \<open>TenantMiddleware\<close> finds the tenant of its host name through a cache,
  and the URL configuration (\<open>Routing\<close>) chooses a view. Views check permissions (\<open>Rbac\<close>), call a service, and
  turn its exceptions into answers (\<open>Front_Door\<close>). Services read and write the tables, put tasks on the queue and append to
  the audit log. The worker takes tasks from the queue and repeats a failed one. Commands and Python callers
  use the services without a request. \<open>System\<close> is all this as one machine: \<open>view\<close> is the view behind an
  endpoint, \<open>serve\<close> the same behind the tenant middleware, \<open>event_step\<close> one event (request, turn of the
  worker, command, service call) on a \<open>site\<close>, which is the database with the caches and the tenant context.

  \<^bold>\<open>Conventions.\<close> A model is a record, a table the list of its rows in order of insertion, the database a record
  of tables (\<open>Schema\<close>). An operation maps the state to a result and a state; the result is \<open>Inl\<close> of the exception
  raised or \<open>Inr\<close> of the value returned, and writes made before an exception stay unless \<open>atomic\<close>
  (\<open>transaction.atomic\<close>) surrounds them (\<open>Prelude\<close>). Queryset operations are those of \<open>Store\<close>. Integers of the
  source are unbounded and are \<open>nat\<close> or \<open>int\<close>; instants are seconds. Texts are lists of characters, read as
  code points up to U+00FF. The clock and random values are arguments.

  \<^bold>\<open>Where to find what.\<close>

  \<^item> \<open>Prelude\<close>, \<open>Store\<close>, \<open>Schema\<close>, \<open>Samples\<close>: exceptions (\<open>services/exceptions.py\<close>), Python's string functions,
    tables and cache, the models (\<open>apps/*/models.py\<close>), concrete databases for the witnesses.
  \<^item> \<open>Audit_Log\<close>, \<open>Audit_Views\<close>: \<open>services/audit\<close>, \<open>apps/audit\<close>. \<open>Tenancy\<close>: \<open>services/tenants\<close>, \<open>services/tenant_context.py\<close>,
    \<open>apps/tenants/middleware.py\<close>. \<open>Rbac\<close>: \<open>services/rbac\<close>, \<open>apps/rbac\<close>. \<open>Features\<close>: \<open>services/features\<close>,
    \<open>apps/features\<close>. \<open>Billing\<close>: \<open>services/billing\<close>, \<open>apps/billing\<close>. \<open>Invitations\<close>: \<open>services/invitations\<close>,
    \<open>apps/invitations\<close>. \<open>Notifications\<close>: \<open>services/notifications\<close>, \<open>apps/notifications\<close> with the socket consumer.
  \<^item> \<open>Users\<close>, \<open>Gdpr\<close>: \<open>services/users\<close>, \<open>services/common/email_service.py\<close>, \<open>apps/users\<close>. \<open>Two_Factor\<close>,
    \<open>Social_Auth\<close>, \<open>Password_Reset\<close>: \<open>apps/authentication\<close>, \<open>services/auth\<close>. \<open>Socket_Auth\<close>, \<open>Asgi\<close>:
    \<open>apps/notifications/middleware.py\<close>, \<open>apps/notifications/routing.py\<close>, \<open>config/asgi.py\<close>. \<open>Serializers\<close>: \<open>apps/*/serializers.py\<close>,
    the user filter and the page size. \<open>Idempotency\<close>: \<open>services/common/idempotency.py\<close>.
  \<^item> \<open>Error_Envelope\<close>, \<open>Soft_Delete\<close>, \<open>Throttling\<close>, \<open>Platform\<close>: \<open>apps/common\<close> (error answers, soft deletion, rate
    limits, request context, content policy, log redaction, health) and the start-up check of \<open>config/env.py\<close>.
  \<^item> \<open>Settings\<close>: \<open>config/settings/*.py\<close>. \<open>Migrations\<close>: \<open>apps/*/migrations\<close> against the models. \<open>Operations\<close>: logging and
    error reporting set-up, \<open>CommonConfig.ready\<close>, \<open>check_redis\<close>, \<open>sync_beat_schedule\<close>. \<open>Seeding\<close>: \<open>services/demo\<close>,
    \<open>examples/demo_config.py\<close>, \<open>seed_demo\<close>. \<open>Requirements_Pins\<close>: \<open>scripts/verify_requirements_pins.py\<close>.
  \<^item> \<open>Integrity\<close>: what makes a database whole, and that every operation keeps it. \<open>System\<close>, \<open>Routing\<close>, \<open>Pipeline\<close>,
    \<open>Worker\<close>: the program as a whole, its URLs (\<open>config/urls.py\<close>, \<open>apps/*/urls.py\<close>), its middleware stack, and its
    queue and audit log over time. \<open>Front_Door\<close>: a request from its method, path and body to the view, with the
    permission classes of every view class (\<open>apps/*/views.py\<close>). \<open>Rate_Limits\<close>: the throttles of every view and what
    they let through over time.
  \<^item> \<open>Races\<close>: requests served at the same time, as interleavings of their database statements. \<open>Admin\<close>: the site of the
    administration (\<open>apps/*/admin.py\<close>) and the deletion of a tenant in it. \<open>Project\<close>: the applications
    (\<open>apps/*/apps.py\<close>), the settings that name modules, the names of the tasks, and the entry points of the processes.
    \<open>Command_Line\<close>: the arguments of \<open>delete_user_data\<close>. \<open>Doc_Examples\<close>: \<open>examples/feature_flags.py\<close> and
    \<open>examples/openapi_examples.py\<close>. \<open>Refusals\<close>: the tenant middleware's own answers in the error envelope.
    \<open>Token_Views\<close>: \<open>apps/authentication/token_views.py\<close>, which no URL reaches, beside the login view in use.
\<close>

text \<open>
  \<^bold>\<open>Interfaces.\<close> \<open>keyed_table\<close> (in \<open>Store\<close>) is a table with one row per key; its client lemmas are proved once and
  used through the interpretations of the components: \<open>user_tbl\<close>, \<open>role_tbl\<close>, \<open>flag_tbl\<close>, \<open>sub_tbl\<close>,
  \<open>totp_tbl\<close>, \<open>invitation_tbl\<close>, \<open>notification_tbl\<close>, \<open>domain_tbl\<close>, \<open>record_tbl\<close>. \<open>timed_cache\<close> is a cache whose entries
  expire (\<open>django_cache\<close>). \<open>preserved\<close> is a machine with an invariant kept by every admitted step, hence by its
  runs: \<open>webhook_machine\<close>, \<open>invite_machine\<close>, \<open>login_machine\<close>, \<open>hub_machine\<close>, \<open>lookups\<close>, \<open>deliveries\<close>, and \<open>program\<close>
  for the whole; \<open>delivery_machine\<close> and \<open>accept_machine\<close> for concurrent requests. \<open>header_layer\<close> (in \<open>Pipeline\<close>) is a middleware that adds headers and otherwise hands the answer on
  (\<open>csp\<close>).

  \<^bold>\<open>What is shown.\<close> Per component: every branch of its operations; that they refine a small specification (roles
  as a map, the table of Stripe's events, the state machine of an invitation); that one-time things are used
  once (invitation, backup code, Stripe event, idempotency key); that a second factor gates the tokens; that
  names made from provider data end and fit their columns. Across components: the database stays whole under
  every run; whatever is sent, only an endpoint of the machine changes it, and only a caller its permission
  classes let; roles change only by authority; no audit row is changed or lost; every queued task runs; every
  answer carries its request id; the URLs reach exactly the views of the machine; the migrations build the
  models; concurrent deliveries of one Stripe event queue it once, concurrent acceptances grant only what was
  offered; the site of the administration cannot thin out the audit log; no client passes a rate limit; the
  command that erases an account does so only when asked to. Where the code does not do what its comments promise, a theorem states what it does.

  \<^bold>\<open>Bounds.\<close> \<open>with_retries\<close> is recursion over the number of retries the source configures: 5 for Stripe events, 3 for
  mails and resets. Cached entries live for 300 seconds (tenants and login sessions), 60 (unknown hosts) and 86400
  (idempotency results); invitations for 72 hours, the grace after a failed payment for 7 days. No definition
  runs on fuel: the search for a free username and the word splitting of the error envelope recurse with a
  termination proof, every other recursion is on the size of its input. What settles in time (cached tenants, the queue) is stated
  with the time or number of steps it takes.

  \<^bold>\<open>Hypotheses.\<close> Parameters stand for Django's password hash and validators, its signed links, the token, TOTP,
  Stripe and provider libraries, template rendering, paging, the processors of
  the logging library and the framework's own middlewares. Where a theorem needs their documented behaviour it
  is a premise of that theorem, and its witness gives concrete functions that satisfy it. Runs of the
  whole program are assumed to draw fresh random identifiers and to be handed rows that exist (\<open>event_admits\<close>).

  \<^bold>\<open>Not modelled.\<close> Package re-exports, which hold no logic, and the drawing of the QR code of a second factor.
  Of the entry points of the processes what follows the choice of the settings is the server's. In \<open>System\<close> requests are served one at a time; where the source relies on
  concurrent callers getting in each other's way safely (the Stripe webhook, the acceptance of an invitation,
  \<open>services/common/idempotency.py\<close>), \<open>Races\<close> and \<open>Idempotency\<close> interleave them. Of the site of the administration the
  declarations and the deletion of a tenant; its other forms are the framework's. Database failures other than
  violated constraints, a closed audit table and an unreachable broker do not occur. Characters beyond U+00FF
  are outside the model of texts.
\<close>

end
